(* ===== verification/Go_Prelude.thy ===== *)
theory Go_Prelude
  imports
    Main
    "HOL-Library.AList"
    "HOL-Library.Word"
    "HOL-Library.State_Monad"
    "HOL-Library.List_Lexorder"
    "HOL-Library.Char_ord"
begin

text \<open>
  The part of Go and of its standard library that every component of the TApp controller
  relies on, together with the lemma collections of the development.

  \<^item> A run-time panic is a value: \<open>'a go\<close> is either a panic or a result.
  \<^item> A Go map is an association list under an option: \<open>None\<close> is the nil map, which can be
    read, measured, ranged over and deleted from, but panics when it is written.
    The order of the list is the order in which one particular \<^verbatim>\<open>range\<close> loop
    visits the map; \<open>gm_wf\<close> says that keys are distinct.
  \<^item> \<^verbatim>\<open>strconv.Itoa\<close>, \<^verbatim>\<open>strconv.Atoi\<close> and the \<^verbatim>\<open>%d\<close> verb, at 64 bits.
  \<^item> \<^verbatim>\<open>sets.String\<close> as a set with its sorted listing.
  \<^item> Loops that may panic (\<open>go_fold\<close>) and their invariant rule.
\<close>

named_theorems go_simps \<open>equations that evaluate Go primitives\<close>
named_theorems model_defs \<open>definitions of the model, for unfolding in evaluation\<close>

subsection \<open>Panics\<close>

datatype go_panic = NilMapWrite | NilDereference | TypeAssertion

type_synonym 'a go = "go_panic + 'a"

definition go_bind :: "'a go \<Rightarrow> ('a \<Rightarrow> 'b go) \<Rightarrow> 'b go" where
  "go_bind m f = (case m of Inl p \<Rightarrow> Inl p | Inr x \<Rightarrow> f x)"

definition go_ok :: "'a go \<Rightarrow> bool" where
  "go_ok m = (case m of Inl _ \<Rightarrow> False | Inr _ \<Rightarrow> True)"

fun go_fold :: "('x \<Rightarrow> 's \<Rightarrow> 's go) \<Rightarrow> 'x list \<Rightarrow> 's \<Rightarrow> 's go" where
  "go_fold f [] s = Inr s"
| "go_fold f (x # xs) s = go_bind (f x s) (go_fold f xs)"

lemma go_bind_simps [simp]:
  "go_bind (Inl p) f = Inl p"
  "go_bind (Inr x) f = f x"
  by (simp_all add: go_bind_def)

lemma go_ok_simps [simp]:
  "\<not> go_ok (Inl p)"
  "go_ok (Inr x)"
  by (simp_all add: go_ok_def)

lemma go_bind_Inr_iff: "go_bind m f = Inr y \<longleftrightarrow> (\<exists>x. m = Inr x \<and> f x = Inr y)"
  by (cases m) auto

lemma go_bind_result_Inr_iff:
  "go_bind m (case_sum g f) = Inr y \<longleftrightarrow>
     (\<exists>x. m = Inr (Inr x) \<and> f x = Inr y) \<or> (\<exists>e. m = Inr (Inl e) \<and> g e = Inr y)"
  by (cases m) (auto split: sum.split)

lemma go_ok_iff: "go_ok m \<longleftrightarrow> (\<exists>x. m = Inr x)"
  by (cases m) auto

lemma go_fold_append: "go_fold f (xs @ ys) s = go_bind (go_fold f xs s) (go_fold f ys)"
proof (induction xs arbitrary: s)
  case (Cons x xs)
  then show ?case by (cases "f x s") auto
qed simp

text \<open>The invariant rule for loops: a loop body that keeps an invariant does not panic on it.\<close>

lemma go_fold_invariant:
  assumes "I s"
    and step: "\<And>x s. x \<in> set xs \<Longrightarrow> I s \<Longrightarrow> \<exists>s'. f x s = Inr s' \<and> I s'"
  shows "\<exists>s'. go_fold f xs s = Inr s' \<and> I s'"
  using assms
proof (induction xs arbitrary: s)
  case (Cons x xs)
  then obtain s1 where "f x s = Inr s1" "I s1"
    by (metis list.set_intros(1))
  with Cons.IH [of s1] Cons.prems(2) show ?case by simp
qed simp

text \<open>A property of the state that every successful step keeps is kept by the loop.\<close>

lemma go_fold_preserves:
  assumes "go_fold f xs s = Inr t"
    and "I s"
    and "\<And>x s s'. x \<in> set xs \<Longrightarrow> I s \<Longrightarrow> f x s = Inr s' \<Longrightarrow> I s'"
  shows "I t"
  using assms
proof (induction xs arbitrary: s)
  case (Cons x xs)
  then obtain s1 where s1: "f x s = Inr s1" "go_fold f xs s1 = Inr t"
    by (auto simp: go_bind_Inr_iff)
  from Cons.prems(3) [OF _ Cons.prems(2) s1(1)] have "I s1" by simp
  with s1(2) show ?case
    by (rule Cons.IH) (use Cons.prems(3) in auto)
qed simp

subsection \<open>Maps\<close>

type_synonym 'v amap = "(string \<times> 'v) list"
type_synonym 'v gomap = "'v amap option"

definition gm_entries :: "'v gomap \<Rightarrow> 'v amap" where
  "gm_entries m = (case m of None \<Rightarrow> [] | Some l \<Rightarrow> l)"

definition gm_lookup :: "'v gomap \<Rightarrow> string \<Rightarrow> 'v option" where
  "gm_lookup m k = map_of (gm_entries m) k"

text \<open>Indexing yields the zero value of the element type for a missing key.\<close>

definition gm_get :: "'v \<Rightarrow> 'v gomap \<Rightarrow> string \<Rightarrow> 'v" where
  "gm_get zero m k = (case gm_lookup m k of None \<Rightarrow> zero | Some v \<Rightarrow> v)"

definition gm_assign :: "string \<Rightarrow> 'v \<Rightarrow> 'v gomap \<Rightarrow> 'v gomap go" where
  "gm_assign k v m = (case m of None \<Rightarrow> Inl NilMapWrite | Some l \<Rightarrow> Inr (Some (AList.update k v l)))"

text \<open>Assignment after the nil check that the code performs: a nil map is replaced by a fresh one.\<close>

definition gm_make_assign :: "string \<Rightarrow> 'v \<Rightarrow> 'v gomap \<Rightarrow> 'v gomap" where
  "gm_make_assign k v m = Some (AList.update k v (gm_entries m))"

definition gm_delete :: "string \<Rightarrow> 'v gomap \<Rightarrow> 'v gomap" where
  "gm_delete k m = map_option (AList.delete k) m"

definition gm_len :: "'v gomap \<Rightarrow> nat" where
  "gm_len m = length (gm_entries m)"

definition gm_wf :: "'v gomap \<Rightarrow> bool" where
  "gm_wf m = distinct (map fst (gm_entries m))"

text \<open>\<^verbatim>\<open>for k, v := range src { dst[k] = v }\<close>\<close>

definition gm_copy_into :: "'v gomap \<Rightarrow> 'v gomap \<Rightarrow> 'v gomap go" where
  "gm_copy_into src dst = go_fold (\<lambda>(k, v). gm_assign k v) (gm_entries src) dst"

text \<open>\<^verbatim>\<open>reflect.DeepEqual\<close> on maps: both nil or both not, same length, same values.\<close>

definition gm_DeepEqual :: "'v gomap \<Rightarrow> 'v gomap \<Rightarrow> bool" where
  "gm_DeepEqual m1 m2 \<longleftrightarrow>
     (m1 = None \<longleftrightarrow> m2 = None) \<and> gm_len m1 = gm_len m2 \<and>
     list_all (\<lambda>(k, v). gm_lookup m2 k = Some v) (gm_entries m1)"

lemma gm_entries_simps [simp]:
  "gm_entries None = []"
  "gm_entries (Some l) = l"
  by (simp_all add: gm_entries_def)

lemma gm_lookup_fun: "gm_lookup m = map_of (gm_entries m)"
  by (simp add: gm_lookup_def fun_eq_iff)

lemma gm_lookup_simps [simp]:
  "gm_lookup None k = None"
  "gm_lookup (Some l) k = map_of l k"
  by (simp_all add: gm_lookup_def)

lemma gm_assign_simps [simp]:
  "gm_assign k v None = Inl NilMapWrite"
  "gm_assign k v (Some l) = Inr (Some (AList.update k v l))"
  by (simp_all add: gm_assign_def)

lemma gm_delete_simps [simp]:
  "gm_delete k None = None"
  "gm_delete k (Some l) = Some (AList.delete k l)"
  by (simp_all add: gm_delete_def)

lemma gm_lookup_make_assign [simp]:
  "gm_lookup (gm_make_assign k v m) k' = (if k' = k then Some v else gm_lookup m k')"
  by (simp add: gm_make_assign_def gm_lookup_def update_conv')

lemma gm_lookup_delete [simp]:
  "gm_lookup (gm_delete k m) k' = (if k' = k then None else gm_lookup m k')"
  by (cases m) (auto simp: delete_conv')

lemma gm_make_assign_not_nil [simp]: "gm_make_assign k v m \<noteq> None"
  by (simp add: gm_make_assign_def)

lemma gm_wf_make_assign [intro]: "gm_wf m \<Longrightarrow> gm_wf (gm_make_assign k v m)"
  by (simp add: gm_wf_def gm_make_assign_def distinct_update)

lemma gm_wf_delete [intro]: "gm_wf m \<Longrightarrow> gm_wf (gm_delete k m)"
  by (cases m) (auto simp: gm_wf_def distinct_delete)

lemma gm_lookup_Some_iff:
  "gm_wf m \<Longrightarrow> gm_lookup m k = Some v \<longleftrightarrow> (k, v) \<in> set (gm_entries m)"
  by (simp add: gm_lookup_def gm_wf_def)

lemma gm_lookup_None_iff: "gm_lookup m k = None \<longleftrightarrow> k \<notin> fst ` set (gm_entries m)"
  by (simp add: gm_lookup_def map_of_eq_None_iff)

lemma gm_len_card: "gm_wf m \<Longrightarrow> gm_len m = card (fst ` set (gm_entries m))"
  by (metis distinct_card gm_len_def gm_wf_def length_map list.set_map)

text \<open>Deep equality of maps is extensional equality together with agreement on nil.\<close>

lemma gm_DeepEqual_iff:
  assumes "gm_wf m1" "gm_wf m2"
  shows "gm_DeepEqual m1 m2 \<longleftrightarrow> (m1 = None \<longleftrightarrow> m2 = None) \<and> gm_lookup m1 = gm_lookup m2"
proof
  assume eq: "gm_DeepEqual m1 m2"
  let ?K1 = "fst ` set (gm_entries m1)" and ?K2 = "fst ` set (gm_entries m2)"
  have fwd: "gm_lookup m2 k = Some v" if "(k, v) \<in> set (gm_entries m1)" for k v
    using eq that by (auto simp: gm_DeepEqual_def list_all_iff)
  then have "?K1 \<subseteq> ?K2"
    by (force simp: gm_lookup_def dest: map_of_SomeD)
  moreover have "card ?K1 = card ?K2"
    using eq assms by (simp add: gm_DeepEqual_def flip: gm_len_card)
  ultimately have keys: "?K1 = ?K2"
    by (simp add: card_subset_eq)
  have "gm_lookup m1 k = gm_lookup m2 k" for k
  proof (cases "gm_lookup m1 k")
    case None
    then show ?thesis using keys gm_lookup_None_iff by metis
  next
    case (Some v)
    with assms(1) have "(k, v) \<in> set (gm_entries m1)" by (simp add: gm_lookup_Some_iff)
    with fwd have "gm_lookup m2 k = Some v" by blast
    with Some show ?thesis by simp
  qed
  then show "(m1 = None \<longleftrightarrow> m2 = None) \<and> gm_lookup m1 = gm_lookup m2"
    using eq by (auto simp: gm_DeepEqual_def)
next
  assume eq: "(m1 = None \<longleftrightarrow> m2 = None) \<and> gm_lookup m1 = gm_lookup m2"
  then have "fst ` set (gm_entries m1) = fst ` set (gm_entries m2)"
    by (metis gm_lookup_None_iff set_eqI)
  then have "gm_len m1 = gm_len m2" by (simp add: assms gm_len_card)
  moreover have "list_all (\<lambda>(k, v). gm_lookup m2 k = Some v) (gm_entries m1)"
    using eq gm_lookup_Some_iff [OF assms(1)] by (auto simp: list_all_iff)
  ultimately show "gm_DeepEqual m1 m2"
    using eq by (simp add: gm_DeepEqual_def)
qed

lemma gm_DeepEqual_refl: "gm_wf m \<Longrightarrow> gm_DeepEqual m m"
  by (simp add: gm_DeepEqual_iff)

text \<open>Copying a map into a live one never panics; the source's keys win.\<close>

lemma gm_copy_into_live:
  "\<exists>l'. gm_copy_into src (Some l) = Inr (Some l') \<and> map_of l' = map_of l ++ map_of (rev (gm_entries src))"
proof -
  have "\<exists>l'. go_fold (\<lambda>(k, v). gm_assign k v) es (Some l) = Inr (Some l') \<and>
      map_of l' = map_of l ++ map_of (rev es)" for es :: "'a amap"
  proof (induction es arbitrary: l)
    case (Cons e es)
    obtain k v where e: "e = (k, v)" by (cases e)
    from Cons [of "AList.update k v l", unfolded update_conv'] obtain l'
      where "go_fold (\<lambda>(k, v). gm_assign k v) es (Some (AList.update k v l)) = Inr (Some l')"
        and "map_of l' = (map_of l)(k \<mapsto> v) ++ map_of (rev es)"
      by blast
    then show ?case by (simp add: e)
  qed simp
  then show ?thesis by (simp add: gm_copy_into_def)
qed

lemma gm_copy_into_nil:
  "gm_copy_into src None = (if gm_entries src = [] then Inr None else Inl NilMapWrite)"
  by (cases "gm_entries src") (auto simp: gm_copy_into_def)

lemma map_of_rev_distinct: "distinct (map fst l) \<Longrightarrow> map_of (rev l) = map_of l"
  by (simp add: distinct_map map_of_inject_set rev_map)

lemma gm_copy_into_lookup:
  assumes "gm_wf src" and "gm_copy_into src dst = Inr res"
  shows "gm_lookup res = gm_lookup dst ++ gm_lookup src"
proof (cases dst)
  case None
  with assms(2) show ?thesis
    by (auto simp: gm_copy_into_nil fun_eq_iff gm_lookup_def map_add_def split: if_splits)
next
  case (Some l)
  with gm_copy_into_live [of src l] assms show ?thesis
    by (auto simp: gm_lookup_fun gm_wf_def map_of_rev_distinct)
qed

subsection \<open>Decimal numerals: strconv and the %d verb\<close>

definition digit_char :: "nat \<Rightarrow> char" where
  "digit_char d = char_of (48 + d)"

definition is_digit :: "char \<Rightarrow> bool" where
  "is_digit c \<longleftrightarrow> 48 \<le> (of_char c :: nat) \<and> (of_char c :: nat) \<le> 57"

definition digit_val :: "char \<Rightarrow> nat" where
  "digit_val c = of_char c - 48"

fun nat_string :: "nat \<Rightarrow> string" where
  "nat_string n = (if n < 10 then [digit_char n] else nat_string (n div 10) @ [digit_char (n mod 10)])"

declare nat_string.simps [simp del]

definition Itoa :: "int \<Rightarrow> string" where
  "Itoa i = (if i < 0 then CHR ''-'' # nat_string (nat (- i)) else nat_string (nat i))"

definition fmt_uint64 :: "64 word \<Rightarrow> string" where
  "fmt_uint64 w = nat_string (unat w)"

datatype strconv_error = ErrSyntax | ErrRange

text \<open>The digit loop of \<^verbatim>\<open>strconv.ParseUint\<close> in base 10: a bad character is a syntax error,
  the first digit that takes the value past \<open>2\<^sup>6\<^sup>4 - 1\<close> a range error.\<close>

fun parse_uint_loop :: "string \<Rightarrow> nat \<Rightarrow> strconv_error + nat" where
  "parse_uint_loop [] n = Inr n"
| "parse_uint_loop (c # cs) n =
     (if \<not> is_digit c then Inl ErrSyntax
      else let n1 = n * 10 + digit_val c
           in if n1 > 2 ^ 64 - 1 then Inl ErrRange else parse_uint_loop cs n1)"

definition ParseUint :: "string \<Rightarrow> strconv_error + nat" where
  "ParseUint s = (if s = [] then Inl ErrSyntax else parse_uint_loop s 0)"

text \<open>\<^verbatim>\<open>strconv.Atoi\<close> on a 64-bit platform: the value and the error, as the two results.
  A range error comes with the closest representable value, a syntax error with 0.\<close>

definition Atoi :: "string \<Rightarrow> int \<times> strconv_error option" where
  "Atoi s0 =
     (let neg = (s0 \<noteq> [] \<and> hd s0 = CHR ''-'');
          s = (if s0 \<noteq> [] \<and> (hd s0 = CHR ''-'' \<or> hd s0 = CHR ''+'') then tl s0 else s0);
          cutoff = (2 ^ 63 :: int)
      in case ParseUint s of
           Inl ErrSyntax \<Rightarrow> (0, Some ErrSyntax)
         | Inl ErrRange \<Rightarrow> (if neg then - cutoff else cutoff - 1, Some ErrRange)
         | Inr un \<Rightarrow>
             if \<not> neg \<and> int un \<ge> cutoff then (cutoff - 1, Some ErrRange)
             else if neg \<and> int un > cutoff then (- cutoff, Some ErrRange)
             else (if neg then - int un else int un, None))"

lemma of_char_digit_char: "d < 10 \<Longrightarrow> (of_char (digit_char d) :: nat) = 48 + d"
  by (simp add: digit_char_def)

lemma digit_char_simps [simp]:
  "d < 10 \<Longrightarrow> is_digit (digit_char d)"
  "d < 10 \<Longrightarrow> digit_val (digit_char d) = d"
  by (simp_all add: is_digit_def digit_val_def of_char_digit_char)

lemma nat_string_not_Nil [simp]: "nat_string n \<noteq> []" "[] \<noteq> nat_string n"
  by (subst nat_string.simps, simp)+

lemma nat_string_digits: "c \<in> set (nat_string n) \<Longrightarrow> is_digit c"
proof (induction n rule: nat_string.induct)
  case (1 n)
  show ?case
  proof (cases "n < 10")
    case True
    with "1.prems" show ?thesis by (simp add: nat_string.simps [of n])
  next
    case False
    with "1.prems" "1.IH" show ?thesis by (auto simp: nat_string.simps [of n])
  qed
qed

lemma parse_uint_loop_append:
  "parse_uint_loop (xs @ ys) n =
     (case parse_uint_loop xs n of Inl e \<Rightarrow> Inl e | Inr m \<Rightarrow> parse_uint_loop ys m)"
  by (induction xs arbitrary: n) (auto simp: Let_def)

lemma parse_uint_loop_nat_string:
  "n \<le> 2 ^ 64 - 1 \<Longrightarrow> parse_uint_loop (nat_string n) 0 = Inr n"
proof (induction n rule: nat_string.induct)
  case (1 n)
  show ?case
  proof (cases "n < 10")
    case True
    then show ?thesis by (simp add: nat_string.simps [of n])
  next
    case False
    have "n div 10 \<le> 2 ^ 64 - 1" using "1.prems" by (simp add: div_le_dividend le_trans)
    with False "1.IH" have "parse_uint_loop (nat_string (n div 10)) 0 = Inr (n div 10)" by simp
    with False "1.prems" show ?thesis
      by (simp add: nat_string.simps [of n] parse_uint_loop_append)
  qed
qed

lemma nat_string_hd_digit: "is_digit (hd (nat_string n))"
  by (rule nat_string_digits [of _ n]) simp

lemma nat_string_no_sign: "hd (nat_string n) \<noteq> CHR ''-''" "hd (nat_string n) \<noteq> CHR ''+''"
  using nat_string_hd_digit [of n] by (auto simp: is_digit_def)

text \<open>\<open>Atoi\<close> inverts \<open>Itoa\<close> on the whole 64-bit range, so \<open>Itoa\<close> is injective there.\<close>

lemma Atoi_Itoa:
  assumes "- (2 ^ 63) \<le> i" "i < 2 ^ 63"
  shows "Atoi (Itoa i) = (i, None)"
proof (cases "i < 0")
  case True
  with assms have "nat (- i) \<le> 2 ^ 64 - 1" by simp
  with True assms show ?thesis
    by (simp add: Atoi_def Itoa_def ParseUint_def parse_uint_loop_nat_string)
next
  case False
  with assms have "nat i \<le> 2 ^ 64 - 1" by simp
  with False assms show ?thesis
    by (simp add: Atoi_def Itoa_def ParseUint_def parse_uint_loop_nat_string nat_string_no_sign)
qed

lemma Itoa_eq_iff:
  assumes "- (2 ^ 63) \<le> i" "i < 2 ^ 63" "- (2 ^ 63) \<le> j" "j < 2 ^ 63"
  shows "Itoa i = Itoa j \<longleftrightarrow> i = j"
  using assms Atoi_Itoa by (metis fst_conv)

lemma nat_string_inject: "nat_string m = nat_string n \<longleftrightarrow> m = n"
proof (induction m arbitrary: n rule: nat_string.induct)
  case (1 m)
  have last: "last (nat_string k) = digit_char (k mod 10)" for k
    by (subst nat_string.simps) simp
  have butl: "butlast (nat_string k) = (if k < 10 then [] else nat_string (k div 10))" for k
    by (subst nat_string.simps) simp
  show ?case
  proof
    assume eq: "nat_string m = nat_string n"
    from arg_cong [OF eq, of "digit_val \<circ> last"] have m: "m mod 10 = n mod 10" by (simp add: last)
    from arg_cong [OF eq, of butlast] have "m div 10 = n div 10"
      using "1.IH" by (auto simp: butl split: if_splits)
    with m show "m = n" by (metis div_mult_mod_eq)
  qed simp
qed

subsection \<open>sets.String\<close>

text \<open>\<^verbatim>\<open>List()\<close> returns the members in lexicographic order.\<close>

definition sets_List :: "string set \<Rightarrow> string list" where
  "sets_List S = sorted_list_of_set S"

lemma set_sets_List [simp]: "finite S \<Longrightarrow> set (sets_List S) = S"
  by (simp add: sets_List_def)

lemma distinct_sets_List [simp]: "distinct (sets_List S)"
  by (simp add: sets_List_def)

end
