(* ===== verification/Kube_Types.thy ===== *)
theory Kube_Types
  imports Go_Prelude
begin

text \<open>
  The Kubernetes API objects the controller reads and writes, as records.

  Every record has the fields some line under \<^verbatim>\<open>src/\<close> reads or writes; the remaining
  fields of the API type, which the controller only copies, are kept together in one opaque
  field \<open>..._rest\<close>, so that hashing and copying a whole object still sees them.
  A Go string type with named constants is a datatype with one constructor per constant and a
  last constructor for every other string (the zero value is the empty one). Slices are lists,
  pointers that may be nil are options, \<^verbatim>\<open>metav1.Time\<close> is an integer.

  The errors of the code are values of \<open>error\<close>: what \<^verbatim>\<open>apierrors\<close> classifies, or a
  message made by \<^verbatim>\<open>fmt.Errorf\<close>.
\<close>

subsection \<open>Errors\<close>

datatype error =
    NotFound
  | Conflict
  | AlreadyExists
  | OtherApiError string
  | Errorf string

type_synonym 'a result = "error + 'a"

definition IsNotFound :: "error \<Rightarrow> bool" where
  "IsNotFound e = (case e of NotFound \<Rightarrow> True | _ \<Rightarrow> False)"

definition IsConflict :: "error \<Rightarrow> bool" where
  "IsConflict e = (case e of Conflict \<Rightarrow> True | _ \<Rightarrow> False)"

definition IsAlreadyExists :: "error \<Rightarrow> bool" where
  "IsAlreadyExists e = (case e of AlreadyExists \<Rightarrow> True | _ \<Rightarrow> False)"

subsection \<open>Metadata\<close>

type_synonym labels = "string gomap"

record OwnerReference =
  or_APIVersion :: string
  or_Kind :: string
  or_Name :: string
  or_UID :: string
  or_Controller :: "bool option"

record ObjectMeta =
  om_Name :: string
  om_GenerateName :: string
  om_Namespace :: string
  om_UID :: string
  om_ResourceVersion :: string
  om_Generation :: "64 word"
  om_CreationTimestamp :: int
  om_DeletionTimestamp :: "int option"
  om_Labels :: labels
  om_Annotations :: labels
  om_OwnerReferences :: "OwnerReference list"
  om_Finalizers :: "string list"

text \<open>The zero value of the Go struct.\<close>

definition zeroObjectMeta :: ObjectMeta where
  "zeroObjectMeta = \<lparr>om_Name = '''', om_GenerateName = '''', om_Namespace = '''', om_UID = '''',
     om_ResourceVersion = '''', om_Generation = 0, om_CreationTimestamp = 0,
     om_DeletionTimestamp = None, om_Labels = None, om_Annotations = None,
     om_OwnerReferences = [], om_Finalizers = []\<rparr>"

record LabelSelector =
  ls_MatchLabels :: labels
  ls_MatchExpressions :: "string list"

text \<open>A value of the interface \<^verbatim>\<open>labels.Selector\<close>: its methods.\<close>

record selector =
  sel_Empty :: bool
  sel_Matches :: "labels \<Rightarrow> bool"
  sel_String :: string

subsection \<open>Pods\<close>

datatype PodPhase = PodPending | PodRunning | PodSucceeded | PodFailed | PodUnknown | PodPhaseOther string

datatype ConditionStatus = ConditionTrue | ConditionFalse | ConditionUnknown | ConditionOther string

datatype RestartPolicy =
    RestartPolicyAlways
  | RestartPolicyOnFailure
  | RestartPolicyNever
  | RestartPolicyOther string

record Container =
  c_Name :: string
  c_Image :: string
  c_rest :: string

record PVCVolumeSource =
  pvs_ClaimName :: string
  pvs_ReadOnly :: bool

record Volume =
  vol_Name :: string
  vol_PersistentVolumeClaim :: "PVCVolumeSource option"
  vol_rest :: string

record PodSpec =
  ps_NodeName :: string
  ps_Hostname :: string
  ps_Subdomain :: string
  ps_RestartPolicy :: RestartPolicy
  ps_InitContainers :: "Container list"
  ps_Containers :: "Container list"
  ps_Volumes :: "Volume list"
  ps_ReadinessGates :: "string list"
  ps_rest :: string

record PodCondition =
  pc_Type :: string
  pc_Status :: ConditionStatus
  pc_LastTransitionTime :: int
  pc_Reason :: string
  pc_Message :: string

record ContainerStatus =
  cs_Name :: string
  cs_Image :: string
  cs_ImageID :: string

record PodStatus =
  pst_Phase :: PodPhase
  pst_Reason :: string
  pst_Conditions :: "PodCondition list"
  pst_InitContainerStatuses :: "ContainerStatus list"
  pst_ContainerStatuses :: "ContainerStatus list"

definition zeroPodStatus :: PodStatus where
  "zeroPodStatus = \<lparr>pst_Phase = PodPhaseOther '''', pst_Reason = '''', pst_Conditions = [],
     pst_InitContainerStatuses = [], pst_ContainerStatuses = []\<rparr>"

record Pod =
  pod_Meta :: ObjectMeta
  pod_Spec :: PodSpec
  pod_Status :: PodStatus

record PodTemplateSpec =
  pt_Meta :: ObjectMeta
  pt_Spec :: PodSpec

abbreviation pod_Name :: "Pod \<Rightarrow> string" where "pod_Name p \<equiv> om_Name (pod_Meta p)"
abbreviation pod_Namespace :: "Pod \<Rightarrow> string" where "pod_Namespace p \<equiv> om_Namespace (pod_Meta p)"
abbreviation pod_Labels :: "Pod \<Rightarrow> labels" where "pod_Labels p \<equiv> om_Labels (pod_Meta p)"
abbreviation pod_Annotations :: "Pod \<Rightarrow> labels" where "pod_Annotations p \<equiv> om_Annotations (pod_Meta p)"
abbreviation pod_Phase :: "Pod \<Rightarrow> PodPhase" where "pod_Phase p \<equiv> pst_Phase (pod_Status p)"
abbreviation pod_Conditions :: "Pod \<Rightarrow> PodCondition list" where
  "pod_Conditions p \<equiv> pst_Conditions (pod_Status p)"
abbreviation pt_Labels :: "PodTemplateSpec \<Rightarrow> labels" where "pt_Labels t \<equiv> om_Labels (pt_Meta t)"

text \<open>\<^verbatim>\<open>corev1.PodReady\<close> and \<^verbatim>\<open>corev1.NodeReady\<close>.\<close>

definition PodReady :: string where "PodReady = ''Ready''"
definition NodeReady :: string where "NodeReady = ''Ready''"

subsection \<open>Nodes and claims\<close>

record NodeCondition =
  nc_Type :: string
  nc_Status :: ConditionStatus

record Node =
  node_Conditions :: "NodeCondition list"

record PersistentVolumeClaim =
  pvc_Meta :: ObjectMeta
  pvc_rest :: string

subsection \<open>IntOrString\<close>

datatype IntOrStringType = IosInt | IosString | IosOther int

record IntOrString =
  ios_Type :: IntOrStringType
  ios_IntVal :: "32 word"
  ios_StrVal :: string

text \<open>\<^verbatim>\<open>intstr.FromInt\<close> and \<^verbatim>\<open>intstr.FromString\<close>.\<close>

definition FromInt :: "int \<Rightarrow> IntOrString" where
  "FromInt i = \<lparr>ios_Type = IosInt, ios_IntVal = word_of_int i, ios_StrVal = ''''\<rparr>"

definition FromString :: "string \<Rightarrow> IntOrString" where
  "FromString s = \<lparr>ios_Type = IosString, ios_IntVal = 0, ios_StrVal = s\<rparr>"

lemmas kube_consts [model_defs] =
  zeroObjectMeta_def zeroPodStatus_def PodReady_def NodeReady_def FromInt_def FromString_def
  IsNotFound_def IsConflict_def IsAlreadyExists_def

end
