(* ===== verification/TApp_Types.thy ===== *)
theory TApp_Types
  imports Kube_Types
begin

text \<open>
  The TApp resource, \<^verbatim>\<open>pkg/apis/tappcontroller/v1/types.go\<close>: specification, status, update
  strategy and the string enumerations. Replica counts are 32-bit words read as signed numbers
  (\<open>sint\<close>), generations 64-bit words.
\<close>

subsection \<open>Constants\<close>

definition DefaultTemplateName :: string where
  "DefaultTemplateName = ''default''"

definition TAppInstanceKey :: string where
  "TAppInstanceKey = ''tapp_instance_key''"

definition InPlaceUpdateReady :: string where
  "InPlaceUpdateReady = ''tkestack.io/InPlaceUpdate''"

definition DefaultMaxUnavailable :: int where
  "DefaultMaxUnavailable = 1"

definition DefaultMaxUnavailableForceUpdate :: string where
  "DefaultMaxUnavailableForceUpdate = ''100%''"

subsection \<open>Enumerations\<close>

datatype InstanceStatus =
    InstanceNotCreated
  | InstancePending
  | InstanceRunning
  | InstanceUpdating
  | InstancePodFailed
  | InstancePodSucc
  | InstanceKilling
  | InstanceKilled
  | InstanceFailed
  | InstanceSucc
  | InstanceUnknown
  | InstanceStatusOther string

abbreviation zeroInstanceStatus :: InstanceStatus where
  "zeroInstanceStatus \<equiv> InstanceStatusOther ''''"

datatype AppStatus = AppPending | AppRunning | AppFailed | AppSucc | AppKilled | AppStatusOther string

subsection \<open>Specification and status\<close>

record ForceUpdateStrategy =
  fu_MaxUnavailable :: "IntOrString option"

record TAppUpdateStrategy =
  us_Template :: string
  us_MaxUnavailable :: "IntOrString option"
  us_ForceUpdate :: ForceUpdateStrategy

record TAppSpec =
  spec_Replicas :: "32 word"
  spec_Selector :: "LabelSelector option"
  spec_Template :: PodTemplateSpec
  spec_TemplatePool :: "PodTemplateSpec gomap"
  spec_Statuses :: "InstanceStatus gomap"
  spec_Templates :: "string gomap"
  spec_UpdateStrategy :: TAppUpdateStrategy
  spec_ForceDeletePod :: bool
  spec_AutoDeleteUnusedTemplate :: bool
  spec_NeverMigrate :: bool
  spec_VolumeClaimTemplates :: "PersistentVolumeClaim list"
  spec_ServiceName :: string
  spec_DefaultTemplateName :: string

record TAppStatus =
  st_ObservedGeneration :: "64 word"
  st_Replicas :: "32 word"
  st_ReadyReplicas :: "32 word"
  st_ScaleLabelSelector :: string
  st_AppStatus :: AppStatus
  st_Statuses :: "InstanceStatus gomap"

record TApp =
  tapp_Meta :: ObjectMeta
  tapp_Spec :: TAppSpec
  tapp_Status :: TAppStatus

abbreviation tapp_Name :: "TApp \<Rightarrow> string" where "tapp_Name t \<equiv> om_Name (tapp_Meta t)"
abbreviation tapp_Namespace :: "TApp \<Rightarrow> string" where "tapp_Namespace t \<equiv> om_Namespace (tapp_Meta t)"
abbreviation tapp_UID :: "TApp \<Rightarrow> string" where "tapp_UID t \<equiv> om_UID (tapp_Meta t)"

text \<open>\<^verbatim>\<open>int(tapp.Spec.Replicas)\<close>\<close>

abbreviation replicas :: "TApp \<Rightarrow> int" where
  "replicas t \<equiv> sint (spec_Replicas (tapp_Spec t))"

text \<open>The maps of a TApp have distinct keys: the well-formedness every Go map has by construction.\<close>

definition tapp_wf :: "TApp \<Rightarrow> bool" where
  "tapp_wf t \<longleftrightarrow>
     gm_wf (spec_TemplatePool (tapp_Spec t)) \<and> gm_wf (spec_Statuses (tapp_Spec t)) \<and>
     gm_wf (spec_Templates (tapp_Spec t)) \<and> gm_wf (st_Statuses (tapp_Status t))"

lemmas tapp_consts [model_defs] =
  DefaultTemplateName_def TAppInstanceKey_def InPlaceUpdateReady_def DefaultMaxUnavailable_def
  DefaultMaxUnavailableForceUpdate_def

lemma replicas_range: "- (2 ^ 31) \<le> replicas t" "replicas t < 2 ^ 31"
  using sint_ge [of "spec_Replicas (tapp_Spec t)"] sint_lt [of "spec_Replicas (tapp_Spec t)"] by simp_all

subsection \<open>Instance identifiers\<close>

text \<open>The identifiers \<open>0 \<dots> replicas - 1\<close> in decimal, as every loop over the replicas makes them:
  \<^verbatim>\<open>for i := 0; i < int(tapp.Spec.Replicas); i++ { id := strconv.Itoa(i) ... }\<close>\<close>

definition replica_ids :: "TApp \<Rightarrow> string list" where
  "replica_ids t = map (\<lambda>i. Itoa (int i)) [0..<nat (replicas t)]"

lemma Atoi_replica_id:
  assumes "iid \<in> set (replica_ids t)"
  obtains i where "0 \<le> i" "i < replicas t" "iid = Itoa i" "Atoi iid = (i, None)"
proof -
  from assms obtain n where n: "n < nat (replicas t)" "iid = Itoa (int n)"
    by (auto simp: replica_ids_def)
  moreover from n have "int n < 2 ^ 31" using replicas_range [of t] by linarith
  then have "Atoi (Itoa (int n)) = (int n, None)" by (intro Atoi_Itoa) simp_all
  ultimately show thesis using that [of "int n"] by auto
qed

lemma replica_ids_iff:
  "iid \<in> set (replica_ids t) \<longleftrightarrow> (\<exists>i. 0 \<le> i \<and> i < replicas t \<and> iid = Itoa i)"
proof
  assume "\<exists>i. 0 \<le> i \<and> i < replicas t \<and> iid = Itoa i"
  then obtain i where "0 \<le> i" "i < replicas t" "iid = Itoa i" by blast
  then show "iid \<in> set (replica_ids t)"
    by (auto simp: replica_ids_def intro!: rev_image_eqI [of "nat i"])
qed (auto elim: Atoi_replica_id)

lemma distinct_replica_ids [simp]: "distinct (replica_ids t)"
proof -
  have "inj_on (\<lambda>i. Itoa (int i)) {0..<nat (replicas t)}"
  proof (rule inj_onI)
    fix i j assume "i \<in> {0..<nat (replicas t)}" "j \<in> {0..<nat (replicas t)}"
      "Itoa (int i) = Itoa (int j)"
    moreover from this have "int i < 2 ^ 31" "int j < 2 ^ 31"
      using replicas_range [of t] by auto
    ultimately show "i = j" using Itoa_eq_iff [of "int i" "int j"] by simp
  qed
  then show ?thesis by (simp add: replica_ids_def distinct_map)
qed

lemma length_replica_ids [simp]: "length (replica_ids t) = nat (replicas t)"
  by (simp add: replica_ids_def)

end
