(* ===== verification/Tapp_Hash.thy ===== *)
theory Tapp_Hash
  imports TApp_Types
begin

text \<open>
  \<^verbatim>\<open>pkg/hash/hash.go\<close>: the two hashes the controller stores in template labels. The template
  hash covers metadata and specification (without the two hash labels themselves), the uniq hash
  covers the specification with every container image blanked.

  \<^verbatim>\<open>hashutil.DeepHashObject\<close> is third-party code: it prints an object into the hasher. Its
  printer is the parameter \<open>spew\<close> of every definition here; the hasher itself, FNV-1 at 64 bits
  from Go's \<^verbatim>\<open>hash/fnv\<close>, is modelled.

  The Go interface \<^verbatim>\<open>TappHashInterface\<close> is the locale \<open>tapp_hash_interface\<close>; its client, the
  closure \<^verbatim>\<open>updateHash\<close> of \<^verbatim>\<open>updateTemplateHash\<close>, is verified inside the locale, and the
  locale is interpreted on \<^verbatim>\<open>defaultTappHash\<close>.
\<close>

subsection \<open>Hashing\<close>

datatype hashable = HashTemplate PodTemplateSpec | HashPodSpec PodSpec

type_synonym spew = "hashable \<Rightarrow> string"

definition fnv64_offset :: "64 word" where
  "fnv64_offset = 14695981039346656037"

definition fnv64_prime :: "64 word" where
  "fnv64_prime = 1099511628211"

definition fnv64_write :: "64 word \<Rightarrow> char \<Rightarrow> 64 word" where
  "fnv64_write h c = xor (h * fnv64_prime) (of_nat (of_char c))"

definition fnv64 :: "string \<Rightarrow> 64 word" where
  "fnv64 s = foldl fnv64_write fnv64_offset s"

definition TemplateHashKey :: string where
  "TemplateHashKey = ''tapp_template_hash_key''"

definition UniqHashKey :: string where
  "UniqHashKey = ''tapp_uniq_hash_key''"

definition generateHash :: "spew \<Rightarrow> hashable \<Rightarrow> 64 word" where
  "generateHash spew x = fnv64 (spew x)"

definition generateTemplateHash :: "spew \<Rightarrow> PodTemplateSpec \<Rightarrow> string" where
  "generateTemplateHash spew template =
     (let meta = pt_Meta template;
          meta = meta\<lparr>om_Labels := gm_delete TemplateHashKey (om_Labels meta)\<rparr>;
          meta = meta\<lparr>om_Labels := gm_delete UniqHashKey (om_Labels meta)\<rparr>
      in fmt_uint64 (generateHash spew (HashTemplate \<lparr>pt_Meta = meta, pt_Spec = pt_Spec template\<rparr>)))"

definition blank_image :: "Container \<Rightarrow> Container" where
  "blank_image c = c\<lparr>c_Image := ''''\<rparr>"

definition generateUniqHash :: "spew \<Rightarrow> PodTemplateSpec \<Rightarrow> string" where
  "generateUniqHash spew template =
     (let spec = pt_Spec template;
          spec = (if ps_InitContainers spec \<noteq> []
                  then spec\<lparr>ps_InitContainers := map blank_image (ps_InitContainers spec)\<rparr> else spec);
          spec = spec\<lparr>ps_Containers := map blank_image (ps_Containers spec)\<rparr>
      in fmt_uint64 (generateHash spew (HashPodSpec spec)))"

subsection \<open>defaultTappHash\<close>

definition GetTemplateHash :: "labels \<Rightarrow> string" where
  "GetTemplateHash labels = gm_get '''' labels TemplateHashKey"

definition GetUniqHash :: "labels \<Rightarrow> string" where
  "GetUniqHash labels = gm_get '''' labels UniqHashKey"

definition HashLabels :: "string list" where
  "HashLabels = [TemplateHashKey, UniqHashKey]"

text \<open>\<^verbatim>\<open>template.Labels[k] = v\<close> after the nil check.\<close>

definition set_template_label :: "string \<Rightarrow> string \<Rightarrow> PodTemplateSpec \<Rightarrow> PodTemplateSpec" where
  "set_template_label k v template =
     template\<lparr>pt_Meta := (pt_Meta template)\<lparr>om_Labels := gm_make_assign k v (pt_Labels template)\<rparr>\<rparr>"

definition SetTemplateHash :: "spew \<Rightarrow> PodTemplateSpec \<Rightarrow> PodTemplateSpec \<times> bool" where
  "SetTemplateHash spew template =
     (let expected = generateTemplateHash spew template;
          hash = GetTemplateHash (pt_Labels template)
      in if hash \<noteq> expected then (set_template_label TemplateHashKey expected template, True)
         else (template, False))"

definition SetUniqHash :: "spew \<Rightarrow> PodTemplateSpec \<Rightarrow> PodTemplateSpec \<times> bool" where
  "SetUniqHash spew template =
     (let expected = generateUniqHash spew template;
          hash = GetUniqHash (pt_Labels template)
      in if hash \<noteq> expected then (set_template_label UniqHashKey expected template, True)
         else (template, False))"

text \<open>The closure \<^verbatim>\<open>updateHash\<close> of \<^verbatim>\<open>Controller.updateTemplateHash\<close>.\<close>

definition updateHash :: "spew \<Rightarrow> PodTemplateSpec \<Rightarrow> PodTemplateSpec" where
  "updateHash spew template =
     (let (t1, changed) = SetTemplateHash spew template
      in if changed then fst (SetUniqHash spew t1) else t1)"

lemmas hash_defs [model_defs] =
  TemplateHashKey_def UniqHashKey_def generateHash_def generateTemplateHash_def generateUniqHash_def
  blank_image_def GetTemplateHash_def GetUniqHash_def HashLabels_def set_template_label_def
  SetTemplateHash_def SetUniqHash_def updateHash_def

subsection \<open>The interface\<close>

text \<open>Labels that differ at most in the hash labels of the interface.\<close>

definition same_labels_except :: "string list \<Rightarrow> PodTemplateSpec \<Rightarrow> PodTemplateSpec \<Rightarrow> bool" where
  "same_labels_except ks t t' \<longleftrightarrow>
     pt_Spec t' = pt_Spec t \<and>
     (\<forall>k. k \<notin> set ks \<longrightarrow> gm_lookup (pt_Labels t') k = gm_lookup (pt_Labels t) k)"

locale tapp_hash_interface =
  fixes set_template :: "PodTemplateSpec \<Rightarrow> PodTemplateSpec \<times> bool"
    and get_template :: "labels \<Rightarrow> string"
    and set_uniq :: "PodTemplateSpec \<Rightarrow> PodTemplateSpec \<times> bool"
    and get_uniq :: "labels \<Rightarrow> string"
    and hash_labels :: "string list"
    and template_hash :: "PodTemplateSpec \<Rightarrow> string"
    and uniq_hash :: "PodTemplateSpec \<Rightarrow> string"
  assumes get_set_template: "get_template (pt_Labels (fst (set_template t))) = template_hash t"
    and set_template_changed: "snd (set_template t) \<longleftrightarrow> get_template (pt_Labels t) \<noteq> template_hash t"
    and set_template_unchanged: "\<not> snd (set_template t) \<Longrightarrow> fst (set_template t) = t"
    and set_template_frame: "same_labels_except hash_labels t (fst (set_template t))"
    and get_set_uniq: "get_uniq (pt_Labels (fst (set_uniq t))) = uniq_hash t"
    and set_uniq_frame: "same_labels_except hash_labels t (fst (set_uniq t))"
    and set_uniq_template: "get_template (pt_Labels (fst (set_uniq t))) = get_template (pt_Labels t)"
    and uniq_hash_spec: "pt_Spec t = pt_Spec t' \<Longrightarrow> uniq_hash t = uniq_hash t'"
begin

definition update :: "PodTemplateSpec \<Rightarrow> PodTemplateSpec" where
  "update t = (let (t1, changed) = set_template t in if changed then fst (set_uniq t1) else t1)"

lemma update_cases:
  "update t = (if snd (set_template t) then fst (set_uniq (fst (set_template t))) else t)"
  using set_template_unchanged [of t] by (cases "set_template t") (auto simp: update_def)

lemma update_template_hash: "get_template (pt_Labels (update t)) = template_hash t"
  using get_set_template [of t] set_template_changed [of t]
  by (auto simp: update_cases set_uniq_template)

lemma update_spec: "pt_Spec (update t) = pt_Spec t"
  using set_template_frame [of t] set_uniq_frame [of "fst (set_template t)"]
  by (auto simp: update_cases same_labels_except_def)

lemma update_frame: "same_labels_except hash_labels t (update t)"
  using set_template_frame [of t] set_uniq_frame [of "fst (set_template t)"]
  by (auto simp: update_cases same_labels_except_def)

text \<open>Whenever the template hash was not current, both hash labels are current afterwards.\<close>

lemma update_uniq_hash:
  "get_template (pt_Labels t) \<noteq> template_hash t \<Longrightarrow> get_uniq (pt_Labels (update t)) = uniq_hash t"
  using set_template_changed [of t] get_set_uniq [of "fst (set_template t)"] set_template_frame [of t]
    uniq_hash_spec [of t "fst (set_template t)"]
  by (simp add: update_cases same_labels_except_def)

end

subsection \<open>defaultTappHash provides the interface\<close>

lemma hash_keys_distinct: "TemplateHashKey \<noteq> UniqHashKey" "UniqHashKey \<noteq> TemplateHashKey"
  by (simp_all add: TemplateHashKey_def UniqHashKey_def)

lemma pt_Labels_set_template_label [simp]:
  "pt_Labels (set_template_label k v t) = gm_make_assign k v (pt_Labels t)"
  "pt_Spec (set_template_label k v t) = pt_Spec t"
  by (simp_all add: set_template_label_def)

lemma gm_get_make_assign [simp]:
  "gm_get z (gm_make_assign k v m) k' = (if k' = k then v else gm_get z m k')"
  by (simp add: gm_get_def)

interpretation default_hash: tapp_hash_interface
  "SetTemplateHash spew" GetTemplateHash "SetUniqHash spew" GetUniqHash HashLabels
  "generateTemplateHash spew" "generateUniqHash spew"
  rewrites "tapp_hash_interface.update (SetTemplateHash spew) (SetUniqHash spew) = updateHash spew"
  for spew
proof -
  show law: "tapp_hash_interface (SetTemplateHash spew) GetTemplateHash (SetUniqHash spew) GetUniqHash
     HashLabels (generateTemplateHash spew) (generateUniqHash spew)"
    by unfold_locales
      (auto simp: SetTemplateHash_def SetUniqHash_def GetTemplateHash_def GetUniqHash_def Let_def
        same_labels_except_def HashLabels_def hash_keys_distinct generateUniqHash_def)
  show "tapp_hash_interface.update (SetTemplateHash spew) (SetUniqHash spew) = updateHash spew"
    by (simp add: fun_eq_iff tapp_hash_interface.update_def [OF law] updateHash_def)
qed

subsection \<open>Properties of the hashes\<close>

text \<open>A live label map and its hash labels: setting a hash label and deleting both again gives the
  map with both deleted, so the template hash does not depend on the hash labels.\<close>

lemma generateTemplateHash_ignores_hash_labels:
  assumes "pt_Labels t \<noteq> None" and "k \<in> set HashLabels"
  shows "generateTemplateHash spew (set_template_label k v t) = generateTemplateHash spew t"
proof -
  obtain l where l: "pt_Labels t = Some l" using assms(1) by blast
  have "AList.delete UniqHashKey (AList.delete TemplateHashKey (AList.update k v l)) =
      AList.delete UniqHashKey (AList.delete TemplateHashKey l)"
    using assms(2) unfolding HashLabels_def
    by (metis delete_twist delete_update_same empty_iff list.set(1) set_ConsD)
  then show ?thesis
    by (simp add: generateTemplateHash_def set_template_label_def gm_make_assign_def l)
qed

text \<open>Which container is which: everything of a pod specification except the images.\<close>

definition differ_only_in_images :: "PodSpec \<Rightarrow> PodSpec \<Rightarrow> bool" where
  "differ_only_in_images s s' \<longleftrightarrow>
     list_all2 (\<lambda>c d. \<exists>img. d = c\<lparr>c_Image := img\<rparr>) (ps_InitContainers s) (ps_InitContainers s') \<and>
     list_all2 (\<lambda>c d. \<exists>img. d = c\<lparr>c_Image := img\<rparr>) (ps_Containers s) (ps_Containers s') \<and>
     s' = s\<lparr>ps_InitContainers := ps_InitContainers s', ps_Containers := ps_Containers s'\<rparr>"

lemma map_blank_image:
  assumes "list_all2 (\<lambda>c d. \<exists>img. d = c\<lparr>c_Image := img\<rparr>) cs ds"
  shows "map blank_image ds = map blank_image cs"
  using assms by (induction rule: list_all2_induct) (auto simp: blank_image_def)

lemma differ_only_in_images_blank:
  assumes "differ_only_in_images s s'"
  shows "s'\<lparr>ps_InitContainers := map blank_image (ps_InitContainers s'), ps_Containers := map blank_image (ps_Containers s')\<rparr> =
    s\<lparr>ps_InitContainers := map blank_image (ps_InitContainers s), ps_Containers := map blank_image (ps_Containers s)\<rparr>"
proof -
  have "map blank_image (ps_InitContainers s') = map blank_image (ps_InitContainers s)"
    "map blank_image (ps_Containers s') = map blank_image (ps_Containers s)"
    using assms by (auto simp: differ_only_in_images_def intro: map_blank_image)
  moreover obtain cs ds where "s' = s\<lparr>ps_InitContainers := cs, ps_Containers := ds\<rparr>"
    using assms by (auto simp: differ_only_in_images_def)
  ultimately show ?thesis by simp
qed

lemma generateUniqHash_alt:
  "generateUniqHash spew t =
     fmt_uint64 (generateHash spew (HashPodSpec ((pt_Spec t)
       \<lparr>ps_InitContainers := map blank_image (ps_InitContainers (pt_Spec t)),
        ps_Containers := map blank_image (ps_Containers (pt_Spec t))\<rparr>)))"
  by (cases "pt_Spec t") (simp add: generateUniqHash_def Let_def)

lemma fmt_uint64_not_empty [simp]: "fmt_uint64 w \<noteq> []"
  by (simp add: fmt_uint64_def)

lemma fmt_uint64_inject: "fmt_uint64 v = fmt_uint64 w \<longleftrightarrow> v = w"
  by (simp add: fmt_uint64_def nat_string_inject word_unat_eq_iff)

lemma generateTemplateHash_not_empty [simp]: "generateTemplateHash spew t \<noteq> []"
  by (simp add: generateTemplateHash_def Let_def)

lemma generateUniqHash_not_empty [simp]: "generateUniqHash spew t \<noteq> []"
  by (simp add: generateUniqHash_def Let_def)

lemma gm_wf_updateHash: "gm_wf (pt_Labels t) \<Longrightarrow> gm_wf (pt_Labels (updateHash spew t))"
  by (auto simp: updateHash_def SetTemplateHash_def SetUniqHash_def Let_def)

end
