(* ===== verification/TApp_Utils.thy ===== *)
theory TApp_Utils
  imports Tapp_Hash
begin

text \<open>
  \<^verbatim>\<open>pkg/tapp/tapp_utils.go\<close> and \<^verbatim>\<open>pkg/util/utils.go\<close>: template lookup, predicates on pods
  and statuses, pods built from templates, and the order that breaks ties between overlapping
  TApps. The order is the locale \<open>sort_interface\<close>, Go's \<^verbatim>\<open>sort.Interface\<close>, interpreted on
  \<^verbatim>\<open>overlappingTApps\<close>.
\<close>

subsection \<open>tapp\_utils.go\<close>

definition overlappingTApps_Len :: "TApp list \<Rightarrow> int" where
  "overlappingTApps_Len ts = int (length ts)"

text \<open>An index out of range panics: no result.\<close>

definition overlappingTApps_Swap :: "TApp list \<Rightarrow> nat \<Rightarrow> nat \<Rightarrow> TApp list option" where
  "overlappingTApps_Swap ts i j =
     (if i < length ts \<and> j < length ts then Some (ts[i := ts ! j, j := ts ! i]) else None)"

definition overlappingTApps_Less :: "TApp \<Rightarrow> TApp \<Rightarrow> bool" where
  "overlappingTApps_Less ti tj =
     (if om_CreationTimestamp (tapp_Meta ti) = om_CreationTimestamp (tapp_Meta tj)
      then tapp_Name ti < tapp_Name tj
      else om_CreationTimestamp (tapp_Meta ti) < om_CreationTimestamp (tapp_Meta tj))"

definition getPodTemplateName :: "string gomap \<Rightarrow> string \<Rightarrow> string \<Rightarrow> string" where
  "getPodTemplateName templates podId defaultTemplateName =
     (case gm_lookup templates podId of None \<Rightarrow> defaultTemplateName | Some name \<Rightarrow> name)"

definition getPodTemplate :: "TAppSpec \<Rightarrow> string \<Rightarrow> PodTemplateSpec result" where
  "getPodTemplate spec iid =
     (let templateName = getPodTemplateName (spec_Templates spec) iid (spec_DefaultTemplateName spec)
      in if templateName = DefaultTemplateName then Inr (spec_Template spec)
         else case gm_lookup (spec_TemplatePool spec) templateName of
                Some template \<Rightarrow> Inr template
              | None \<Rightarrow> Inl (Errorf ''template not found in templatePool''))"

definition getPodIndex :: "Pod \<Rightarrow> string result" where
  "getPodIndex pod =
     (case gm_lookup (pod_Labels pod) TAppInstanceKey of
        Some key \<Rightarrow> Inr key
      | None \<Rightarrow> Inl (Errorf (''pod: '' @ pod_Name pod @ '' without '' @ TAppInstanceKey)))"

text \<open>A nil pod is not dying; the other predicates are only called on live pods.\<close>

definition isPodDying :: "Pod option \<Rightarrow> bool" where
  "isPodDying pod = (case pod of None \<Rightarrow> False | Some p \<Rightarrow> om_DeletionTimestamp (pod_Meta p) \<noteq> None)"

definition isPodInActive :: "Pod \<Rightarrow> bool" where
  "isPodInActive pod \<longleftrightarrow> isPodDying (Some pod) \<or> pod_Phase pod \<noteq> PodRunning"

definition isPodCompleted :: "Pod \<Rightarrow> bool" where
  "isPodCompleted pod \<longleftrightarrow> pod_Phase pod = PodFailed \<or> pod_Phase pod = PodSucceeded"

definition getPodFullName :: "Pod \<Rightarrow> string" where
  "getPodFullName pod = pod_Namespace pod @ ''/'' @ pod_Name pod"

definition isPodFailed :: "Pod \<Rightarrow> bool" where
  "isPodFailed pod \<longleftrightarrow> pod_Phase pod = PodFailed"

definition isTAppFinished :: "TApp \<Rightarrow> bool" where
  "isTAppFinished tapp =
     (let appStatus = st_AppStatus (tapp_Status tapp)
      in appStatus = AppFailed \<or> appStatus = AppSucc \<or> appStatus = AppKilled)"

definition isInstanceAlive :: "InstanceStatus \<Rightarrow> bool" where
  "isInstanceAlive status =
     (case status of
        InstanceNotCreated \<Rightarrow> True
      | InstancePending \<Rightarrow> True
      | InstanceRunning \<Rightarrow> True
      | InstanceKilling \<Rightarrow> True
      | InstanceUnknown \<Rightarrow> True
      | InstancePodFailed \<Rightarrow> True
      | InstancePodSucc \<Rightarrow> True
      | _ \<Rightarrow> False)"

definition getRollingTemplateKey :: "TApp \<Rightarrow> string" where
  "getRollingTemplateKey tapp =
     (let t = us_Template (spec_UpdateStrategy (tapp_Spec tapp))
      in if length t \<noteq> 0 then t else spec_DefaultTemplateName (tapp_Spec tapp))"

text \<open>The condition with the given type and its index; \<open>-1\<close> and nil when there is none. A nil
  status pointer is \<open>None\<close>.\<close>

fun find_condition :: "PodCondition list \<Rightarrow> string \<Rightarrow> int \<Rightarrow> int \<times> PodCondition option" where
  "find_condition [] t i = (-1, None)"
| "find_condition (c # cs) t i = (if pc_Type c = t then (i, Some c) else find_condition cs t (i + 1))"

definition GetPodCondition :: "PodStatus option \<Rightarrow> string \<Rightarrow> int \<times> PodCondition option" where
  "GetPodCondition status conditionType =
     (case status of None \<Rightarrow> (-1, None) | Some s \<Rightarrow> find_condition (pst_Conditions s) conditionType 0)"

subsection \<open>pkg/util\<close>

definition GetTAppFullName :: "TApp \<Rightarrow> string" where
  "GetTAppFullName tapp = tapp_Namespace tapp @ ''/'' @ tapp_Name tapp"

text \<open>A map made by copying another one entry by entry.\<close>

definition gm_clone :: "'v gomap \<Rightarrow> 'v gomap" where
  "gm_clone m = Some (fold (\<lambda>(k, v). AList.update k v) (gm_entries m) [])"

definition GenerateTAppSelector :: "labels \<Rightarrow> LabelSelector" where
  "GenerateTAppSelector labels =
     (let tappLabels = gm_clone labels;
          tappLabels = gm_delete TemplateHashKey tappLabels;
          tappLabels = gm_delete UniqHashKey tappLabels
      in \<lparr>ls_MatchLabels = tappLabels, ls_MatchExpressions = []\<rparr>)"

definition getPodsLabelSet :: "PodTemplateSpec \<Rightarrow> labels" where
  "getPodsLabelSet template = gm_clone (pt_Labels template)"

definition getPodsFinalizers :: "PodTemplateSpec \<Rightarrow> string list" where
  "getPodsFinalizers template = om_Finalizers (pt_Meta template)"

definition getPodsAnnotationSet :: "PodTemplateSpec \<Rightarrow> labels" where
  "getPodsAnnotationSet template = gm_clone (om_Annotations (pt_Meta template))"

definition getPodsPrefix :: "string \<Rightarrow> string" where
  "getPodsPrefix controllerName = controllerName @ ''-''"

text \<open>The parent is always a TApp, whose metadata accessor never fails.\<close>

definition GetPodFromTemplate :: "PodTemplateSpec \<Rightarrow> TApp \<Rightarrow> OwnerReference option \<Rightarrow> Pod" where
  "GetPodFromTemplate template parentObject controllerRef =
     (let prefix = getPodsPrefix (tapp_Name parentObject);
          meta = zeroObjectMeta
            \<lparr>om_Labels := getPodsLabelSet template,
             om_Annotations := getPodsAnnotationSet template,
             om_GenerateName := prefix,
             om_Finalizers := getPodsFinalizers template\<rparr>;
          meta = (case controllerRef of
                    None \<Rightarrow> meta
                  | Some ref \<Rightarrow> meta\<lparr>om_OwnerReferences := om_OwnerReferences meta @ [ref]\<rparr>)
      in \<lparr>pod_Meta = meta, pod_Spec = pt_Spec template, pod_Status = zeroPodStatus\<rparr>)"

lemmas util_defs [model_defs] =
  overlappingTApps_Less_def getPodTemplateName_def getPodTemplate_def getPodIndex_def isPodDying_def
  isPodInActive_def isPodCompleted_def getPodFullName_def isPodFailed_def isTAppFinished_def
  isInstanceAlive_def getRollingTemplateKey_def GetPodCondition_def GetTAppFullName_def gm_clone_def
  GenerateTAppSelector_def getPodsLabelSet_def getPodsFinalizers_def getPodsAnnotationSet_def
  getPodsPrefix_def GetPodFromTemplate_def

subsection \<open>Copying maps\<close>

lemma map_of_fold_update:
  "map_of (fold (\<lambda>(k, v). AList.update k v) es l) = map_of l ++ map_of (rev es)"
proof (induction es arbitrary: l)
  case (Cons e es)
  obtain k v where e: "e = (k, v)" by (cases e)
  have "map_of (fold (\<lambda>(k, v). AList.update k v) (e # es) l) = (map_of l)(k \<mapsto> v) ++ map_of (rev es)"
    using Cons [of "AList.update k v l"] by (simp only: e fold.simps comp_apply prod.case update_conv')
  then show ?case by (simp add: e)
qed simp

lemma distinct_fold_update:
  "distinct (map fst l) \<Longrightarrow> distinct (map fst (fold (\<lambda>(k, v). AList.update k v) es l))"
  by (induction es arbitrary: l) (auto simp: distinct_update)

lemma gm_clone_not_nil [simp]: "gm_clone m \<noteq> None"
  by (simp add: gm_clone_def)

lemma gm_wf_clone [simp]: "gm_wf (gm_clone m)"
  by (simp add: gm_wf_def gm_clone_def distinct_fold_update)

lemma gm_lookup_clone [simp]: "gm_wf m \<Longrightarrow> gm_lookup (gm_clone m) = gm_lookup m"
  by (simp add: gm_clone_def gm_lookup_fun map_of_fold_update gm_wf_def map_of_rev_distinct)

subsection \<open>Tie breaking\<close>

text \<open>\<^verbatim>\<open>sort.Sort\<close> may return any arrangement sorted by \<^verbatim>\<open>Less\<close>; what the caller uses is its
  first element. The contract of \<^verbatim>\<open>Less\<close> is a strict weak order; with it the first element of
  every sorted arrangement is not preceded by any other.\<close>

locale sort_interface =
  fixes less :: "'a \<Rightarrow> 'a \<Rightarrow> bool"
  assumes irrefl: "\<not> less x x"
    and trans: "less x y \<Longrightarrow> less y z \<Longrightarrow> less x z"
    and incomparable_trans:
      "\<not> less x y \<Longrightarrow> \<not> less y x \<Longrightarrow> \<not> less y z \<Longrightarrow> \<not> less z y \<Longrightarrow> \<not> less x z"
begin

fun insert_sorted :: "'a \<Rightarrow> 'a list \<Rightarrow> 'a list" where
  "insert_sorted x [] = [x]"
| "insert_sorted x (y # ys) = (if less y x then y # insert_sorted x ys else x # y # ys)"

definition sorted_by :: "'a list \<Rightarrow> bool" where
  "sorted_by xs \<longleftrightarrow> sorted_wrt (\<lambda>x y. \<not> less y x) xs"

lemma not_less_trans: "\<not> less y x \<Longrightarrow> \<not> less z y \<Longrightarrow> \<not> less z x"
  using trans incomparable_trans by blast

lemma set_insert_sorted: "set (insert_sorted x xs) = insert x (set xs)"
  by (induction xs) auto

lemma distinct_insert_sorted: "distinct (x # xs) \<Longrightarrow> distinct (insert_sorted x xs)"
  by (induction xs) (auto simp: set_insert_sorted)

lemma sorted_insert_sorted: "sorted_by xs \<Longrightarrow> sorted_by (insert_sorted x xs)"
  unfolding sorted_by_def
  by (induction xs) (auto simp: set_insert_sorted dest: trans irrefl [THEN notE] not_less_trans)

lemma hd_sorted_minimal: "sorted_by xs \<Longrightarrow> y \<in> set xs \<Longrightarrow> \<not> less y (hd xs)"
  by (cases xs) (auto simp: sorted_by_def irrefl)

lemma hd_sorted_unique:
  assumes "sorted_by xs" "set xs = S" "sorted_by ys" "set ys = S" "S \<noteq> {}"
    and "\<And>x y. x \<in> S \<Longrightarrow> y \<in> S \<Longrightarrow> x \<noteq> y \<Longrightarrow> less x y \<or> less y x"
  shows "hd xs = hd ys"
proof (rule ccontr)
  assume "hd xs \<noteq> hd ys"
  moreover have "hd xs \<in> S" "hd ys \<in> S"
    using assms(2,4,5) hd_in_set [of xs] hd_in_set [of ys] by force+
  ultimately have "less (hd xs) (hd ys) \<or> less (hd ys) (hd xs)" using assms(6) by blast
  moreover have "\<not> less (hd ys) (hd xs)" "\<not> less (hd xs) (hd ys)"
    using hd_sorted_minimal assms(1-4) \<open>hd xs \<in> S\<close> \<open>hd ys \<in> S\<close> by auto
  ultimately show False by blast
qed

end

interpretation overlapping: sort_interface overlappingTApps_Less
  by unfold_locales (auto simp: overlappingTApps_Less_def split: if_splits)

text \<open>Swapping keeps the TApps, so a sort that only compares and swaps returns a permutation.\<close>

lemma overlappingTApps_Swap_set:
  "overlappingTApps_Swap ts i j = Some ts' \<Longrightarrow> set ts' = set ts \<and> overlappingTApps_Len ts' = overlappingTApps_Len ts"
  by (auto simp: overlappingTApps_Swap_def overlappingTApps_Len_def set_swap split: if_splits)

text \<open>\<^verbatim>\<open>sort.Sort(overlappingTApps(tapps))\<close>, as an insertion sort.\<close>

fun overlappingTApps_insert :: "TApp \<Rightarrow> TApp list \<Rightarrow> TApp list" where
  "overlappingTApps_insert x [] = [x]"
| "overlappingTApps_insert x (y # ys) =
     (if overlappingTApps_Less y x then y # overlappingTApps_insert x ys else x # y # ys)"

definition overlappingTApps_sort :: "TApp list \<Rightarrow> TApp list" where
  "overlappingTApps_sort ts = foldr overlappingTApps_insert ts []"

lemma overlappingTApps_insert_eq: "overlappingTApps_insert = overlapping.insert_sorted"
proof (intro ext)
  show "overlappingTApps_insert x ys = overlapping.insert_sorted x ys" for x ys
    by (induction ys) auto
qed

lemma overlappingTApps_sort_props:
  "set (overlappingTApps_sort ts) = set ts" "overlapping.sorted_by (overlappingTApps_sort ts)"
  by (induction ts)
    (auto simp: overlappingTApps_sort_def overlappingTApps_insert_eq overlapping.set_insert_sorted
      overlapping.sorted_insert_sorted overlapping.sorted_by_def [of "[]"])

subsection \<open>Conditions\<close>

lemma find_condition_snd:
  "snd (find_condition cs t i) = List.find (\<lambda>c. pc_Type c = t) cs"
  by (induction cs arbitrary: i) auto

lemma snd_GetPodCondition [simp]:
  "snd (GetPodCondition (Some s) t) = List.find (\<lambda>c. pc_Type c = t) (pst_Conditions s)"
  by (simp add: GetPodCondition_def find_condition_snd)

text \<open>The index points at the condition returned.\<close>

lemma find_condition_index:
  "find_condition cs t i = (j, Some c) \<Longrightarrow> i \<le> j \<and> nat (j - i) < length cs \<and> cs ! nat (j - i) = c"
proof (induction cs arbitrary: i)
  case (Cons d cs)
  show ?case
  proof (cases "pc_Type d = t")
    case False
    with Cons.prems have "find_condition cs t (i + 1) = (j, Some c)" by simp
    from Cons.IH [OF this] have "i + 1 \<le> j" "nat (j - (i + 1)) < length cs" "cs ! nat (j - (i + 1)) = c"
      by auto
    moreover from \<open>i + 1 \<le> j\<close> have "nat (j - i) = Suc (nat (j - (i + 1)))" by simp
    ultimately show ?thesis by simp
  qed (use Cons.prems in simp)
qed simp

end
