(* ===== verification/Identity_Mappers.thy ===== *)
theory Identity_Mappers
  imports TApp_Utils
begin

text \<open>
  \<^verbatim>\<open>pkg/tapp/identity_mappers.go\<close>: how an instance identifier becomes a pod's identity. The
  Go interface \<^verbatim>\<open>identityMapper\<close> is a record of its methods; what its clients rely on is the
  locale \<open>identity_mapper_interface\<close>, interpreted on \<^verbatim>\<open>NameIdentityMapper\<close>.
\<close>

record identityMapper =
  im_SetIdentity :: "string \<Rightarrow> Pod \<Rightarrow> Pod go"
  im_Identity :: "Pod \<Rightarrow> string"

text \<open>The label write panics on a nil label map.\<close>

definition NameIdentityMapper_SetIdentity :: "TApp \<Rightarrow> string \<Rightarrow> Pod \<Rightarrow> Pod go" where
  "NameIdentityMapper_SetIdentity tapp iid pod =
     (let meta = (pod_Meta pod)\<lparr>om_Name := tapp_Name tapp @ ''-'' @ iid, om_Namespace := tapp_Namespace tapp\<rparr>
      in go_bind (gm_assign TAppInstanceKey iid (om_Labels meta)) (\<lambda>labels.
           let pod1 = pod\<lparr>pod_Meta := meta\<lparr>om_Labels := labels\<rparr>\<rparr>
           in Inr (if spec_ServiceName (tapp_Spec tapp) \<noteq> ''''
                   then pod1\<lparr>pod_Spec := (pod_Spec pod1)
                          \<lparr>ps_Hostname := pod_Name pod1,
                           ps_Subdomain := spec_ServiceName (tapp_Spec tapp)\<rparr>\<rparr>
                   else pod1)))"

definition NameIdentityMapper_String :: "Pod \<Rightarrow> string" where
  "NameIdentityMapper_String instance_pod = pod_Namespace instance_pod @ ''/'' @ pod_Name instance_pod"

definition NameIdentityMapper_Identity :: "Pod \<Rightarrow> string" where
  "NameIdentityMapper_Identity instance_pod = NameIdentityMapper_String instance_pod"

definition newIdentityMappers :: "TApp \<Rightarrow> identityMapper list" where
  "newIdentityMappers tapp =
     [\<lparr>im_SetIdentity = NameIdentityMapper_SetIdentity tapp, im_Identity = NameIdentityMapper_Identity\<rparr>]"

text \<open>\<^verbatim>\<open>identityHash\<close>; \<open>md5\<close> is the hexadecimal MD5 sum of a string.\<close>

definition identityHash :: "(string \<Rightarrow> string) \<Rightarrow> TApp \<Rightarrow> Pod \<Rightarrow> string" where
  "identityHash md5 tapp pod =
     md5 (fold (\<lambda>idMapper identity. identity @ im_Identity idMapper pod) (newIdentityMappers tapp) '''')"

lemmas identity_defs [model_defs] =
  NameIdentityMapper_SetIdentity_def NameIdentityMapper_String_def NameIdentityMapper_Identity_def
  newIdentityMappers_def

subsection \<open>The contract of an identity mapper\<close>

locale identity_mapper_interface =
  fixes set_identity :: "string \<Rightarrow> Pod \<Rightarrow> Pod go"
    and identity :: "Pod \<Rightarrow> string"
  assumes set_identity_live: "pod_Labels pod \<noteq> None \<Longrightarrow> go_ok (set_identity i pod)"
    and set_identity_index: "set_identity i pod = Inr pod' \<Longrightarrow> getPodIndex pod' = Inr i"
    and identity_unique:
      "set_identity i p = Inr p' \<Longrightarrow> set_identity j q = Inr q' \<Longrightarrow> identity p' = identity q' \<Longrightarrow> i = j"
begin

text \<open>Instances with different identifiers get different identities.\<close>

lemma identities_distinct:
  assumes "distinct ids"
    and "list_all2 (\<lambda>i p'. \<exists>p. set_identity i p = Inr p') ids pods"
  shows "distinct (map identity pods)"
  using assms(2,1)
proof (induction rule: list_all2_induct)
  case (Cons i ids p' pods)
  have "identity q' \<noteq> identity p'" if q': "q' \<in> set pods" for q'
  proof
    assume eq: "identity q' = identity p'"
    from q' obtain n where n: "n < length pods" "pods ! n = q'" by (auto simp: in_set_conv_nth)
    with Cons.hyps(2) obtain q where "set_identity (ids ! n) q = Inr q'" and len: "n < length ids"
      by (auto simp: list_all2_conv_all_nth)
    moreover from Cons.hyps(1) obtain p where "set_identity i p = Inr p'" by blast
    ultimately have "ids ! n = i" using eq by (metis identity_unique)
    with len Cons.prems show False by auto
  qed
  then have "identity p' \<notin> identity ` set pods" by (metis imageE)
  then show ?case using Cons.IH Cons.prems by simp
qed simp

end

lemma SetIdentity_ok_iff:
  "go_ok (NameIdentityMapper_SetIdentity tapp iid pod) \<longleftrightarrow> pod_Labels pod \<noteq> None"
  by (cases "pod_Labels pod") (simp_all add: NameIdentityMapper_SetIdentity_def Let_def)

lemma SetIdentity_Inr_meta:
  assumes "NameIdentityMapper_SetIdentity tapp iid pod = Inr pod'"
  obtains l where "pod_Labels pod = Some l"
    and "pod_Meta pod' = (pod_Meta pod)\<lparr>om_Name := tapp_Name tapp @ ''-'' @ iid,
          om_Namespace := tapp_Namespace tapp, om_Labels := Some (AList.update TAppInstanceKey iid l)\<rparr>"
    and "pod_Spec pod' = (if spec_ServiceName (tapp_Spec tapp) \<noteq> ''''
          then (pod_Spec pod)\<lparr>ps_Hostname := tapp_Name tapp @ ''-'' @ iid,
            ps_Subdomain := spec_ServiceName (tapp_Spec tapp)\<rparr> else pod_Spec pod)"
    and "pod_Status pod' = pod_Status pod"
proof (cases "pod_Labels pod")
  case None
  with assms show ?thesis by (simp add: NameIdentityMapper_SetIdentity_def)
next
  case (Some l)
  with assms show ?thesis
    by (cases "spec_ServiceName (tapp_Spec tapp) = ''''")
      (auto simp: NameIdentityMapper_SetIdentity_def intro!: that)
qed

lemma SetIdentity_Inr:
  assumes "NameIdentityMapper_SetIdentity tapp iid pod = Inr pod'"
  shows "pod_Name pod' = tapp_Name tapp @ ''-'' @ iid"
    and "pod_Namespace pod' = tapp_Namespace tapp"
    and "gm_lookup (pod_Labels pod') k = (if k = TAppInstanceKey then Some iid else gm_lookup (pod_Labels pod) k)"
  by (rule SetIdentity_Inr_meta [OF assms], simp add: update_conv')+

interpretation name_identity: identity_mapper_interface
  "NameIdentityMapper_SetIdentity tapp" NameIdentityMapper_Identity
  for tapp
proof unfold_locales
  show "go_ok (NameIdentityMapper_SetIdentity tapp i pod)" if "pod_Labels pod \<noteq> None" for pod i
    using that by (simp add: SetIdentity_ok_iff)
  show "getPodIndex pod' = Inr i" if "NameIdentityMapper_SetIdentity tapp i pod = Inr pod'" for i pod pod'
    using SetIdentity_Inr(3) [OF that] by (simp add: getPodIndex_def)
  show "i = j"
    if "NameIdentityMapper_SetIdentity tapp i p = Inr p'" "NameIdentityMapper_SetIdentity tapp j q = Inr q'"
      "NameIdentityMapper_Identity p' = NameIdentityMapper_Identity q'" for i j p p' q q'
    using SetIdentity_Inr(1,2) [OF that(1)] SetIdentity_Inr(1,2) [OF that(2)] that(3)
    by (simp add: NameIdentityMapper_Identity_def NameIdentityMapper_String_def)
qed

end
