(* ===== verification/TApp_Instance.thy ===== *)
theory TApp_Instance
  imports Identity_Mappers
begin

text \<open>
  The control block of one instance and how it is built, from \<^verbatim>\<open>pkg/tapp/instance.go\<close>:
  pods from templates, persistent volume claims and the volumes that mount them, the in-place
  update annotation and readiness gate, and the merge of a wanted pod into a live one.

  A pointer dereference or map write that can panic is a \<open>go\<close> value. The claims map is built in
  the order of the claim templates, and the loop over it visits it in that order.
\<close>

definition updateRetries :: nat where
  "updateRetries = 3"

definition InPlaceUpdateStateKey :: string where
  "InPlaceUpdateStateKey = ''tkestack.io/inplace-update-state''"

definition InPlaceUpdateStateValue :: string where
  "InPlaceUpdateStateValue = ''true''"

definition specialAnnotationKey :: string where
  "specialAnnotationKey = ''tkestack.io/portmapping''"

text \<open>Every constructor of an instance sets the parent; only \<open>getName\<close> allows for its absence.\<close>

record Instance =
  ins_pod :: Pod
  ins_id :: string
  ins_parent :: TApp

definition Instance_getName :: "TApp option \<Rightarrow> string \<Rightarrow> string" where
  "Instance_getName parent iid =
     (case parent of Some t \<Rightarrow> GetTAppFullName t @ ''-'' @ iid | None \<Rightarrow> ''unknown'' @ ''-'' @ iid)"

definition newInstanceWithPod :: "TApp \<Rightarrow> Pod \<Rightarrow> Instance result" where
  "newInstanceWithPod tapp pod =
     (case getPodIndex pod of
        Inr iid \<Rightarrow> Inr \<lparr>ins_pod = pod, ins_id = iid, ins_parent = tapp\<rparr>
      | Inl err \<Rightarrow> Inl err)"

text \<open>\<^verbatim>\<open>getTAppKind()\<close>: group, version and kind; \<^verbatim>\<open>GroupVersion().String()\<close> joins the first two.\<close>

definition getTAppKind :: "string \<times> string \<times> string" where
  "getTAppKind = (''apps.tkestack.io'', ''v1'', ''TApp'')"

definition getControllerRef :: "TApp \<Rightarrow> OwnerReference" where
  "getControllerRef tapp =
     (let (grp, version, kind) = getTAppKind
      in \<lparr>or_APIVersion = grp @ ''/'' @ version, or_Kind = kind, or_Name = tapp_Name tapp,
          or_UID = tapp_UID tapp, or_Controller = Some True\<rparr>)"

definition getPersistentVolumeClaimName :: "TApp \<Rightarrow> PersistentVolumeClaim \<Rightarrow> string \<Rightarrow> string" where
  "getPersistentVolumeClaimName tapp claim iid = om_Name (pvc_Meta claim) @ ''-'' @ tapp_Name tapp @ ''-'' @ iid"

definition add_claim :: "Instance \<Rightarrow> PersistentVolumeClaim \<Rightarrow> PersistentVolumeClaim amap \<Rightarrow>
    PersistentVolumeClaim amap go" where
  "add_claim ins template claims =
     (let meta = (pvc_Meta template)
            \<lparr>om_Name := getPersistentVolumeClaimName (ins_parent ins) template (ins_id ins),
             om_Namespace := tapp_Namespace (ins_parent ins)\<rparr>;
          labels0 = (if om_Labels meta = None then Some [] else om_Labels meta)
      in case spec_Selector (tapp_Spec (ins_parent ins)) of
           None \<Rightarrow> Inl NilDereference
         | Some sel \<Rightarrow>
             go_bind (gm_copy_into (ls_MatchLabels sel) labels0) (\<lambda>labels.
               let claim = template\<lparr>pvc_Meta := meta
                     \<lparr>om_Labels := labels,
                      om_OwnerReferences := om_OwnerReferences meta @ [getControllerRef (ins_parent ins)]\<rparr>\<rparr>
               in Inr (AList.update (om_Name (pvc_Meta template)) claim claims)))"

definition getPersistentVolumeClaims :: "Instance \<Rightarrow> PersistentVolumeClaim amap go" where
  "getPersistentVolumeClaims ins =
     go_fold (add_claim ins) (spec_VolumeClaimTemplates (tapp_Spec (ins_parent ins))) []"

definition claim_volume :: "string \<times> PersistentVolumeClaim \<Rightarrow> Volume" where
  "claim_volume nc = \<lparr>vol_Name = fst nc,
     vol_PersistentVolumeClaim =
       Some \<lparr>pvs_ClaimName = om_Name (pvc_Meta (snd nc)), pvs_ReadOnly = False\<rparr>,
     vol_rest = ''''\<rparr>"

definition updateStorage :: "Instance \<Rightarrow> Instance go" where
  "updateStorage ins =
     (let currentVolumes = ps_Volumes (pod_Spec (ins_pod ins))
      in go_bind (getPersistentVolumeClaims ins) (\<lambda>claims.
           let newVolumes = map claim_volume claims @
                 filter (\<lambda>v. map_of claims (vol_Name v) = None) currentVolumes
           in Inr (ins\<lparr>ins_pod := (ins_pod ins)
                \<lparr>pod_Spec := (pod_Spec (ins_pod ins))\<lparr>ps_Volumes := newVolumes\<rparr>\<rparr>\<rparr>)))"

definition newInstance :: "TApp \<Rightarrow> string \<Rightarrow> Instance result go" where
  "newInstance tapp iid =
     (case getPodTemplate (tapp_Spec tapp) iid of
        Inl err \<Rightarrow> Inr (Inl err)
      | Inr template \<Rightarrow>
          let pod = GetPodFromTemplate template tapp (Some (getControllerRef tapp))
          in go_bind (go_fold (\<lambda>im. im_SetIdentity im iid) (newIdentityMappers tapp) pod) (\<lambda>pod1.
               let ins = \<lparr>ins_pod = pod1, ins_id = iid, ins_parent = tapp\<rparr>
               in go_bind (updateStorage ins) (\<lambda>ins1. Inr (Inr ins1))))"

definition setInPlaceUpdateAnnotation :: "Instance \<Rightarrow> Instance" where
  "setInPlaceUpdateAnnotation ins =
     ins\<lparr>ins_pod := (ins_pod ins)\<lparr>pod_Meta := (pod_Meta (ins_pod ins))
       \<lparr>om_Annotations := gm_make_assign InPlaceUpdateStateKey InPlaceUpdateStateValue
          (pod_Annotations (ins_pod ins))\<rparr>\<rparr>\<rparr>"

definition addInPlaceUpdateReadinessGate :: "Instance \<Rightarrow> Instance" where
  "addInPlaceUpdateReadinessGate ins =
     (let gates = ps_ReadinessGates (pod_Spec (ins_pod ins))
      in if list_ex (\<lambda>r. r = InPlaceUpdateReady) gates then ins
         else ins\<lparr>ins_pod := (ins_pod ins)\<lparr>pod_Spec := (pod_Spec (ins_pod ins))
                \<lparr>ps_ReadinessGates := gates @ [InPlaceUpdateReady]\<rparr>\<rparr>\<rparr>)"

subsection \<open>Merging a wanted pod into a live one\<close>

fun merge_containers :: "Container list \<Rightarrow> Container list \<Rightarrow> Container list" where
  "merge_containers [] es = []"
| "merge_containers (c # cs) [] = c # merge_containers cs []"
| "merge_containers (c # cs) (e # es) = c\<lparr>c_Image := c_Image e\<rparr> # merge_containers cs es"

text \<open>Both pods are modified: the special annotation of the live pod is first copied into the
  wanted one. The results are the live and the wanted pod afterwards.\<close>

definition mergePod :: "Pod \<Rightarrow> Pod \<Rightarrow> (Pod \<times> Pod) go" where
  "mergePod current excepted =
     (let newContainers = merge_containers (ps_Containers (pod_Spec current)) (ps_Containers (pod_Spec excepted));
          current1 = current\<lparr>pod_Spec := (pod_Spec current)\<lparr>ps_Containers := newContainers\<rparr>\<rparr>
      in go_bind (gm_copy_into (pod_Labels excepted) (pod_Labels current1)) (\<lambda>labels.
         let current2 = current1\<lparr>pod_Meta := (pod_Meta current1)\<lparr>om_Labels := labels\<rparr>\<rparr>
         in go_bind
              (case pod_Annotations current2 of
                 None \<Rightarrow> Inr (pod_Annotations excepted)
               | Some _ \<Rightarrow>
                   (case gm_lookup (pod_Annotations current2) specialAnnotationKey of
                      None \<Rightarrow> Inr (pod_Annotations excepted)
                    | Some v \<Rightarrow> gm_assign specialAnnotationKey v (pod_Annotations excepted)))
              (\<lambda>eannotations.
                 let excepted1 = excepted\<lparr>pod_Meta := (pod_Meta excepted)\<lparr>om_Annotations := eannotations\<rparr>\<rparr>;
                     cannotations = (if pod_Annotations current2 = None then Some [] else pod_Annotations current2)
                 in go_bind (gm_copy_into eannotations cannotations) (\<lambda>annotations.
                      Inr (current2\<lparr>pod_Meta := (pod_Meta current2)\<lparr>om_Annotations := annotations\<rparr>\<rparr>,
                           excepted1)))))"

text \<open>Two helpers of \<^verbatim>\<open>tapp_utils.go\<close> on lists of instances.\<close>

fun some_update_follows :: "TApp \<Rightarrow> string \<Rightarrow> Instance list \<Rightarrow> bool" where
  "some_update_follows tapp template [] = False"
| "some_update_follows tapp template (update # updates) =
     (if getPodTemplateName (spec_Templates (tapp_Spec tapp)) (ins_id update) (spec_DefaultTemplateName (tapp_Spec tapp)) = template
      then True else some_update_follows tapp template updates)"

definition shouldRollUpdate :: "TApp \<Rightarrow> Instance list \<Rightarrow> bool" where
  "shouldRollUpdate tapp updates =
     (let template = getRollingTemplateKey tapp
      in if length template = 0 then False else some_update_follows tapp template updates)"

definition extractInstanceId :: "Instance list \<Rightarrow> string list" where
  "extractInstanceId instances = fold (\<lambda>ins a. a @ [ins_id ins]) instances []"

lemmas instance_defs [model_defs] =
  InPlaceUpdateStateKey_def InPlaceUpdateStateValue_def specialAnnotationKey_def newInstanceWithPod_def
  getTAppKind_def getControllerRef_def getPersistentVolumeClaimName_def add_claim_def
  getPersistentVolumeClaims_def claim_volume_def updateStorage_def newInstance_def
  setInPlaceUpdateAnnotation_def addInPlaceUpdateReadinessGate_def mergePod_def updateRetries_def

subsection \<open>Claims and volumes\<close>

lemma getPersistentVolumeClaimName_inject:
  assumes "CHR ''-'' \<notin> set i" "CHR ''-'' \<notin> set j"
    and "getPersistentVolumeClaimName tapp c i = getPersistentVolumeClaimName tapp d j"
  shows "om_Name (pvc_Meta c) = om_Name (pvc_Meta d) \<and> i = j"
proof -
  let ?f = "\<lambda>c. om_Name (pvc_Meta c) @ ''-'' @ tapp_Name tapp"
  have eq: "?f c @ ''-'' @ i = ?f d @ ''-'' @ j"
    using assms(3) by (simp add: getPersistentVolumeClaimName_def)
  have tail: "takeWhile (\<lambda>x. x \<noteq> CHR ''-'') (ys @ CHR ''-'' # zs) = ys" if "CHR ''-'' \<notin> set ys" for ys zs
    using that by (induction ys) auto
  from arg_cong [OF eq, of "\<lambda>s. takeWhile (\<lambda>x. x \<noteq> CHR ''-'') (rev s)"]
  have "i = j" using assms(1,2) by (simp add: tail)
  with eq show ?thesis by simp
qed

lemma replica_id_no_dash: "i \<in> set (replica_ids t) \<Longrightarrow> CHR ''-'' \<notin> set i"
  by (auto simp: replica_ids_def Itoa_def is_digit_def dest!: nat_string_digits)

text \<open>A claim template adds its claim under its own name; it only panics without a selector.\<close>

lemma add_claim_ok:
  assumes "spec_Selector (tapp_Spec (ins_parent ins)) = Some sel"
  obtains claim where "add_claim ins template claims = Inr (AList.update (om_Name (pvc_Meta template)) claim claims)"
    and "om_Name (pvc_Meta claim) = getPersistentVolumeClaimName (ins_parent ins) template (ins_id ins)"
    and "om_Namespace (pvc_Meta claim) = tapp_Namespace (ins_parent ins)"
    and "getControllerRef (ins_parent ins) \<in> set (om_OwnerReferences (pvc_Meta claim))"
proof -
  let ?l = "if om_Labels (pvc_Meta template) = None then [] else the (om_Labels (pvc_Meta template))"
  obtain l' where "gm_copy_into (ls_MatchLabels sel) (Some ?l) = Inr (Some l')"
    using gm_copy_into_live [of "ls_MatchLabels sel" ?l] by blast
  then show thesis
    using assms that
    by (cases "om_Labels (pvc_Meta template)") (auto simp: add_claim_def Let_def)
qed

definition claims_ok :: "Instance \<Rightarrow> PersistentVolumeClaim list \<Rightarrow> PersistentVolumeClaim amap \<Rightarrow> bool" where
  "claims_ok ins templates claims \<longleftrightarrow>
     distinct (map fst claims) \<and> fst ` set claims = (\<lambda>t. om_Name (pvc_Meta t)) ` set templates \<and>
     (\<forall>(n, c) \<in> set claims.
        om_Name (pvc_Meta c) = n @ ''-'' @ tapp_Name (ins_parent ins) @ ''-'' @ ins_id ins \<and>
        om_Namespace (pvc_Meta c) = tapp_Namespace (ins_parent ins) \<and>
        getControllerRef (ins_parent ins) \<in> set (om_OwnerReferences (pvc_Meta c)))"

lemma set_update_distinct:
  "distinct (map fst l) \<Longrightarrow> set (AList.update k v l) = insert (k, v) {e \<in> set l. fst e \<noteq> k}"
proof (induction l)
  case (Cons e l)
  then show ?case by (cases e) (auto simp: image_iff)
qed simp

lemma claims_ok_snoc:
  assumes "claims_ok ins ts claims" "spec_Selector (tapp_Spec (ins_parent ins)) = Some sel"
  shows "\<exists>claims'. add_claim ins t claims = Inr claims' \<and> claims_ok ins (ts @ [t]) claims'"
proof -
  obtain claim where c: "add_claim ins t claims = Inr (AList.update (om_Name (pvc_Meta t)) claim claims)"
    "om_Name (pvc_Meta claim) = getPersistentVolumeClaimName (ins_parent ins) t (ins_id ins)"
    "om_Namespace (pvc_Meta claim) = tapp_Namespace (ins_parent ins)"
    "getControllerRef (ins_parent ins) \<in> set (om_OwnerReferences (pvc_Meta claim))"
    by (rule add_claim_ok [OF assms(2)])
  moreover have "claims_ok ins (ts @ [t]) (AList.update (om_Name (pvc_Meta t)) claim claims)"
    unfolding claims_ok_def
  proof (intro conjI)
    have d: "distinct (map fst claims)" using assms(1) by (simp add: claims_ok_def)
    show "distinct (map fst (AList.update (om_Name (pvc_Meta t)) claim claims))"
      using d by (rule distinct_update)
    show "fst ` set (AList.update (om_Name (pvc_Meta t)) claim claims) =
        (\<lambda>t. om_Name (pvc_Meta t)) ` set (ts @ [t])"
      using assms(1) by (simp add: claims_ok_def update_conv' flip: dom_map_of_conv_image_fst)
    show "\<forall>(n, c) \<in> set (AList.update (om_Name (pvc_Meta t)) claim claims).
        om_Name (pvc_Meta c) = n @ ''-'' @ tapp_Name (ins_parent ins) @ ''-'' @ ins_id ins \<and>
        om_Namespace (pvc_Meta c) = tapp_Namespace (ins_parent ins) \<and>
        getControllerRef (ins_parent ins) \<in> set (om_OwnerReferences (pvc_Meta c))"
      using assms(1) c(2-4) d
      by (auto simp: claims_ok_def set_update_distinct getPersistentVolumeClaimName_def)
  qed
  ultimately show ?thesis by blast
qed

lemma getPersistentVolumeClaims_ok:
  assumes "spec_VolumeClaimTemplates (tapp_Spec (ins_parent ins)) = [] \<or>
     spec_Selector (tapp_Spec (ins_parent ins)) \<noteq> None"
  obtains claims where "getPersistentVolumeClaims ins = Inr claims"
    and "claims_ok ins (spec_VolumeClaimTemplates (tapp_Spec (ins_parent ins))) claims"
proof -
  let ?ts = "spec_VolumeClaimTemplates (tapp_Spec (ins_parent ins))"
  have "\<exists>claims. go_fold (add_claim ins) ts [] = Inr claims \<and> claims_ok ins ts claims"
    if "ts = [] \<or> spec_Selector (tapp_Spec (ins_parent ins)) \<noteq> None" for ts
    using that
  proof (induction ts rule: rev_induct)
    case (snoc t ts)
    then obtain claims where "go_fold (add_claim ins) ts [] = Inr claims" "claims_ok ins ts claims"
      by auto
    with snoc.prems claims_ok_snoc [of ins ts claims] show ?case
      by (auto simp: go_fold_append go_bind_Inr_iff)
  qed (simp add: claims_ok_def)
  from this [OF assms] show thesis using that by (auto simp: getPersistentVolumeClaims_def)
qed

subsection \<open>New instances\<close>

text \<open>What a pod made for an instance looks like.\<close>

definition pod_of_template :: "TApp \<Rightarrow> PodTemplateSpec \<Rightarrow> string \<Rightarrow> Pod \<Rightarrow> bool" where
  "pod_of_template tapp template iid pod \<longleftrightarrow>
     pod_Name pod = tapp_Name tapp @ ''-'' @ iid \<and> pod_Namespace pod = tapp_Namespace tapp \<and>
     getPodIndex pod = Inr iid \<and>
     om_OwnerReferences (pod_Meta pod) = [getControllerRef tapp] \<and>
     om_DeletionTimestamp (pod_Meta pod) = None \<and>
     pod_Labels pod \<noteq> None \<and>
     (\<forall>k. k \<noteq> TAppInstanceKey \<longrightarrow> gm_lookup (pod_Labels pod) k = gm_lookup (gm_clone (pt_Labels template)) k) \<and>
     pod_Annotations pod = gm_clone (om_Annotations (pt_Meta template)) \<and>
     ps_Containers (pod_Spec pod) = ps_Containers (pt_Spec template) \<and>
     ps_InitContainers (pod_Spec pod) = ps_InitContainers (pt_Spec template) \<and>
     pod_Status pod = zeroPodStatus"

definition storage_ready :: "TApp \<Rightarrow> bool" where
  "storage_ready tapp \<longleftrightarrow> spec_VolumeClaimTemplates (tapp_Spec tapp) = [] \<or> spec_Selector (tapp_Spec tapp) \<noteq> None"

lemma GetPodFromTemplate_simps [simp]:
  "pod_Labels (GetPodFromTemplate template tapp (Some ref)) = gm_clone (pt_Labels template)"
  "pod_Annotations (GetPodFromTemplate template tapp (Some ref)) = gm_clone (om_Annotations (pt_Meta template))"
  "om_OwnerReferences (pod_Meta (GetPodFromTemplate template tapp (Some ref))) = [ref]"
  "om_DeletionTimestamp (pod_Meta (GetPodFromTemplate template tapp (Some ref))) = None"
  "pod_Spec (GetPodFromTemplate template tapp (Some ref)) = pt_Spec template"
  "pod_Status (GetPodFromTemplate template tapp (Some ref)) = zeroPodStatus"
  by (simp_all add: GetPodFromTemplate_def Let_def getPodsLabelSet_def getPodsAnnotationSet_def zeroObjectMeta_def)

lemma updateStorage_ok:
  assumes "storage_ready (ins_parent ins)"
  obtains claims where
    "updateStorage ins = Inr (ins\<lparr>ins_pod := (ins_pod ins)\<lparr>pod_Spec := (pod_Spec (ins_pod ins))
       \<lparr>ps_Volumes := map claim_volume claims @
          filter (\<lambda>v. map_of claims (vol_Name v) = None) (ps_Volumes (pod_Spec (ins_pod ins)))\<rparr>\<rparr>\<rparr>)"
    and "claims_ok ins (spec_VolumeClaimTemplates (tapp_Spec (ins_parent ins))) claims"
proof -
  obtain claims where "getPersistentVolumeClaims ins = Inr claims"
    "claims_ok ins (spec_VolumeClaimTemplates (tapp_Spec (ins_parent ins))) claims"
    by (rule getPersistentVolumeClaims_ok) (use assms in \<open>simp add: storage_ready_def\<close>)
  then show thesis using that by (simp add: updateStorage_def)
qed

lemma newInstance_missing_template:
  "getPodTemplate (tapp_Spec tapp) iid = Inl err \<Longrightarrow> newInstance tapp iid = Inr (Inl err)"
  by (simp add: newInstance_def)

lemma newInstance_ok:
  assumes "getPodTemplate (tapp_Spec tapp) iid = Inr template" and "storage_ready tapp"
  obtains ins claims where "newInstance tapp iid = Inr (Inr ins)"
    and "ins_id ins = iid" and "ins_parent ins = tapp"
    and "pod_of_template tapp template iid (ins_pod ins)"
    and "claims_ok ins (spec_VolumeClaimTemplates (tapp_Spec tapp)) claims"
    and "ps_Volumes (pod_Spec (ins_pod ins)) = map claim_volume claims @
          filter (\<lambda>v. map_of claims (vol_Name v) = None) (ps_Volumes (pt_Spec template))"
proof -
  let ?pod0 = "GetPodFromTemplate template tapp (Some (getControllerRef tapp))"
  obtain pod1 where pod1: "NameIdentityMapper_SetIdentity tapp iid ?pod0 = Inr pod1"
    using name_identity.set_identity_live [of ?pod0 tapp iid] by (auto simp: go_ok_iff)
  let ?ins = "\<lparr>ins_pod = pod1, ins_id = iid, ins_parent = tapp\<rparr>"
  obtain claims where claims: "updateStorage ?ins = Inr (?ins\<lparr>ins_pod := (ins_pod ?ins)
      \<lparr>pod_Spec := (pod_Spec (ins_pod ?ins))\<lparr>ps_Volumes := map claim_volume claims @
        filter (\<lambda>v. map_of claims (vol_Name v) = None) (ps_Volumes (pod_Spec (ins_pod ?ins)))\<rparr>\<rparr>\<rparr>)"
    "claims_ok ?ins (spec_VolumeClaimTemplates (tapp_Spec tapp)) claims"
    using updateStorage_ok [of ?ins] assms(2) by auto
  obtain l where l: "gm_clone (pt_Labels template) = Some l"
    and meta: "pod_Meta pod1 = (pod_Meta ?pod0)\<lparr>om_Name := tapp_Name tapp @ ''-'' @ iid,
          om_Namespace := tapp_Namespace tapp, om_Labels := Some (AList.update TAppInstanceKey iid l)\<rparr>"
    and spec: "pod_Spec pod1 = (if spec_ServiceName (tapp_Spec tapp) \<noteq> ''''
          then (pt_Spec template)\<lparr>ps_Hostname := tapp_Name tapp @ ''-'' @ iid,
            ps_Subdomain := spec_ServiceName (tapp_Spec tapp)\<rparr> else pt_Spec template)"
    and status: "pod_Status pod1 = zeroPodStatus"
    by (rule SetIdentity_Inr_meta [OF pod1, unfolded GetPodFromTemplate_simps])
  let ?ins1 = "?ins\<lparr>ins_pod := pod1\<lparr>pod_Spec := (pod_Spec pod1)\<lparr>ps_Volumes := map claim_volume claims @
        filter (\<lambda>v. map_of claims (vol_Name v) = None) (ps_Volumes (pod_Spec pod1))\<rparr>\<rparr>\<rparr>"
  show thesis
  proof (rule that)
    show "newInstance tapp iid = Inr (Inr ?ins1)"
      using claims(1) by (simp add: newInstance_def assms(1) newIdentityMappers_def pod1)
    show "pod_of_template tapp template iid (ins_pod ?ins1)"
      by (simp add: pod_of_template_def meta spec status getPodIndex_def update_conv' l)
    show "claims_ok ?ins1 (spec_VolumeClaimTemplates (tapp_Spec tapp)) claims"
      using claims(2) by (simp add: claims_ok_def)
    show "ps_Volumes (pod_Spec (ins_pod ?ins1)) = map claim_volume claims @
          filter (\<lambda>v. map_of claims (vol_Name v) = None) (ps_Volumes (pt_Spec template))"
      by (simp add: spec)
  qed simp_all
qed

text \<open>Building an instance panics only for a TApp with claim templates and no selector.\<close>

lemma newInstance_no_panic: "storage_ready tapp \<Longrightarrow> go_ok (newInstance tapp iid)"
  by (cases "getPodTemplate (tapp_Spec tapp) iid")
    (auto simp: newInstance_missing_template elim: newInstance_ok)

lemma newInstance_Inr_cases:
  assumes "newInstance tapp iid = Inr r" "storage_ready tapp"
  obtains (missing) err where "getPodTemplate (tapp_Spec tapp) iid = Inl err" "r = Inl err"
  | (made) template ins where "getPodTemplate (tapp_Spec tapp) iid = Inr template" "r = Inr ins"
      "ins_id ins = iid" "ins_parent ins = tapp" "pod_of_template tapp template iid (ins_pod ins)"
proof (cases "getPodTemplate (tapp_Spec tapp) iid")
  case (Inl err)
  then show thesis using missing assms(1) by (simp add: newInstance_missing_template)
next
  case (Inr template)
  then show thesis using newInstance_ok [OF Inr assms(2)] made assms(1) by (metis Inr_inject)
qed

lemma newInstance_id:
  assumes "newInstance tapp iid = Inr (Inr ins)"
  shows "ins_id ins = iid"
  using assms
  by (auto simp: newInstance_def updateStorage_def Let_def go_bind_Inr_iff split: sum.splits)

lemma newInstanceWithPod_simps:
  "newInstanceWithPod tapp pod = Inr ins \<longleftrightarrow>
     getPodIndex pod = Inr (ins_id ins) \<and> ins_pod ins = pod \<and> ins_parent ins = tapp"
  by (cases ins) (auto simp: newInstanceWithPod_def split: sum.splits)

subsection \<open>In-place updates\<close>

lemma length_merge_containers [simp]: "length (merge_containers cs es) = length cs"
  by (induction cs es rule: merge_containers.induct) auto

lemma merge_containers_Nil [simp]: "merge_containers cs [] = cs"
  by (induction cs) auto

lemma nth_merge_containers:
  "i < length cs \<Longrightarrow> merge_containers cs es ! i =
     (if i < length es then (cs ! i)\<lparr>c_Image := c_Image (es ! i)\<rparr> else cs ! i)"
proof (induction cs es arbitrary: i rule: merge_containers.induct)
  case (3 c cs e es)
  then show ?case by (cases i) auto
qed auto

text \<open>The result of a successful merge: images and labels of the wanted pod, everything else kept.\<close>

lemma mergePod_Inr:
  assumes "mergePod current excepted = Inr (cur', exc')"
    and "gm_wf (pod_Labels excepted)"
  shows "pod_Spec cur' = (pod_Spec current)
        \<lparr>ps_Containers := merge_containers (ps_Containers (pod_Spec current)) (ps_Containers (pod_Spec excepted))\<rparr>"
    and "pod_Status cur' = pod_Status current"
    and "gm_lookup (pod_Labels cur') = gm_lookup (pod_Labels current) ++ gm_lookup (pod_Labels excepted)"
    and "pod_Name cur' = pod_Name current" "pod_Namespace cur' = pod_Namespace current"
    and "om_DeletionTimestamp (pod_Meta cur') = om_DeletionTimestamp (pod_Meta current)"
proof -
  obtain labels where "gm_copy_into (pod_Labels excepted) (pod_Labels current) = Inr labels"
    "pod_Labels cur' = labels"
    using assms(1) by (auto simp: mergePod_def go_bind_Inr_iff Let_def)
  then show "gm_lookup (pod_Labels cur') = gm_lookup (pod_Labels current) ++ gm_lookup (pod_Labels excepted)"
    using gm_copy_into_lookup assms(2) by blast
qed (use assms(1) in \<open>auto simp: mergePod_def go_bind_Inr_iff Let_def\<close>)

lemma mergePod_ok:
  assumes "pod_Labels current \<noteq> None" "pod_Annotations excepted \<noteq> None"
  shows "go_ok (mergePod current excepted)"
proof -
  obtain cl where cl: "pod_Labels current = Some cl" using assms(1) by blast
  obtain ea where ea: "pod_Annotations excepted = Some ea" using assms(2) by blast
  obtain l' where "gm_copy_into (pod_Labels excepted) (Some cl) = Inr (Some l')"
    using gm_copy_into_live by blast
  moreover have "\<exists>a'. gm_copy_into m (Some l) = Inr (Some a')" for m :: labels and l
    using gm_copy_into_live by blast
  then have "go_ok (gm_copy_into m (Some l))" for m :: labels and l
    by (metis go_ok_simps(2))
  ultimately show ?thesis
    by (auto simp: mergePod_def cl ea go_ok_iff go_bind_Inr_iff Let_def split: option.splits)
qed

end
