(* ===== verification/Pod_Actions.thy ===== *)
theory Pod_Actions
  imports TApp_Instance
begin

text \<open>
  The decision part of \<^verbatim>\<open>pkg/tapp/controller.go\<close>: which instances a TApp wants running or
  completed, and which action each pod needs next. All of it is a function of the TApp and of the
  pods listed for it. The process-wide switch \<^verbatim>\<open>deletePodAfterAppFinish\<close> is an argument.

  A loop that writes at most one entry of a fresh map per iteration is \<open>put_actions\<close> of its body.
\<close>

datatype PodAction = createPod | updatePod | recreatePod | deletePod

subsection \<open>Template hashes\<close>

text \<open>The loop variable over the pool is a copy of the template that shares its label map: label
  writes reach the pool, but a label map made for a template without one is lost with the copy.\<close>

definition updateTemplateHash :: "spew \<Rightarrow> TApp \<Rightarrow> TApp" where
  "updateTemplateHash spew tapp =
     (let spec = tapp_Spec tapp;
          template = updateHash spew (spec_Template spec);
          pool = map_option (map (\<lambda>(k, t). (k, if pt_Labels t = None then t else updateHash spew t)))
                   (spec_TemplatePool spec)
      in tapp\<lparr>tapp_Spec := spec\<lparr>spec_Template := template, spec_TemplatePool := pool\<rparr>\<rparr>)"

definition isTemplateHashChanged :: "TApp \<Rightarrow> string \<Rightarrow> Pod \<Rightarrow> bool" where
  "isTemplateHashChanged tapp podId pod =
     (let hash = GetTemplateHash (pod_Labels pod)
      in case getPodTemplate (tapp_Spec tapp) podId of
           Inl err \<Rightarrow> True
         | Inr template \<Rightarrow> hash \<noteq> GetTemplateHash (pt_Labels template))"

definition isUniqHashChanged :: "TApp \<Rightarrow> string \<Rightarrow> Pod \<Rightarrow> bool" where
  "isUniqHashChanged tapp podId pod =
     (let hash = GetUniqHash (pod_Labels pod)
      in case getPodTemplate (tapp_Spec tapp) podId of
           Inl err \<Rightarrow> True
         | Inr template \<Rightarrow> hash \<noteq> GetUniqHash (pt_Labels template))"

subsection \<open>Desired instances\<close>

definition isInstanceFinished :: "InstanceStatus \<Rightarrow> bool" where
  "isInstanceFinished status \<longleftrightarrow>
     status = InstanceKilled \<or> status = InstanceFailed \<or> status = InstanceSucc"

definition getDesiredInstance :: "bool \<Rightarrow> TApp \<Rightarrow> string set \<times> string set" where
  "getDesiredInstance deletePodAfterAppFinish tapp =
     (let completed0 = fold (\<lambda>(iid, status) c. if status = InstanceKilled then insert iid c else c)
            (gm_entries (spec_Statuses (tapp_Spec tapp))) {};
          completed =
            (if \<not> deletePodAfterAppFinish \<or> isTAppFinished tapp
             then fold (\<lambda>(iid, status) c.
                    if status = InstanceFailed \<or> status = InstanceSucc then insert iid c else c)
                    (gm_entries (st_Statuses (tapp_Status tapp))) completed0
             else completed0);
          total = fold insert (replica_ids tapp) {};
          running = total - completed
      in (running, completed))"

text \<open>The error comes with the verdict to migrate.\<close>

definition shouldPodMigrate :: "TApp \<Rightarrow> Pod \<Rightarrow> string \<Rightarrow> bool \<times> error option" where
  "shouldPodMigrate tapp pod iid =
     (case getPodTemplate (tapp_Spec tapp) iid of
        Inl err \<Rightarrow> (True, Some (Errorf (''failed to get pod template from tapp '' @ GetTAppFullName tapp @
                     '' with id '' @ iid @ '': '' @ (case err of Errorf msg \<Rightarrow> msg | _ \<Rightarrow> ''''))))
      | Inr podTemplate \<Rightarrow>
          if spec_NeverMigrate (tapp_Spec tapp) then (False, None)
          else if length (ps_NodeName (pod_Spec pod)) \<noteq> 0 \<and>
                  length (pst_InitContainerStatuses (pod_Status pod)) = 0 \<and>
                  length (pst_ContainerStatuses (pod_Status pod)) = 0 then (True, None)
          else case ps_RestartPolicy (pt_Spec podTemplate) of
                 RestartPolicyAlways \<Rightarrow> (True, None)
               | RestartPolicyOnFailure \<Rightarrow> (isPodFailed pod, None)
               | RestartPolicyNever \<Rightarrow> (False, None)
               | RestartPolicyOther _ \<Rightarrow> (True, None))"

definition makePodMap :: "Pod list \<Rightarrow> Pod amap" where
  "makePodMap pods =
     fold (\<lambda>pod podMap. case getPodIndex pod of Inl _ \<Rightarrow> podMap | Inr index \<Rightarrow> AList.update index pod podMap)
       pods []"

subsection \<open>Availability\<close>

definition isSameImage :: "string \<Rightarrow> string \<Rightarrow> bool" where
  "isSameImage expected real \<longleftrightarrow>
     expected = real \<or> ''docker.io/'' @ expected = real \<or>
     ''docker.io/'' @ expected @ '':latest'' = real \<or> expected @ '':latest'' = real"

definition isUpdating :: "Pod \<Rightarrow> bool" where
  "isUpdating pod =
     (if gm_lookup (pod_Annotations pod) InPlaceUpdateStateKey \<noteq> Some InPlaceUpdateStateValue then False
      else let expectedContainerImage =
                 fold (\<lambda>c m. AList.update (c_Name c) (c_Image c) m) (ps_Containers (pod_Spec pod)) []
           in list_ex (\<lambda>status.
                case map_of expectedContainerImage (cs_Name status) of
                  None \<Rightarrow> False
                | Some expectedImage \<Rightarrow>
                    \<not> isSameImage expectedImage (cs_Image status) \<or> length (cs_ImageID status) = 0)
                (pst_ContainerStatuses (pod_Status pod)))"

definition isPodAvailable :: "Pod \<Rightarrow> bool" where
  "isPodAvailable pod \<longleftrightarrow>
     \<not> (isPodInActive pod \<or> isUpdating pod) \<and>
     (case snd (GetPodCondition (Some (pod_Status pod)) PodReady) of
        None \<Rightarrow> False
      | Some condition \<Rightarrow> pc_Status condition = ConditionTrue)"

definition getAvailablePods :: "Pod amap \<Rightarrow> string set \<Rightarrow> string set" where
  "getAvailablePods podMap desiredRunningPods =
     fold (\<lambda>iid availablePods.
         case map_of podMap iid of
           None \<Rightarrow> availablePods
         | Some pod \<Rightarrow> if isPodAvailable pod then insert iid availablePods else availablePods)
       (sets_List desiredRunningPods) {}"

subsection \<open>Next actions\<close>

definition put_actions :: "(string \<Rightarrow> PodAction option) \<Rightarrow> string list \<Rightarrow> PodAction amap" where
  "put_actions body ids =
     fold (\<lambda>iid m. case body iid of None \<Rightarrow> m | Some a \<Rightarrow> AList.update iid a m) ids []"

definition runningPodAction :: "TApp \<Rightarrow> Pod amap \<Rightarrow> string \<Rightarrow> PodAction option" where
  "runningPodAction tapp podMap iid =
     (case map_of podMap iid of
        None \<Rightarrow> Some createPod
      | Some pod \<Rightarrow>
          if isPodDying (Some pod) then Some deletePod
          else if isPodCompleted pod then
            (case shouldPodMigrate tapp pod iid of
               (migrate, Some err) \<Rightarrow> None
             | (migrate, None) \<Rightarrow> if migrate then Some deletePod else None)
          else if isTemplateHashChanged tapp iid pod then
            (if \<not> isUniqHashChanged tapp iid pod then Some updatePod else Some recreatePod)
          else None)"

definition syncRunningPods :: "TApp \<Rightarrow> string set \<Rightarrow> Pod amap \<Rightarrow> PodAction amap" where
  "syncRunningPods tapp desiredRunningPods podMap =
     put_actions (runningPodAction tapp podMap) (sets_List desiredRunningPods)"

definition completedPodAction :: "Pod amap \<Rightarrow> string \<Rightarrow> PodAction option" where
  "completedPodAction podMap iid = (case map_of podMap iid of None \<Rightarrow> None | Some _ \<Rightarrow> Some deletePod)"

definition syncCompletedPods :: "string set \<Rightarrow> Pod amap \<Rightarrow> PodAction amap" where
  "syncCompletedPods desiredCompletedPods podMap =
     put_actions (completedPodAction podMap) (sets_List desiredCompletedPods)"

definition unwantedPodAction :: "TApp \<Rightarrow> string \<Rightarrow> PodAction option" where
  "unwantedPodAction tapp iid =
     (case Atoi iid of
        (idInt, None) \<Rightarrow> if idInt \<ge> replicas tapp then Some deletePod else None
      | (_, Some err) \<Rightarrow> None)"

definition syncUnwantedPods :: "TApp \<Rightarrow> Pod amap \<Rightarrow> PodAction amap" where
  "syncUnwantedPods tapp podMap = put_actions (unwantedPodAction tapp) (map fst podMap)"

definition mergePodActions :: "PodAction amap list \<Rightarrow> PodAction amap" where
  "mergePodActions actions =
     fold (\<lambda>a result. fold (\<lambda>(k, v). AList.update k v) a result) actions []"

definition getNextActionsForPods :: "TApp \<Rightarrow> string set \<Rightarrow> string set \<Rightarrow> Pod amap \<Rightarrow> PodAction amap" where
  "getNextActionsForPods tapp desiredRunningPods desiredCompletedPods podMap =
     (let a1 = syncRunningPods tapp desiredRunningPods podMap;
          a2 = syncCompletedPods desiredCompletedPods podMap;
          a3 = syncUnwantedPods tapp podMap
      in mergePodActions [a1, a2, a3])"

lemmas action_defs [model_defs] =
  updateTemplateHash_def isTemplateHashChanged_def isUniqHashChanged_def isInstanceFinished_def
  getDesiredInstance_def shouldPodMigrate_def makePodMap_def isSameImage_def isUpdating_def
  isPodAvailable_def getAvailablePods_def put_actions_def runningPodAction_def syncRunningPods_def
  completedPodAction_def syncCompletedPods_def unwantedPodAction_def syncUnwantedPods_def
  mergePodActions_def getNextActionsForPods_def

subsection \<open>Desired instances: what the sets are\<close>

lemma fold_insert_if:
  "fold (\<lambda>(k, v) c. if P v then insert k c else c) es A = A \<union> {k. \<exists>v. (k, v) \<in> set es \<and> P v}"
  by (induction es arbitrary: A) (auto split: if_splits)

lemma getDesiredInstance_sets:
  "getDesiredInstance d tapp = (running, completed) \<longleftrightarrow>
     completed =
       {i. (i, InstanceKilled) \<in> set (gm_entries (spec_Statuses (tapp_Spec tapp)))} \<union>
       {i. (\<not> d \<or> isTAppFinished tapp) \<and>
           (\<exists>s. (i, s) \<in> set (gm_entries (st_Statuses (tapp_Status tapp))) \<and> (s = InstanceFailed \<or> s = InstanceSucc))} \<and>
     running = set (replica_ids tapp) - completed"
  by (auto simp: getDesiredInstance_def Let_def fold_insert_if
      union_set_fold [of "replica_ids tapp" "{}", simplified, symmetric])

lemma getDesiredInstance_finite:
  assumes "getDesiredInstance d tapp = (running, completed)"
  shows "finite running" "finite completed" "running \<inter> completed = {}" "running \<subseteq> set (replica_ids tapp)"
proof -
  let ?f = "\<lambda>m :: InstanceStatus gomap. fst ` set (gm_entries m)"
  from assms have running: "running = set (replica_ids tapp) - completed"
    by (simp only: getDesiredInstance_sets)
  then show "finite running" "running \<inter> completed = {}" "running \<subseteq> set (replica_ids tapp)" by auto
  from assms have "\<exists>s. (i, s) \<in> set (gm_entries (spec_Statuses (tapp_Spec tapp))) \<or>
      (i, s) \<in> set (gm_entries (st_Statuses (tapp_Status tapp)))" if "i \<in> completed" for i
    using that unfolding getDesiredInstance_sets by blast
  then have "i \<in> ?f (spec_Statuses (tapp_Spec tapp)) \<union> ?f (st_Statuses (tapp_Status tapp))"
    if "i \<in> completed" for i
    using that by (force simp: image_iff)
  then have "completed \<subseteq> ?f (spec_Statuses (tapp_Spec tapp)) \<union> ?f (st_Statuses (tapp_Status tapp))"
    by blast
  then show "finite completed" by (rule finite_subset) simp
qed

subsection \<open>Action maps\<close>

lemma map_of_put_actions:
  "map_of (put_actions body ids) iid = (if iid \<in> set ids then body iid else None)"
proof -
  have "map_of (fold (\<lambda>iid m. case body iid of None \<Rightarrow> m | Some a \<Rightarrow> AList.update iid a m) ids m) iid =
      (if iid \<in> set ids \<and> body iid \<noteq> None then body iid else map_of m iid)" for m
    by (induction ids arbitrary: m) (auto simp: update_conv' split: option.splits)
  then show ?thesis by (auto simp: put_actions_def)
qed

lemma map_of_put_actions_fun:
  "map_of (put_actions body ids) = (\<lambda>i. if i \<in> set ids then body i else None)"
  by (simp add: fun_eq_iff map_of_put_actions)

lemma distinct_put_actions: "distinct (map fst (put_actions body ids))"
proof -
  have "distinct (map fst m) \<Longrightarrow>
      distinct (map fst (fold (\<lambda>iid m. case body iid of None \<Rightarrow> m | Some a \<Rightarrow> AList.update iid a m) ids m))" for m
    by (induction ids arbitrary: m) (auto simp: distinct_update split: option.splits)
  then show ?thesis by (simp add: put_actions_def)
qed

lemma mergePodActions_3:
  assumes "distinct (map fst a1)" "distinct (map fst a2)" "distinct (map fst a3)"
  shows "map_of (mergePodActions [a1, a2, a3]) = map_of a1 ++ map_of a2 ++ map_of a3"
    and "distinct (map fst (mergePodActions [a1, a2, a3]))"
  using assms
  by (simp_all add: mergePodActions_def map_of_fold_update map_of_rev_distinct distinct_fold_update)

lemma map_of_makePodMap_index:
  "map_of (makePodMap pods) iid = Some pod \<Longrightarrow> pod \<in> set pods \<and> getPodIndex pod = Inr iid"
proof -
  have "map_of (fold (\<lambda>pod podMap. case getPodIndex pod of Inl _ \<Rightarrow> podMap
        | Inr index \<Rightarrow> AList.update index pod podMap) pods m) iid = Some pod \<Longrightarrow>
      pod \<in> set pods \<and> getPodIndex pod = Inr iid \<or> map_of m iid = Some pod" for m
  proof (induction pods arbitrary: m)
    case (Cons p ps)
    then show ?case
      by (cases "getPodIndex p") (force simp: update_conv' split: if_splits)+
  qed simp
  from this [of "[]"]
  show "map_of (makePodMap pods) iid = Some pod \<Longrightarrow> pod \<in> set pods \<and> getPodIndex pod = Inr iid"
    by (simp add: makePodMap_def)
qed

lemma distinct_makePodMap: "distinct (map fst (makePodMap pods))"
proof -
  have "distinct (map fst m) \<Longrightarrow> distinct (map fst (fold (\<lambda>pod podMap. case getPodIndex pod of
      Inl _ \<Rightarrow> podMap | Inr index \<Rightarrow> AList.update index pod podMap) pods m))" for m
    by (induction pods arbitrary: m) (auto simp: distinct_update split: sum.splits)
  then show ?thesis by (simp add: makePodMap_def)
qed

subsection \<open>The specification of the next action\<close>

text \<open>What one pod or missing pod needs, without reference to the three passes and their merge.\<close>

definition next_action :: "TApp \<Rightarrow> string set \<Rightarrow> string set \<Rightarrow> Pod amap \<Rightarrow> string \<Rightarrow> PodAction option" where
  "next_action tapp running completed podMap iid =
     (case map_of podMap iid of
        None \<Rightarrow> if iid \<in> running then Some createPod else None
      | Some pod \<Rightarrow>
          if iid \<in> completed \<or> unwantedPodAction tapp iid = Some deletePod then Some deletePod
          else if iid \<in> running then runningPodAction tapp podMap iid else None)"

lemma unwantedPodAction_cases: "unwantedPodAction tapp iid = None \<or> unwantedPodAction tapp iid = Some deletePod"
  by (auto simp: unwantedPodAction_def split: option.splits prod.splits)

lemma wanted_not_unwanted: "iid \<in> set (replica_ids tapp) \<Longrightarrow> unwantedPodAction tapp iid = None"
  by (auto simp: unwantedPodAction_def elim!: Atoi_replica_id)

lemma map_of_eq_None_notin: "map_of l k = None \<longleftrightarrow> k \<notin> fst ` set l"
  by (rule map_of_eq_None_iff)

lemma getNextActionsForPods_distinct:
  "distinct (map fst (getNextActionsForPods tapp running completed podMap))"
  by (simp add: getNextActionsForPods_def Let_def mergePodActions_3 distinct_put_actions
      syncRunningPods_def syncCompletedPods_def syncUnwantedPods_def)

lemma getNextActionsForPods_lookup:
  assumes "finite running" "finite completed" "running \<inter> completed = {}" "running \<subseteq> set (replica_ids tapp)"
  shows "map_of (getNextActionsForPods tapp running completed podMap) iid =
    next_action tapp running completed podMap iid"
proof -
  have "map_of (getNextActionsForPods tapp running completed podMap) iid =
    ((\<lambda>i. if i \<in> running then runningPodAction tapp podMap i else None) ++
     (\<lambda>i. if i \<in> completed then completedPodAction podMap i else None) ++
     (\<lambda>i. if i \<in> fst ` set podMap then unwantedPodAction tapp i else None)) iid"
    using assms(1,2)
    by (simp add: getNextActionsForPods_def Let_def mergePodActions_3 distinct_put_actions
        syncRunningPods_def syncCompletedPods_def syncUnwantedPods_def map_of_put_actions_fun)
  also have "\<dots> = next_action tapp running completed podMap iid"
  proof (cases "map_of podMap iid")
    case None
    then have "iid \<notin> fst ` set podMap" by (simp add: map_of_eq_None_iff)
    with None show ?thesis
      by (auto simp: next_action_def map_add_def completedPodAction_def runningPodAction_def split: option.splits)
  next
    case (Some pod)
    then have "iid \<in> fst ` set podMap" by (metis map_of_eq_None_iff option.distinct(1))
    with Some assms(3,4) unwantedPodAction_cases [of tapp iid] wanted_not_unwanted [of iid tapp]
    show ?thesis
      by (auto simp: next_action_def map_add_def completedPodAction_def split: option.splits)
  qed
  finally show ?thesis .
qed

text \<open>Which pods an action can name.\<close>

lemma next_action_cases:
  assumes "next_action tapp running completed podMap iid = Some a"
  shows "a = createPod \<Longrightarrow> iid \<in> running \<and> map_of podMap iid = None"
    and "a \<noteq> createPod \<Longrightarrow> \<exists>pod. map_of podMap iid = Some pod"
    and "a = updatePod \<or> a = recreatePod \<Longrightarrow>
      iid \<in> running \<and> (\<exists>pod. map_of podMap iid = Some pod \<and> \<not> isPodDying (Some pod) \<and>
        \<not> isPodCompleted pod \<and> isTemplateHashChanged tapp iid pod \<and>
        isUniqHashChanged tapp iid pod = (a = recreatePod))"
  using assms
  by (auto simp: next_action_def runningPodAction_def split: option.splits if_splits prod.splits)

lemma set_getAvailablePods:
  assumes "finite running"
  shows "getAvailablePods podMap running =
    {iid \<in> running. \<exists>pod. map_of podMap iid = Some pod \<and> isPodAvailable pod}"
proof -
  have "fold (\<lambda>iid av. case map_of podMap iid of None \<Rightarrow> av
        | Some pod \<Rightarrow> if isPodAvailable pod then insert iid av else av) ids A =
      A \<union> {iid \<in> set ids. \<exists>pod. map_of podMap iid = Some pod \<and> isPodAvailable pod}" for ids A
    by (induction ids arbitrary: A) (auto split: option.splits)
  with assms show ?thesis by (simp add: getAvailablePods_def)
qed

end
