(* ===== verification/Sample_Objects.thy ===== *)
theory Sample_Objects
  imports TApp_Types
begin

text \<open>
  Small concrete objects for the witnesses: a TApp with given replicas whose instances use the
  default template, a pod of it, and a lister of nodes.
\<close>

definition sampleMeta :: "string \<Rightarrow> ObjectMeta" where
  "sampleMeta name = zeroObjectMeta\<lparr>om_Name := name, om_Namespace := ''ns'', om_UID := ''uid-'' @ name\<rparr>"

definition sampleContainer :: "string \<Rightarrow> Container" where
  "sampleContainer img = \<lparr>c_Name = ''main'', c_Image = img, c_rest = ''''\<rparr>"

definition samplePodSpec :: "string \<Rightarrow> PodSpec" where
  "samplePodSpec img = \<lparr>ps_NodeName = '''', ps_Hostname = '''', ps_Subdomain = '''',
     ps_RestartPolicy = RestartPolicyAlways, ps_InitContainers = [],
     ps_Containers = [sampleContainer img], ps_Volumes = [], ps_ReadinessGates = [], ps_rest = ''''\<rparr>"

definition sampleTemplate :: "string \<Rightarrow> PodTemplateSpec" where
  "sampleTemplate img =
     \<lparr>pt_Meta = zeroObjectMeta\<lparr>om_Labels := Some [(''app'', ''web'')]\<rparr>, pt_Spec = samplePodSpec img\<rparr>"

definition sampleSpec :: "32 word \<Rightarrow> TAppSpec" where
  "sampleSpec n = \<lparr>spec_Replicas = n, spec_Selector = None, spec_Template = sampleTemplate ''web:1'',
     spec_TemplatePool = None, spec_Statuses = None, spec_Templates = None,
     spec_UpdateStrategy = \<lparr>us_Template = '''', us_MaxUnavailable = None,
        us_ForceUpdate = \<lparr>fu_MaxUnavailable = None\<rparr>\<rparr>,
     spec_ForceDeletePod = False, spec_AutoDeleteUnusedTemplate = False, spec_NeverMigrate = False,
     spec_VolumeClaimTemplates = [], spec_ServiceName = '''', spec_DefaultTemplateName = DefaultTemplateName\<rparr>"

definition sampleTApp :: "32 word \<Rightarrow> TApp" where
  "sampleTApp n = \<lparr>tapp_Meta = sampleMeta ''web'', tapp_Spec = sampleSpec n,
     tapp_Status = \<lparr>st_ObservedGeneration = 0, st_Replicas = 0, st_ReadyReplicas = 0,
        st_ScaleLabelSelector = '''', st_AppStatus = AppRunning, st_Statuses = None\<rparr>\<rparr>"

text \<open>A running, ready pod of instance \<open>iid\<close> that carries no hash labels.\<close>

definition samplePod :: "string \<Rightarrow> Pod" where
  "samplePod iid = \<lparr>pod_Meta = (sampleMeta (''web-'' @ iid))\<lparr>om_Labels := Some [(TAppInstanceKey, iid)]\<rparr>,
     pod_Spec = samplePodSpec ''web:0'',
     pod_Status = \<lparr>pst_Phase = PodRunning, pst_Reason = '''',
       pst_Conditions = [\<lparr>pc_Type = PodReady, pc_Status = ConditionTrue, pc_LastTransitionTime = 0,
          pc_Reason = '''', pc_Message = ''''\<rparr>],
       pst_InitContainerStatuses = [], pst_ContainerStatuses = []\<rparr>\<rparr>"

text \<open>One instance that follows a template of the pool other than the rolling one, and a running pod
  that is not ready.\<close>

definition samplePoolTApp :: TApp where
  "samplePoolTApp = (sampleTApp 1)\<lparr>tapp_Spec := (sampleSpec 1)
     \<lparr>spec_Templates := Some [(''0'', ''b'')], spec_TemplatePool := Some [(''b'', sampleTemplate ''web:2'')]\<rparr>\<rparr>"

definition sampleCrashingPod :: "string \<Rightarrow> Pod" where
  "sampleCrashingPod iid = (samplePod iid)\<lparr>pod_Status := (pod_Status (samplePod iid))\<lparr>pst_Conditions := []\<rparr>\<rparr>"

lemmas sample_defs =
  sampleMeta_def sampleContainer_def samplePodSpec_def sampleTemplate_def sampleSpec_def sampleTApp_def
  samplePod_def samplePoolTApp_def sampleCrashingPod_def zeroObjectMeta_def

end
