(* ===== verification/Status.thy ===== *)
theory Status
  imports Pod_Actions Sample_Objects
begin

text \<open>
  The status part of \<^verbatim>\<open>pkg/tapp/controller.go\<close>: the status of every instance, the status of
  the whole TApp, the replica counts (32-bit words, as in the code) and the loop that writes the
  status back.

  The API server is a parameter: \<open>updateStatus\<close> is \<^verbatim>\<open>TApps(ns).UpdateStatus\<close>, a step on a world
  \<open>'w\<close>, and \<open>listerGet\<close> is \<^verbatim>\<open>TApps(ns).Get\<close> of the lister, which reads it. The code updates the
  object it retries with in place, in the lister's cache; here every object is a value, and \<open>Shared_Caches\<close> adds the sharing.
\<close>

subsection \<open>Definitions\<close>

definition statusUpdateRetries :: nat where
  "statusUpdateRetries = 2"

definition isPodReady :: "Pod \<Rightarrow> bool" where
  "isPodReady pod =
     (case List.find (\<lambda>c. pc_Type c = PodReady) (pod_Conditions pod) of
        Some c \<Rightarrow> pc_Status c = ConditionTrue
      | None \<Rightarrow> True)"

text \<open>One iteration of the loop over the pods: the status it writes, if any. An error of
  \<^verbatim>\<open>shouldPodMigrate\<close> comes with \<^verbatim>\<open>migrate = true\<close>, so the status the error branch writes is
  overwritten by the assignment after it.\<close>

definition podInstanceStatus :: "TApp \<Rightarrow> Pod \<Rightarrow> string \<Rightarrow> InstanceStatus option" where
  "podInstanceStatus tapp pod iid =
     (if isPodDying (Some pod) \<and>
         \<not> isInstanceFinished (gm_get zeroInstanceStatus (st_Statuses (tapp_Status tapp)) iid)
      then Some InstanceKilling
      else case pod_Phase pod of
             PodPending \<Rightarrow> Some InstancePending
           | PodRunning \<Rightarrow> if isPodReady pod then Some InstanceRunning else Some InstancePending
           | PodUnknown \<Rightarrow> Some InstanceUnknown
           | PodPhaseOther _ \<Rightarrow> None
           | phase \<Rightarrow>
               let status = (if phase = PodFailed then InstanceFailed else InstanceSucc);
                   (migrate, err) = shouldPodMigrate tapp pod iid
               in if migrate
                  then (if status = InstanceSucc then Some InstancePodSucc else Some InstancePodFailed)
                  else Some status)"

definition missingInstanceStatus :: "TApp \<Rightarrow> string \<Rightarrow> InstanceStatus" where
  "missingInstanceStatus tapp iid =
     (let old = gm_get zeroInstanceStatus (st_Statuses (tapp_Status tapp)) iid
      in if gm_get zeroInstanceStatus (spec_Statuses (tapp_Spec tapp)) iid = InstanceKilled then InstanceKilled
         else if isInstanceFinished old then old
         else InstanceNotCreated)"

definition getInstanceStatus :: "TApp \<Rightarrow> Pod list \<Rightarrow> InstanceStatus amap" where
  "getInstanceStatus tapp pods =
     (let statuses = fold (\<lambda>pod statuses.
            case getPodIndex pod of
              Inl err \<Rightarrow> statuses
            | Inr iid \<Rightarrow>
                (case podInstanceStatus tapp pod iid of
                   None \<Rightarrow> statuses
                 | Some s \<Rightarrow> AList.update iid s statuses)) pods []
      in fold (\<lambda>iid statuses.
            if map_of statuses iid = None
            then AList.update iid (missingInstanceStatus tapp iid) statuses else statuses)
           (replica_ids tapp) statuses)"

definition genAppStatus :: "TApp \<Rightarrow> AppStatus" where
  "genAppStatus tapp =
     (let statuses = map snd (gm_entries (st_Statuses (tapp_Status tapp)))
      in if statuses = [] then AppPending
         else if list_ex isInstanceAlive statuses then AppRunning
         else if list_ex (\<lambda>s. s = InstanceFailed) statuses then AppFailed
         else if list_ex (\<lambda>s. s = InstanceSucc) statuses then AppSucc
         else AppKilled)"

definition shouldUpdateTAppStatus :: "TApp \<Rightarrow> Pod list \<Rightarrow> bool" where
  "shouldUpdateTAppStatus tapp pods =
     (if om_Generation (tapp_Meta tapp) \<noteq> st_ObservedGeneration (tapp_Status tapp) then True
      else if \<not> gm_DeepEqual (st_Statuses (tapp_Status tapp)) (Some (getInstanceStatus tapp pods)) then True
      else genAppStatus tapp \<noteq> st_AppStatus (tapp_Status tapp))"

definition getTotalReplicas :: "InstanceStatus amap \<Rightarrow> 32 word" where
  "getTotalReplicas statuses =
     fold (\<lambda>(_, status) replica. if status \<noteq> InstanceNotCreated then replica + 1 else replica) statuses 0"

definition getReadyReplicas :: "InstanceStatus amap \<Rightarrow> 32 word" where
  "getReadyReplicas statuses =
     fold (\<lambda>(_, status) replica. if status = InstanceRunning then replica + 1 else replica) statuses 0"

text \<open>The body of the update loop, up to the request.\<close>

definition refreshStatus :: "Pod list \<Rightarrow> TApp \<Rightarrow> TApp" where
  "refreshStatus pods app0 =
     (let statuses = getInstanceStatus app0 pods;
          status = (tapp_Status app0)\<lparr>st_Statuses := Some statuses,
            st_Replicas := getTotalReplicas statuses, st_ReadyReplicas := getReadyReplicas statuses,
            st_ObservedGeneration := om_Generation (tapp_Meta app0)\<rparr>;
          app = app0\<lparr>tapp_Status := status\<rparr>
      in app\<lparr>tapp_Status := (tapp_Status app)\<lparr>st_AppStatus := genAppStatus app\<rparr>\<rparr>)"

type_synonym 'w tapp_request = "TApp \<Rightarrow> 'w \<Rightarrow> TApp result \<times> 'w"
type_synonym 'w tapp_getter = "string \<Rightarrow> string \<Rightarrow> 'w \<Rightarrow> TApp result"

text \<open>The loop, from iteration \<open>i\<close> on; the result is the error returned, if any, and the world.\<close>

function updateStatusLoop ::
  "'w tapp_request \<Rightarrow> 'w tapp_getter \<Rightarrow> string \<Rightarrow> Pod list \<Rightarrow> nat \<Rightarrow> TApp \<Rightarrow> 'w \<Rightarrow> error option \<times> 'w" where
  "updateStatusLoop updateStatus listerGet ns pods i app w =
     (let app1 = refreshStatus pods app;
          (r, w1) = updateStatus app1 w
      in case r of
           Inr _ \<Rightarrow> (None, w1)
         | Inl updateErr \<Rightarrow>
             if i \<ge> statusUpdateRetries then (Some updateErr, w1)
             else (case listerGet ns (tapp_Name app1) w1 of
                     Inl getErr \<Rightarrow> (Some getErr, w1)
                   | Inr app2 \<Rightarrow> updateStatusLoop updateStatus listerGet ns pods (Suc i) app2 w1))"
  by pat_completeness auto
termination
  by (relation "measure (\<lambda>(_, _, _, _, i, _, _). Suc statusUpdateRetries - i)") auto

declare updateStatusLoop.simps [simp del]

definition updateTAppStatus ::
  "'w tapp_request \<Rightarrow> 'w tapp_getter \<Rightarrow> TApp \<Rightarrow> Pod list \<Rightarrow> 'w \<Rightarrow> error option \<times> 'w" where
  "updateTAppStatus updateStatus listerGet tapp pods w =
     (if \<not> shouldUpdateTAppStatus tapp pods then (None, w)
      else updateStatusLoop updateStatus listerGet (tapp_Namespace tapp) pods 0 tapp w)"

lemmas status_defs [model_defs] =
  statusUpdateRetries_def isPodReady_def podInstanceStatus_def missingInstanceStatus_def getInstanceStatus_def
  genAppStatus_def shouldUpdateTAppStatus_def getTotalReplicas_def getReadyReplicas_def refreshStatus_def
  updateTAppStatus_def

subsection \<open>The status map\<close>

text \<open>The status the pods give to an instance: the last pod with that index decides.\<close>

definition observedStatus :: "TApp \<Rightarrow> Pod list \<Rightarrow> string \<Rightarrow> InstanceStatus option" where
  "observedStatus tapp pods iid =
     fold (\<lambda>pod r. if getPodIndex pod = Inr iid \<and> podInstanceStatus tapp pod iid \<noteq> None
       then podInstanceStatus tapp pod iid else r) pods None"

lemma pods_loop_lookup:
  "map_of (fold (\<lambda>pod statuses. case getPodIndex pod of Inl err \<Rightarrow> statuses
       | Inr iid \<Rightarrow> (case podInstanceStatus tapp pod iid of None \<Rightarrow> statuses
         | Some s \<Rightarrow> AList.update iid s statuses)) pods m) iid =
   fold (\<lambda>pod r. if getPodIndex pod = Inr iid \<and> podInstanceStatus tapp pod iid \<noteq> None
       then podInstanceStatus tapp pod iid else r) pods (map_of m iid)"
proof (induction pods arbitrary: m)
  case (Cons pod pods)
  then show ?case
    by (cases "getPodIndex pod") (auto simp: update_conv' split: option.split)
qed simp

lemma missing_loop_lookup:
  "map_of (fold (\<lambda>iid statuses. if map_of statuses iid = None
       then AList.update iid (f iid) statuses else statuses) ids m) iid =
   (case map_of m iid of Some s \<Rightarrow> Some s | None \<Rightarrow> if iid \<in> set ids then Some (f iid) else None)"
  by (induction ids arbitrary: m) (auto simp: update_conv' split: option.split)

lemma getInstanceStatus_lookup:
  "map_of (getInstanceStatus tapp pods) iid =
     (case observedStatus tapp pods iid of
        Some s \<Rightarrow> Some s
      | None \<Rightarrow> if iid \<in> set (replica_ids tapp) then Some (missingInstanceStatus tapp iid) else None)"
  by (simp add: getInstanceStatus_def Let_def missing_loop_lookup pods_loop_lookup observedStatus_def)

lemma distinct_getInstanceStatus: "distinct (map fst (getInstanceStatus tapp pods))"
proof -
  have "distinct (map fst m) \<Longrightarrow> distinct (map fst (fold (\<lambda>pod statuses. case getPodIndex pod of Inl err \<Rightarrow> statuses
       | Inr iid \<Rightarrow> (case podInstanceStatus tapp pod iid of None \<Rightarrow> statuses
         | Some s \<Rightarrow> AList.update iid s statuses)) pods m))" for m
    by (induction pods arbitrary: m) (auto simp: distinct_update split: sum.split option.split)
  moreover have "distinct (map fst m) \<Longrightarrow> distinct (map fst (fold (\<lambda>iid statuses. if map_of statuses iid = None
       then AList.update iid (f iid) statuses else statuses) ids m))" for f :: "string \<Rightarrow> InstanceStatus" and ids m
    by (induction ids arbitrary: m) (auto simp: distinct_update)
  ultimately show ?thesis by (simp add: getInstanceStatus_def Let_def)
qed

lemma observedStatus_None:
  "(\<And>pod. pod \<in> set pods \<Longrightarrow> getPodIndex pod \<noteq> Inr iid) \<Longrightarrow> observedStatus tapp pods iid = None"
  unfolding observedStatus_def by (induction pods) auto

lemma observedStatus_Some:
  assumes "observedStatus tapp pods iid = Some s"
  obtains pod where "pod \<in> set pods" "getPodIndex pod = Inr iid" "podInstanceStatus tapp pod iid = Some s"
proof -
  have "fold (\<lambda>pod r. if getPodIndex pod = Inr iid \<and> podInstanceStatus tapp pod iid \<noteq> None
       then podInstanceStatus tapp pod iid else r) pods r0 = Some s \<Longrightarrow>
     r0 = Some s \<or> (\<exists>pod\<in>set pods. getPodIndex pod = Inr iid \<and> podInstanceStatus tapp pod iid = Some s)" for r0
    by (induction pods arbitrary: r0) (auto split: if_splits)
  from this [of None] assms that show thesis by (auto simp: observedStatus_def)
qed

text \<open>The statuses the controller ever writes.\<close>

definition writtenStatuses :: "InstanceStatus set" where
  "writtenStatuses = {InstanceKilling, InstancePending, InstanceRunning, InstanceSucc, InstanceFailed,
     InstancePodSucc, InstancePodFailed, InstanceUnknown, InstanceKilled, InstanceNotCreated}"

lemma podInstanceStatus_written: "podInstanceStatus tapp pod iid = Some s \<Longrightarrow> s \<in> writtenStatuses"
  by (auto simp: podInstanceStatus_def writtenStatuses_def Let_def split: if_splits PodPhase.splits prod.splits)

lemma missingInstanceStatus_written: "missingInstanceStatus tapp iid \<in> writtenStatuses"
  by (auto simp: missingInstanceStatus_def writtenStatuses_def Let_def isInstanceFinished_def)

lemma getInstanceStatus_written:
  "map_of (getInstanceStatus tapp pods) iid = Some s \<Longrightarrow> s \<in> writtenStatuses"
  by (auto simp: getInstanceStatus_lookup missingInstanceStatus_written split: option.splits if_splits
      elim!: observedStatus_Some dest: podInstanceStatus_written)

lemma snd_getInstanceStatus:
  "status \<in> snd ` set (getInstanceStatus tapp pods) \<longleftrightarrow>
     (\<exists>iid. map_of (getInstanceStatus tapp pods) iid = Some status)"
  using distinct_getInstanceStatus [of tapp pods] by force

subsection \<open>What the TApp status means\<close>

lemma refreshStatus_simps [simp]:
  "st_Statuses (tapp_Status (refreshStatus pods app)) = Some (getInstanceStatus app pods)"
  "st_Replicas (tapp_Status (refreshStatus pods app)) = getTotalReplicas (getInstanceStatus app pods)"
  "st_ReadyReplicas (tapp_Status (refreshStatus pods app)) = getReadyReplicas (getInstanceStatus app pods)"
  "st_ObservedGeneration (tapp_Status (refreshStatus pods app)) = om_Generation (tapp_Meta app)"
  "tapp_Spec (refreshStatus pods app) = tapp_Spec app" "tapp_Meta (refreshStatus pods app) = tapp_Meta app"
  by (simp_all add: refreshStatus_def Let_def)

lemma genAppStatus_refresh:
  "st_AppStatus (tapp_Status (refreshStatus pods app)) = genAppStatus (refreshStatus pods app)"
  by (simp add: refreshStatus_def Let_def genAppStatus_def)

text \<open>C17. The status of the TApp after a status refresh says what it should of the instances: it is
  pending exactly without instances, running exactly if some instance is alive, and once no instance is
  alive it is failed exactly if one has failed, succeeded exactly if none failed and one succeeded, and
  killed exactly if all were killed.\<close>

theorem refreshStatus_AppStatus:
  "let app' = refreshStatus pods app; S = snd ` set (getInstanceStatus app pods)
   in (st_AppStatus (tapp_Status app') = AppPending \<longleftrightarrow> S = {}) \<and>
      (st_AppStatus (tapp_Status app') = AppRunning \<longleftrightarrow> (\<exists>s. s \<in> S \<and> isInstanceAlive s)) \<and>
      (st_AppStatus (tapp_Status app') = AppFailed \<longleftrightarrow> S \<subseteq> {s. \<not> isInstanceAlive s} \<and> InstanceFailed \<in> S) \<and>
      (st_AppStatus (tapp_Status app') = AppSucc \<longleftrightarrow>
         S \<subseteq> {s. \<not> isInstanceAlive s} \<and> InstanceFailed \<notin> S \<and> InstanceSucc \<in> S) \<and>
      (st_AppStatus (tapp_Status app') = AppKilled \<longleftrightarrow> S = {InstanceKilled})"
proof -
  define S where "S = snd ` set (getInstanceStatus app pods)"
  have "S \<subseteq> writtenStatuses"
    unfolding S_def using getInstanceStatus_written snd_getInstanceStatus by blast
  then have dead: "s = InstanceFailed \<or> s = InstanceSucc \<or> s = InstanceKilled"
    if "s \<in> S" "\<not> isInstanceAlive s" for s
    using that by (auto simp: writtenStatuses_def isInstanceAlive_def)
  have "\<not> isInstanceAlive InstanceKilled" by (simp add: isInstanceAlive_def)
  with dead have killed: "S = {InstanceKilled} \<longleftrightarrow>
      S \<noteq> {} \<and> S \<subseteq> {s. \<not> isInstanceAlive s} \<and> InstanceFailed \<notin> S \<and> InstanceSucc \<notin> S"
    by blast
  have status: "genAppStatus (refreshStatus pods app) =
      (if S = {} then AppPending else if \<exists>s\<in>S. isInstanceAlive s then AppRunning
       else if InstanceFailed \<in> S then AppFailed else if InstanceSucc \<in> S then AppSucc else AppKilled)"
    by (auto simp: genAppStatus_def Let_def list_ex_iff S_def image_iff)
  show ?thesis
    unfolding Let_def genAppStatus_refresh S_def [symmetric] killed status by auto
qed

subsection \<open>Convergence of the status\<close>

lemma podInstanceStatus_cong:
  assumes "tapp_Spec app' = tapp_Spec app" "tapp_Meta app' = tapp_Meta app"
    and "isPodDying (Some pod) \<Longrightarrow>
      isInstanceFinished (gm_get zeroInstanceStatus (st_Statuses (tapp_Status app')) iid) =
      isInstanceFinished (gm_get zeroInstanceStatus (st_Statuses (tapp_Status app)) iid)"
  shows "podInstanceStatus app' pod iid = podInstanceStatus app pod iid"
proof -
  have migrate: "shouldPodMigrate app' pod iid = shouldPodMigrate app pod iid"
    unfolding shouldPodMigrate_def GetTAppFullName_def assms(1,2) ..
  show ?thesis
  proof (cases "isPodDying (Some pod)")
    case True
    show ?thesis unfolding podInstanceStatus_def migrate assms(3) [OF True] ..
  next
    case False
    then show ?thesis unfolding podInstanceStatus_def migrate by simp
  qed
qed

text \<open>No instance of the pods is recorded as finished while its pod is being deleted.\<close>

definition noDyingFinished :: "TApp \<Rightarrow> Pod list \<Rightarrow> bool" where
  "noDyingFinished app pods \<longleftrightarrow> list_all (\<lambda>pod.
     case getPodIndex pod of
       Inl _ \<Rightarrow> True
     | Inr iid \<Rightarrow> isPodDying (Some pod) \<longrightarrow>
         \<not> isInstanceFinished (gm_get zeroInstanceStatus (st_Statuses (tapp_Status app)) iid)) pods"

lemma refreshStatus_observed:
  assumes "noDyingFinished app pods" "noDyingFinished (refreshStatus pods app) pods"
  shows "observedStatus (refreshStatus pods app) pods iid = observedStatus app pods iid"
proof -
  have "podInstanceStatus (refreshStatus pods app) pod iid = podInstanceStatus app pod iid"
    if "pod \<in> set pods" "getPodIndex pod = Inr iid" for pod
    using that assms by (intro podInstanceStatus_cong) (force simp: noDyingFinished_def list_all_iff)+
  then show ?thesis
    unfolding observedStatus_def
    by (intro fold_cong refl ext) (metis (no_types, lifting))
qed

text \<open>A dying pod of an unfinished instance has the status killing, which is not finished.\<close>

lemma noDyingFinished_refresh:
  assumes "noDyingFinished app pods"
    and "\<And>p q i. p \<in> set pods \<Longrightarrow> q \<in> set pods \<Longrightarrow> getPodIndex p = Inr i \<Longrightarrow> getPodIndex q = Inr i \<Longrightarrow> p = q"
  shows "noDyingFinished (refreshStatus pods app) pods"
proof -
  have "\<not> isInstanceFinished (gm_get zeroInstanceStatus (Some (getInstanceStatus app pods)) iid)"
    if pod: "pod \<in> set pods" "getPodIndex pod = Inr iid" "isPodDying (Some pod)" for pod iid
  proof -
    have dying: "podInstanceStatus app p iid = Some InstanceKilling" if "p \<in> set pods" "getPodIndex p = Inr iid" for p
      using assms(1) pod assms(2) [OF that(1) pod(1) that(2) pod(2)]
      by (auto simp: noDyingFinished_def list_all_iff podInstanceStatus_def)
    have "fold (\<lambda>pod r. if getPodIndex pod = Inr iid \<and> podInstanceStatus app pod iid \<noteq> None
       then podInstanceStatus app pod iid else r) ps r0 = Some InstanceKilling"
      if "set ps \<subseteq> set pods" "pod \<in> set ps \<or> r0 = Some InstanceKilling" for ps r0
      using that by (induction ps arbitrary: r0) (auto simp: dying pod(2))
    then have "observedStatus app pods iid = Some InstanceKilling"
      using pod(1) by (simp add: observedStatus_def)
    then show ?thesis by (simp add: gm_get_def getInstanceStatus_lookup isInstanceFinished_def)
  qed
  then show ?thesis by (auto simp: noDyingFinished_def list_all_iff split: sum.split)
qed

lemma refreshStatus_missing:
  assumes "observedStatus app pods iid = None" "iid \<in> set (replica_ids app)"
  shows "missingInstanceStatus (refreshStatus pods app) iid = missingInstanceStatus app iid"
proof -
  have "gm_get zeroInstanceStatus (Some (getInstanceStatus app pods)) iid = missingInstanceStatus app iid"
    using assms by (simp add: gm_get_def getInstanceStatus_lookup)
  then show ?thesis
    by (auto simp: missingInstanceStatus_def Let_def isInstanceFinished_def)
qed

lemma replica_ids_refresh [simp]: "replica_ids (refreshStatus pods app) = replica_ids app"
  by (simp add: replica_ids_def)

lemma refreshStatus_settled:
  assumes "\<And>p q i. p \<in> set pods \<Longrightarrow> q \<in> set pods \<Longrightarrow> getPodIndex p = Inr i \<Longrightarrow> getPodIndex q = Inr i \<Longrightarrow> p = q"
    and "noDyingFinished app pods"
  shows "\<not> shouldUpdateTAppStatus (refreshStatus pods app) pods"
proof -
  let ?app = "refreshStatus pods app"
  have dying: "noDyingFinished ?app pods" by (rule noDyingFinished_refresh [OF assms(2,1)])
  have "map_of (getInstanceStatus ?app pods) iid = map_of (getInstanceStatus app pods) iid" for iid
    using refreshStatus_missing [of app pods iid]
    by (auto simp: getInstanceStatus_lookup refreshStatus_observed [OF assms(2) dying] split: option.split)
  then have "gm_DeepEqual (Some (getInstanceStatus app pods)) (Some (getInstanceStatus ?app pods))"
    by (subst gm_DeepEqual_iff) (auto simp: gm_wf_def distinct_getInstanceStatus gm_lookup_fun)
  then show ?thesis
    by (simp add: shouldUpdateTAppStatus_def genAppStatus_refresh)
qed

text \<open>C18. The status converges: one refresh from the pods makes the recorded status agree with
  them, so that the next comparison finds nothing to update. The instances of the pods are distinct
  and none is recorded as finished while its pod is being deleted.\<close>

theorem refreshStatus_converges:
  assumes "\<And>p q i. p \<in> set pods \<Longrightarrow> q \<in> set pods \<Longrightarrow> getPodIndex p = Inr i \<Longrightarrow> getPodIndex q = Inr i \<Longrightarrow> p = q"
    and "noDyingFinished app pods"
  shows "\<not> shouldUpdateTAppStatus (refreshStatus pods app) pods"
  by (rule refreshStatus_settled [OF assms])

theorem refreshStatus_converges_witness:
  "\<not> shouldUpdateTAppStatus (refreshStatus [samplePod ''0''] (sampleTApp 2)) [samplePod ''0'']"
  by (rule refreshStatus_converges) (simp_all add: noDyingFinished_def isPodDying_def sample_defs split: sum.split)

text \<open>A TApp scaled to zero never settles: its computed status map is empty but not nil, the
  stored one is nil (the field is omitted when empty), and \<^verbatim>\<open>reflect.DeepEqual\<close> tells the two apart,
  so every synchronisation updates the status again.\<close>

theorem zero_replicas_always_update:
  assumes "replicas app \<le> 0" "st_Statuses (tapp_Status app) = None"
  shows "shouldUpdateTAppStatus app [] \<and> getInstanceStatus app [] = []"
  using assms by (simp add: shouldUpdateTAppStatus_def gm_DeepEqual_def getInstanceStatus_def replica_ids_def)

theorem zero_replicas_always_update_witness:
  "shouldUpdateTAppStatus (sampleTApp 0) [] \<and> getInstanceStatus (sampleTApp 0) [] = []"
  by (rule zero_replicas_always_update) (simp_all add: sample_defs)

subsection \<open>Replica counts\<close>

lemma count_loop:
  assumes "n + length xs < 2 ^ 31"
  shows "fold (\<lambda>(_, s) r. if P s then r + 1 else r) xs (word_of_nat n :: 32 word) =
    word_of_nat (n + length (filter (\<lambda>(_, s). P s) xs))"
  using assms
proof (induction xs arbitrary: n)
  case (Cons x xs)
  have "word_of_nat n + 1 = (word_of_nat (Suc n) :: 32 word)" by simp
  with Cons.IH [of "Suc n"] Cons.IH [of n] Cons.prems show ?case
    by (auto split: prod.splits simp: add.commute)
qed simp

lemma sint_small: "n < 2 ^ 31 \<Longrightarrow> sint (word_of_nat n :: 32 word) = int n"
  by (simp add: signed_of_nat signed_take_bit_int_eq_self)

text \<open>C22. The replica counts are exact 32-bit counts: as long as the status map has fewer than
  \<open>2\<^sup>3\<^sup>1\<close> entries they do not wrap, ready instances are counted among the existing ones, and existing
  ones among all.\<close>

theorem replica_counts:
  assumes "length statuses < 2 ^ 31"
  shows "sint (getTotalReplicas statuses) = int (length (filter (\<lambda>(_, s). s \<noteq> InstanceNotCreated) statuses)) \<and>
    sint (getReadyReplicas statuses) = int (length (filter (\<lambda>(_, s). s = InstanceRunning) statuses)) \<and>
    0 \<le> sint (getReadyReplicas statuses) \<and>
    sint (getReadyReplicas statuses) \<le> sint (getTotalReplicas statuses) \<and>
    sint (getTotalReplicas statuses) \<le> int (length statuses)"
proof -
  let ?count = "\<lambda>P. length (filter (\<lambda>(_, s). P s) statuses)"
  have small: "?count P < 2 ^ 31" for P using assms length_filter_le order_le_less_trans by blast
  have total: "sint (getTotalReplicas statuses) = int (?count (\<lambda>s. s \<noteq> InstanceNotCreated))"
    using count_loop [of 0 statuses "\<lambda>s. s \<noteq> InstanceNotCreated"] assms sint_small [OF small]
    by (simp add: getTotalReplicas_def)
  have ready: "sint (getReadyReplicas statuses) = int (?count (\<lambda>s. s = InstanceRunning))"
    using count_loop [of 0 statuses "\<lambda>s. s = InstanceRunning"] assms sint_small [OF small]
    by (simp add: getReadyReplicas_def)
  have "?count (\<lambda>s. s = InstanceRunning) \<le> ?count (\<lambda>s. s \<noteq> InstanceNotCreated)"
    by (induction statuses) auto
  then show ?thesis using total ready by simp
qed

theorem replica_counts_witness:
  "sint (getReadyReplicas [(''0'', InstanceRunning), (''1'', InstanceNotCreated)]) \<le>
   sint (getTotalReplicas [(''0'', InstanceRunning), (''1'', InstanceNotCreated)])"
  using replica_counts [of "[(''0'', InstanceRunning), (''1'', InstanceNotCreated)]"] by simp

subsection \<open>The update loop\<close>

text \<open>A world that counts the requests and remembers the last object sent.\<close>

definition counted :: "'w tapp_request \<Rightarrow> (nat \<times> TApp option \<times> 'w) tapp_request" where
  "counted updateStatus app = (\<lambda>(n, _, w). case updateStatus app w of (r, w') \<Rightarrow> (r, Suc n, Some app, w'))"

definition countedGet :: "'w tapp_getter \<Rightarrow> (nat \<times> TApp option \<times> 'w) tapp_getter" where
  "countedGet listerGet ns name = (\<lambda>(_, _, w). listerGet ns name w)"

lemma updateStatusLoop_counted:
  assumes "updateStatusLoop (counted us) (countedGet get) ns pods i app (n, sent, w) = (err, n', sent', w')"
    and "i \<le> statusUpdateRetries"
  shows "n < n' \<and> n' \<le> n + Suc (statusUpdateRetries - i) \<and> (\<exists>app0. sent' = Some (refreshStatus pods app0))"
  using assms
proof (induction "statusUpdateRetries - i" arbitrary: i app n sent w)
  case 0
  then show ?case
    by (subst (asm) updateStatusLoop.simps)
      (auto simp: counted_def countedGet_def Let_def split: sum.splits prod.splits)
next
  case (Suc k)
  have ih: "updateStatusLoop (counted us) (countedGet get) ns pods (Suc i) app2 (m, l, w2) = (err, n', sent', w') \<Longrightarrow>
      m < n' \<and> n' \<le> m + Suc (statusUpdateRetries - Suc i) \<and> (\<exists>app0. sent' = Some (refreshStatus pods app0))" for app2 m l w2
    using Suc.hyps(1) [of "Suc i" app2 m l w2] Suc.hyps(2) by simp
  from Suc.prems Suc.hyps(2) show ?case
    by (subst (asm) updateStatusLoop.simps)
      (auto simp: counted_def countedGet_def Let_def split: sum.splits prod.splits if_splits dest!: ih)
qed

text \<open>C20. Writing the status terminates after at most three requests, whatever the API server
  and the lister answer: no request if the status is current; otherwise at least one, and what is sent is
  always a status computed afresh from the pods. It succeeds as soon as one request does.\<close>

theorem updateTAppStatus_bounded:
  assumes "updateTAppStatus (counted us) (countedGet get) tapp pods (0, None, w) = (err, n, sent, w')"
  shows "n \<le> 3 \<and> (n = 0 \<longleftrightarrow> \<not> shouldUpdateTAppStatus tapp pods) \<and> (n = 0 \<longrightarrow> err = None) \<and>
    (n \<noteq> 0 \<longrightarrow> (\<exists>app0. sent = Some (refreshStatus pods app0)))"
proof (cases "shouldUpdateTAppStatus tapp pods")
  case True
  with assms have "updateStatusLoop (counted us) (countedGet get) (tapp_Namespace tapp) pods 0 tapp (0, None, w) =
      (err, n, sent, w')" by (simp add: updateTAppStatus_def)
  from updateStatusLoop_counted [OF this] True show ?thesis by (simp add: statusUpdateRetries_def)
next
  case False
  with assms show ?thesis by (simp add: updateTAppStatus_def)
qed

theorem updateTAppStatus_bounded_witness:
  "\<exists>err n sent w'. updateTAppStatus (counted (\<lambda>app w. (Inl Conflict, w))) (countedGet (\<lambda>_ _ _. Inr (sampleTApp 0)))
      (sampleTApp 0) [] (0, None, ()) = (err, n, sent, w') \<and> n \<le> 3"
proof -
  obtain err n sent w' where r: "updateTAppStatus (counted (\<lambda>app w. (Inl Conflict, w)))
      (countedGet (\<lambda>_ _ _. Inr (sampleTApp 0))) (sampleTApp 0) [] (0, None, ()) = (err, n, sent, w')"
    by (metis prod_cases4)
  from updateTAppStatus_bounded [OF r] r show ?thesis by blast
qed

subsection \<open>Finished instances\<close>

text \<open>C19. A finished instance stays finished. Once an instance is recorded as failed or succeeded and
  its pod is gone, the next status computed for it is the same (or killed, if the specification kills
  it), and when pods are deleted as their instances finish, it is not created again.\<close>

theorem finished_instance_stays:
  assumes "gm_wf (st_Statuses (tapp_Status app))"
    and "gm_lookup (st_Statuses (tapp_Status app)) iid = Some s" "s = InstanceFailed \<or> s = InstanceSucc"
    and "iid \<in> set (replica_ids app)"
    and "\<And>pod. pod \<in> set pods \<Longrightarrow> getPodIndex pod \<noteq> Inr iid"
  shows "map_of (getInstanceStatus app pods) iid =
      Some (if gm_lookup (spec_Statuses (tapp_Spec app)) iid = Some InstanceKilled then InstanceKilled else s) \<and>
    map_of (getNextActionsForPods app (fst (getDesiredInstance False app)) (snd (getDesiredInstance False app))
      (makePodMap pods)) iid = None"
proof
  have "missingInstanceStatus app iid =
      (if gm_lookup (spec_Statuses (tapp_Spec app)) iid = Some InstanceKilled then InstanceKilled else s)"
    using assms(2,3)
    by (auto simp: missingInstanceStatus_def Let_def gm_get_def isInstanceFinished_def split: option.splits)
  then show "map_of (getInstanceStatus app pods) iid =
      Some (if gm_lookup (spec_Statuses (tapp_Spec app)) iid = Some InstanceKilled then InstanceKilled else s)"
    using observedStatus_None [OF assms(5)] assms(4) by (simp add: getInstanceStatus_lookup)
  obtain running completed where d: "getDesiredInstance False app = (running, completed)" by fastforce
  have "(iid, s) \<in> set (gm_entries (st_Statuses (tapp_Status app)))"
    using assms(1,2) by (simp add: gm_lookup_Some_iff)
  with assms(3) have "iid \<in> completed" using d unfolding getDesiredInstance_sets by blast
  then have "iid \<notin> running" using getDesiredInstance_finite(3) [OF d] by blast
  moreover have "map_of (makePodMap pods) iid = None"
    using map_of_makePodMap_index [of pods iid] assms(5) by (cases "map_of (makePodMap pods) iid") auto
  ultimately show "map_of (getNextActionsForPods app (fst (getDesiredInstance False app))
      (snd (getDesiredInstance False app)) (makePodMap pods)) iid = None"
    using getDesiredInstance_finite [OF d] by (simp add: d getNextActionsForPods_lookup next_action_def)
qed

definition sampleFinishedTApp :: TApp where
  "sampleFinishedTApp = (sampleTApp 1)\<lparr>tapp_Status := (tapp_Status (sampleTApp 1))
     \<lparr>st_Statuses := Some [(Itoa 0, InstanceSucc)]\<rparr>\<rparr>"

theorem finished_instance_stays_witness:
  "map_of (getInstanceStatus sampleFinishedTApp []) (Itoa 0) = Some InstanceSucc \<and>
   map_of (getNextActionsForPods sampleFinishedTApp (fst (getDesiredInstance False sampleFinishedTApp))
     (snd (getDesiredInstance False sampleFinishedTApp)) (makePodMap [])) (Itoa 0) = None"
proof -
  have "spec_Statuses (tapp_Spec sampleFinishedTApp) = None"
    by (simp add: sampleFinishedTApp_def sample_defs)
  moreover have "Itoa 0 \<in> set (replica_ids sampleFinishedTApp)"
    by (simp add: replica_ids_def sampleFinishedTApp_def sample_defs)
  ultimately show ?thesis
    using finished_instance_stays [of sampleFinishedTApp "Itoa 0" InstanceSucc "[]"]
    by (simp add: sampleFinishedTApp_def gm_wf_def)
qed

end
