(* ===== verification/Preprocess.thy ===== *)
theory Preprocess
  imports Status
begin

text \<open>
  The preparation of a TApp before it is synchronised, from \<^verbatim>\<open>pkg/tapp/controller.go\<close>: default
  values, removal of unused templates, the label selector, the selector string of the scale
  subresource, and \<^verbatim>\<open>preprocessTApp\<close>, which writes the result back.

  Parameters: \<open>selectorOf\<close> is \<^verbatim>\<open>metav1.LabelSelectorAsSelector\<close>; \<open>updateTApp\<close> and \<open>updateStatus\<close>
  are the two requests of the TApp client. \<^verbatim>\<open>reflect.DeepEqual\<close> on a specification compares maps
  by their entries and tells nil from empty.
\<close>

subsection \<open>Deep equality\<close>

definition meta_DeepEqual :: "ObjectMeta \<Rightarrow> ObjectMeta \<Rightarrow> bool" where
  "meta_DeepEqual a b \<longleftrightarrow>
     a\<lparr>om_Labels := None, om_Annotations := None\<rparr> = b\<lparr>om_Labels := None, om_Annotations := None\<rparr> \<and>
     gm_DeepEqual (om_Labels a) (om_Labels b) \<and> gm_DeepEqual (om_Annotations a) (om_Annotations b)"

definition template_DeepEqual :: "PodTemplateSpec \<Rightarrow> PodTemplateSpec \<Rightarrow> bool" where
  "template_DeepEqual a b \<longleftrightarrow> meta_DeepEqual (pt_Meta a) (pt_Meta b) \<and> pt_Spec a = pt_Spec b"

definition pool_DeepEqual :: "PodTemplateSpec gomap \<Rightarrow> PodTemplateSpec gomap \<Rightarrow> bool" where
  "pool_DeepEqual a b \<longleftrightarrow>
     (a = None \<longleftrightarrow> b = None) \<and> gm_len a = gm_len b \<and>
     list_all (\<lambda>(k, t). case gm_lookup b k of None \<Rightarrow> False | Some u \<Rightarrow> template_DeepEqual t u) (gm_entries a)"

definition claim_DeepEqual :: "PersistentVolumeClaim \<Rightarrow> PersistentVolumeClaim \<Rightarrow> bool" where
  "claim_DeepEqual a b \<longleftrightarrow> meta_DeepEqual (pvc_Meta a) (pvc_Meta b) \<and> pvc_rest a = pvc_rest b"

definition selector_DeepEqual :: "LabelSelector option \<Rightarrow> LabelSelector option \<Rightarrow> bool" where
  "selector_DeepEqual a b =
     (case (a, b) of
        (None, None) \<Rightarrow> True
      | (Some s, Some t) \<Rightarrow> gm_DeepEqual (ls_MatchLabels s) (ls_MatchLabels t) \<and>
          ls_MatchExpressions s = ls_MatchExpressions t
      | _ \<Rightarrow> False)"

definition spec_DeepEqual :: "TAppSpec \<Rightarrow> TAppSpec \<Rightarrow> bool" where
  "spec_DeepEqual a b \<longleftrightarrow>
     spec_Replicas a = spec_Replicas b \<and> selector_DeepEqual (spec_Selector a) (spec_Selector b) \<and>
     template_DeepEqual (spec_Template a) (spec_Template b) \<and>
     pool_DeepEqual (spec_TemplatePool a) (spec_TemplatePool b) \<and>
     gm_DeepEqual (spec_Statuses a) (spec_Statuses b) \<and> gm_DeepEqual (spec_Templates a) (spec_Templates b) \<and>
     spec_UpdateStrategy a = spec_UpdateStrategy b \<and> spec_ForceDeletePod a = spec_ForceDeletePod b \<and>
     spec_AutoDeleteUnusedTemplate a = spec_AutoDeleteUnusedTemplate b \<and> spec_NeverMigrate a = spec_NeverMigrate b \<and>
     list_all2 claim_DeepEqual (spec_VolumeClaimTemplates a) (spec_VolumeClaimTemplates b) \<and>
     spec_ServiceName a = spec_ServiceName b \<and> spec_DefaultTemplateName a = spec_DefaultTemplateName b"

definition status_DeepEqual :: "TAppStatus \<Rightarrow> TAppStatus \<Rightarrow> bool" where
  "status_DeepEqual a b \<longleftrightarrow>
     a\<lparr>st_Statuses := None\<rparr> = b\<lparr>st_Statuses := None\<rparr> \<and> gm_DeepEqual (st_Statuses a) (st_Statuses b)"

subsection \<open>Definitions\<close>

definition setDefaultValue :: "TApp \<Rightarrow> TApp" where
  "setDefaultValue tapp =
     (let spec0 = tapp_Spec tapp;
          spec1 = (if spec_DefaultTemplateName spec0 = ''''
                   then spec0\<lparr>spec_DefaultTemplateName := DefaultTemplateName\<rparr> else spec0);
          us0 = spec_UpdateStrategy spec1;
          us1 = (if length (us_Template us0) = 0
                 then us0\<lparr>us_Template := spec_DefaultTemplateName spec1\<rparr> else us0);
          us2 = (if us_MaxUnavailable us1 = None
                 then us1\<lparr>us_MaxUnavailable := Some (FromInt DefaultMaxUnavailable)\<rparr> else us1);
          us3 = (if fu_MaxUnavailable (us_ForceUpdate us2) = None
                 then us2\<lparr>us_ForceUpdate := (us_ForceUpdate us2)
                   \<lparr>fu_MaxUnavailable := Some (FromString DefaultMaxUnavailableForceUpdate)\<rparr>\<rparr> else us2)
      in tapp\<lparr>tapp_Spec := spec1\<lparr>spec_UpdateStrategy := us3\<rparr>\<rparr>)"

definition removeUnusedTemplate :: "TApp \<Rightarrow> TApp" where
  "removeUnusedTemplate tapp =
     (let spec = tapp_Spec tapp
      in if \<not> spec_AutoDeleteUnusedTemplate spec then tapp
         else
           let templateMap0 = map (\<lambda>(k, _). (k, True)) (gm_entries (spec_TemplatePool spec));
               templateMap1 = (if spec_DefaultTemplateName spec \<noteq> DefaultTemplateName
                               then AList.delete (spec_DefaultTemplateName spec) templateMap0 else templateMap0);
               templateMap2 = fold (\<lambda>(_, template_used). AList.delete template_used)
                                (gm_entries (spec_Templates spec)) templateMap1;
               rollingTemplate = getRollingTemplateKey tapp;
               templateMap3 = (if length rollingTemplate \<noteq> 0 then AList.delete rollingTemplate templateMap2
                               else templateMap2)
           in tapp\<lparr>tapp_Spec := spec\<lparr>spec_TemplatePool :=
                fold (\<lambda>(template_unused, _). gm_delete template_unused) templateMap3 (spec_TemplatePool spec)\<rparr>\<rparr>)"

definition setLabelSelector :: "TApp \<Rightarrow> TApp result" where
  "setLabelSelector tapp =
     (if spec_Selector (tapp_Spec tapp) \<noteq> None then Inr tapp
      else if gm_len (pt_Labels (spec_Template (tapp_Spec tapp))) = 0
      then Inl (Errorf (''no lables found in tapp: '' @ GetTAppFullName tapp))
      else
        let labels = pt_Labels (spec_Template (tapp_Spec tapp));
            tappLabels = fold gm_delete HashLabels (gm_clone labels);
            tapp1 = tapp\<lparr>tapp_Spec := (tapp_Spec tapp)\<lparr>spec_Selector := Some (GenerateTAppSelector labels)\<rparr>\<rparr>
        in Inr (if om_Labels (tapp_Meta tapp1) = None
                then tapp1\<lparr>tapp_Meta := (tapp_Meta tapp1)\<lparr>om_Labels := tappLabels\<rparr>\<rparr> else tapp1))"

type_synonym selector_maker = "LabelSelector option \<Rightarrow> selector result"

definition setScaleLabelSelector :: "selector_maker \<Rightarrow> TApp \<Rightarrow> TApp result" where
  "setScaleLabelSelector selectorOf tapp =
     (case selectorOf (spec_Selector (tapp_Spec tapp)) of
        Inl err \<Rightarrow> Inl err
      | Inr sel \<Rightarrow>
          let str = sel_String sel
          in if st_ScaleLabelSelector (tapp_Status tapp) = str then Inr tapp
             else Inr (tapp\<lparr>tapp_Status := (tapp_Status tapp)\<lparr>st_ScaleLabelSelector := str\<rparr>\<rparr>))"

text \<open>The result is the TApp as the caller sees it afterwards, or the error, with the world.\<close>

definition preprocessTApp ::
  "selector_maker \<Rightarrow> 'w tapp_request \<Rightarrow> 'w tapp_request \<Rightarrow> TApp \<Rightarrow> 'w \<Rightarrow> TApp result \<times> 'w" where
  "preprocessTApp selectorOf updateTApp updateStatus tapp w =
     (let (r0, w0) = (if om_Generation (tapp_Meta tapp) \<noteq> st_ObservedGeneration (tapp_Status tapp)
                      then updateTApp tapp w else (Inr tapp, w))
      in case r0 of
           Inl err \<Rightarrow> (Inl err, w0)
         | Inr new0 \<Rightarrow>
             let new1 = removeUnusedTemplate (setDefaultValue new0)
             in case setLabelSelector new1 of
                  Inl err \<Rightarrow> (Inl err, w0)
                | Inr new2 \<Rightarrow>
                    (case setScaleLabelSelector selectorOf new2 of
                       Inl err \<Rightarrow> (Inl err, w0)
                     | Inr new3 \<Rightarrow>
                         let (r1, w1) = (if \<not> spec_DeepEqual (tapp_Spec new3) (tapp_Spec tapp)
                                         then updateTApp new3 w0 else (Inr new3, w0))
                         in case r1 of
                              Inl err \<Rightarrow> (Inl err, w1)
                            | Inr new4 \<Rightarrow>
                                if \<not> status_DeepEqual (tapp_Status new4) (tapp_Status tapp)
                                then updateStatus new4 w1 else (Inr new4, w1)))"

lemmas preprocess_defs [model_defs] =
  meta_DeepEqual_def template_DeepEqual_def pool_DeepEqual_def claim_DeepEqual_def selector_DeepEqual_def
  spec_DeepEqual_def status_DeepEqual_def setDefaultValue_def removeUnusedTemplate_def setLabelSelector_def
  setScaleLabelSelector_def preprocessTApp_def

subsection \<open>Defaults\<close>

lemma setDefaultValue_simps [simp]:
  "tapp_Meta (setDefaultValue tapp) = tapp_Meta tapp" "tapp_Status (setDefaultValue tapp) = tapp_Status tapp"
  "spec_Template (tapp_Spec (setDefaultValue tapp)) = spec_Template (tapp_Spec tapp)"
  "spec_TemplatePool (tapp_Spec (setDefaultValue tapp)) = spec_TemplatePool (tapp_Spec tapp)"
  "spec_Templates (tapp_Spec (setDefaultValue tapp)) = spec_Templates (tapp_Spec tapp)"
  "spec_Selector (tapp_Spec (setDefaultValue tapp)) = spec_Selector (tapp_Spec tapp)"
  by (simp_all add: setDefaultValue_def Let_def)

definition defaulted :: "TApp \<Rightarrow> bool" where
  "defaulted tapp \<longleftrightarrow>
     spec_DefaultTemplateName (tapp_Spec tapp) \<noteq> '''' \<and> us_Template (spec_UpdateStrategy (tapp_Spec tapp)) \<noteq> '''' \<and>
     us_MaxUnavailable (spec_UpdateStrategy (tapp_Spec tapp)) \<noteq> None \<and>
     fu_MaxUnavailable (us_ForceUpdate (spec_UpdateStrategy (tapp_Spec tapp))) \<noteq> None"

lemma defaulted_setDefaultValue: "defaulted (setDefaultValue tapp)"
  by (auto simp: defaulted_def setDefaultValue_def Let_def DefaultTemplateName_def)

lemma setDefaultValue_defaulted: "defaulted tapp \<Longrightarrow> setDefaultValue tapp = tapp"
  by (simp add: defaulted_def setDefaultValue_def Let_def)

lemma defaulted_template_name: "defaulted tapp \<Longrightarrow> getRollingTemplateKey tapp \<noteq> ''''"
  by (simp add: defaulted_def getRollingTemplateKey_def Let_def)

subsection \<open>Unused templates\<close>

definition usedTemplates :: "TApp \<Rightarrow> string set" where
  "usedTemplates tapp =
     snd ` set (gm_entries (spec_Templates (tapp_Spec tapp))) \<union>
     (if spec_DefaultTemplateName (tapp_Spec tapp) \<noteq> DefaultTemplateName then {spec_DefaultTemplateName (tapp_Spec tapp)} else {}) \<union>
     (if getRollingTemplateKey tapp \<noteq> '''' then {getRollingTemplateKey tapp} else {})"

lemma fst_set_delete: "fst ` set (AList.delete k l) = fst ` set l - {k}"
  by (auto simp: AList.delete_eq image_iff)

lemma fst_fold_delete:
  "fst ` set (fold (\<lambda>(_, u). AList.delete u) us l) = fst ` set l - snd ` set us"
proof (induction us arbitrary: l)
  case (Cons u us)
  show ?case by (cases u) (simp add: Cons fst_set_delete, blast)
qed simp

lemma fold_gm_delete_lookup:
  "gm_lookup (fold (\<lambda>(k, _). gm_delete k) us m) i = (if i \<in> fst ` set us then None else gm_lookup m i)"
  by (induction us arbitrary: m) auto

lemma removeUnusedTemplate_lookup:
  "gm_lookup (spec_TemplatePool (tapp_Spec (removeUnusedTemplate tapp))) name =
     (if spec_AutoDeleteUnusedTemplate (tapp_Spec tapp) \<and> name \<notin> usedTemplates tapp then None
      else gm_lookup (spec_TemplatePool (tapp_Spec tapp)) name)"
proof -
  have none: "gm_lookup m name = None" if "name \<notin> fst ` set (map (\<lambda>(k, _). (k, True)) (gm_entries m))"
    for m :: "PodTemplateSpec gomap"
    using that by (force simp: gm_lookup_None_iff image_iff)
  show ?thesis
    using none [of "spec_TemplatePool (tapp_Spec tapp)"]
    by (auto simp: removeUnusedTemplate_def Let_def fold_gm_delete_lookup fst_fold_delete fst_set_delete usedTemplates_def)
qed

lemma removeUnusedTemplate_simps [simp]:
  "tapp_Meta (removeUnusedTemplate tapp) = tapp_Meta tapp" "tapp_Status (removeUnusedTemplate tapp) = tapp_Status tapp"
  "spec_Template (tapp_Spec (removeUnusedTemplate tapp)) = spec_Template (tapp_Spec tapp)"
  "spec_Templates (tapp_Spec (removeUnusedTemplate tapp)) = spec_Templates (tapp_Spec tapp)"
  "spec_Selector (tapp_Spec (removeUnusedTemplate tapp)) = spec_Selector (tapp_Spec tapp)"
  "spec_DefaultTemplateName (tapp_Spec (removeUnusedTemplate tapp)) = spec_DefaultTemplateName (tapp_Spec tapp)"
  "spec_UpdateStrategy (tapp_Spec (removeUnusedTemplate tapp)) = spec_UpdateStrategy (tapp_Spec tapp)"
  by (simp_all add: removeUnusedTemplate_def Let_def)

lemma getRollingTemplateKey_removeUnusedTemplate [simp]:
  "getRollingTemplateKey (removeUnusedTemplate tapp) = getRollingTemplateKey tapp"
  by (simp add: getRollingTemplateKey_def Let_def)

text \<open>C29. Removing unused templates is safe: no instance, of whatever number, loses its template, and
  neither does the rolling update; exactly the templates outside the used ones disappear.\<close>

theorem removeUnusedTemplate_safe:
  "getPodTemplate (tapp_Spec (removeUnusedTemplate tapp)) iid = getPodTemplate (tapp_Spec tapp) iid \<and>
   gm_lookup (spec_TemplatePool (tapp_Spec (removeUnusedTemplate tapp))) name =
     (if spec_AutoDeleteUnusedTemplate (tapp_Spec tapp) \<and> name \<notin> usedTemplates tapp then None
      else gm_lookup (spec_TemplatePool (tapp_Spec tapp)) name) \<and>
   getRollingTemplateKey (removeUnusedTemplate tapp) = getRollingTemplateKey tapp"
proof (intro conjI)
  let ?name = "getPodTemplateName (spec_Templates (tapp_Spec tapp)) iid (spec_DefaultTemplateName (tapp_Spec tapp))"
  have "?name = DefaultTemplateName \<or> ?name \<in> usedTemplates tapp"
    by (auto simp: getPodTemplateName_def usedTemplates_def gm_lookup_def split: option.split
        dest!: map_of_SomeD intro: rev_image_eqI)
  then show "getPodTemplate (tapp_Spec (removeUnusedTemplate tapp)) iid = getPodTemplate (tapp_Spec tapp) iid"
    by (auto simp: getPodTemplate_def Let_def removeUnusedTemplate_lookup)
qed (simp_all add: removeUnusedTemplate_lookup)

subsection \<open>Selectors\<close>

lemma fold_gm_delete_keys: "gm_lookup (fold gm_delete ks m) i = (if i \<in> set ks then None else gm_lookup m i)"
  by (induction ks arbitrary: m) auto

lemma GenerateTAppSelector_lookup:
  assumes "gm_wf labels"
  shows "gm_lookup (ls_MatchLabels (GenerateTAppSelector labels)) k =
    (if k \<in> set HashLabels then None else gm_lookup labels k)"
  using assms by (auto simp: GenerateTAppSelector_def Let_def HashLabels_def)

text \<open>The controller finds the pods it creates: when the selector is generated from the default
  template, every pod \<^verbatim>\<open>newInstance\<close> makes from that template carries all labels the selector asks
  for, whatever hash labels the template has meanwhile got; the generated labels never contain a hash.\<close>

theorem generated_selector_matches_new_pods:
  assumes "spec_Selector (tapp_Spec tapp) = None" "setLabelSelector tapp = Inr tapp'"
    and "gm_wf (pt_Labels (spec_Template (tapp_Spec tapp)))"
    and "gm_lookup (pt_Labels (spec_Template (tapp_Spec tapp))) TAppInstanceKey = None"
    and "getPodTemplate (tapp_Spec (updateTemplateHash spew tapp')) iid = Inr (updateHash spew (spec_Template (tapp_Spec tapp)))"
  shows "\<exists>ins sel. newInstance (updateTemplateHash spew tapp') iid = Inr (Inr ins) \<and>
    spec_Selector (tapp_Spec tapp') = Some sel \<and>
    (\<forall>k v. gm_lookup (ls_MatchLabels sel) k = Some v \<longrightarrow> gm_lookup (pod_Labels (ins_pod ins)) k = Some v) \<and>
    (\<forall>k \<in> set HashLabels. gm_lookup (ls_MatchLabels sel) k = None)"
proof -
  let ?t = "spec_Template (tapp_Spec tapp)" and ?T = "updateTemplateHash spew tapp'"
  have sel: "spec_Selector (tapp_Spec tapp') = Some (GenerateTAppSelector (pt_Labels ?t))"
    using assms(1,2) by (auto simp: setLabelSelector_def Let_def split: if_splits)
  have wf: "gm_wf (pt_Labels (updateHash spew ?t))"
    using assms(3) by (rule gm_wf_updateHash)
  have "spec_Selector (tapp_Spec ?T) = spec_Selector (tapp_Spec tapp')"
    by (simp add: updateTemplateHash_def Let_def)
  then have "storage_ready ?T" using sel by (simp add: storage_ready_def)
  then obtain ins where ins: "newInstance ?T iid = Inr (Inr ins)"
    and pod: "pod_of_template ?T (updateHash spew ?t) iid (ins_pod ins)"
    using newInstance_ok [OF assms(5)] by metis
  have "gm_lookup (pod_Labels (ins_pod ins)) k = Some v"
    if "gm_lookup (ls_MatchLabels (GenerateTAppSelector (pt_Labels ?t))) k = Some v" for k v
  proof -
    from that have k: "k \<notin> set HashLabels" "gm_lookup (pt_Labels ?t) k = Some v"
      by (auto simp: GenerateTAppSelector_lookup [OF assms(3)] split: if_splits)
    then have "k \<noteq> TAppInstanceKey" using assms(4) by auto
    then have "gm_lookup (pod_Labels (ins_pod ins)) k = gm_lookup (pt_Labels (updateHash spew ?t)) k"
      using pod wf by (simp add: pod_of_template_def)
    also have "\<dots> = gm_lookup (pt_Labels ?t) k"
      using default_hash.update_frame [of ?t spew] k(1) by (simp add: same_labels_except_def)
    finally show ?thesis using k(2) by simp
  qed
  then show ?thesis using ins sel GenerateTAppSelector_lookup [OF assms(3)] by auto
qed

theorem generated_selector_matches_new_pods_witness:
  "\<exists>tapp' ins sel. setLabelSelector (sampleTApp 1) = Inr tapp' \<and>
     newInstance (updateTemplateHash (\<lambda>_. '''') tapp') ''0'' = Inr (Inr ins) \<and>
     spec_Selector (tapp_Spec tapp') = Some sel \<and> gm_lookup (ls_MatchLabels sel) ''app'' = Some ''web'' \<and>
     gm_lookup (pod_Labels (ins_pod ins)) ''app'' = Some ''web''"
proof -
  obtain tapp' where t: "setLabelSelector (sampleTApp 1) = Inr tapp'"
    by (simp add: setLabelSelector_def Let_def sample_defs gm_len_def)
  have "getPodTemplate (tapp_Spec (updateTemplateHash (\<lambda>_. '''') tapp')) ''0'' =
      Inr (updateHash (\<lambda>_. '''') (spec_Template (tapp_Spec (sampleTApp 1))))"
    using t by (auto simp: setLabelSelector_def Let_def sample_defs gm_len_def updateTemplateHash_def
        getPodTemplate_def getPodTemplateName_def split: if_splits)
  from generated_selector_matches_new_pods [OF _ t _ _ this] obtain ins sel
    where r: "newInstance (updateTemplateHash (\<lambda>_. '''') tapp') ''0'' = Inr (Inr ins)"
      "spec_Selector (tapp_Spec tapp') = Some sel"
      "\<forall>k v. gm_lookup (ls_MatchLabels sel) k = Some v \<longrightarrow> gm_lookup (pod_Labels (ins_pod ins)) k = Some v"
    by (auto simp: sample_defs gm_wf_def TAppInstanceKey_def)
  have "sel = GenerateTAppSelector (Some [(''app'', ''web'')])"
    using t r(2) by (auto simp: setLabelSelector_def Let_def sample_defs gm_len_def)
  then have "gm_lookup (ls_MatchLabels sel) ''app'' = Some ''web''"
    by (simp add: GenerateTAppSelector_lookup gm_wf_def HashLabels_def TemplateHashKey_def UniqHashKey_def)
  with r t show ?thesis by blast
qed

subsection \<open>Preprocessing settles\<close>

text \<open>A TApp that needs nothing: its generation was observed, its defaults and selectors are set, and no
  unused template is to be removed.\<close>

definition prepared :: "selector_maker \<Rightarrow> TApp \<Rightarrow> bool" where
  "prepared selectorOf tapp \<longleftrightarrow>
     om_Generation (tapp_Meta tapp) = st_ObservedGeneration (tapp_Status tapp) \<and> defaulted tapp \<and>
     removeUnusedTemplate tapp = tapp \<and> spec_Selector (tapp_Spec tapp) \<noteq> None \<and>
     (\<exists>sel. selectorOf (spec_Selector (tapp_Spec tapp)) = Inr sel \<and>
        st_ScaleLabelSelector (tapp_Status tapp) = sel_String sel)"

text \<open>All maps of a specification have distinct keys.\<close>

definition meta_wf :: "ObjectMeta \<Rightarrow> bool" where
  "meta_wf m \<longleftrightarrow> gm_wf (om_Labels m) \<and> gm_wf (om_Annotations m)"

definition spec_wf :: "TAppSpec \<Rightarrow> bool" where
  "spec_wf s \<longleftrightarrow>
     gm_wf (spec_TemplatePool s) \<and> gm_wf (spec_Statuses s) \<and> gm_wf (spec_Templates s) \<and>
     meta_wf (pt_Meta (spec_Template s)) \<and>
     (\<forall>(_, t) \<in> set (gm_entries (spec_TemplatePool s)). meta_wf (pt_Meta t)) \<and>
     (\<forall>c \<in> set (spec_VolumeClaimTemplates s). meta_wf (pvc_Meta c)) \<and>
     (\<forall>sel. spec_Selector s = Some sel \<longrightarrow> gm_wf (ls_MatchLabels sel))"

lemma meta_DeepEqual_refl: "meta_wf m \<Longrightarrow> meta_DeepEqual m m"
  by (simp add: meta_wf_def meta_DeepEqual_def gm_DeepEqual_refl)

lemma spec_DeepEqual_refl:
  assumes "spec_wf s"
  shows "spec_DeepEqual s s"
proof -
  have pool: "pool_DeepEqual (spec_TemplatePool s) (spec_TemplatePool s)"
    using assms
    by (fastforce simp: spec_wf_def pool_DeepEqual_def list_all_iff gm_lookup_Some_iff [symmetric]
        template_DeepEqual_def intro: meta_DeepEqual_refl)
  have claims: "list_all2 claim_DeepEqual (spec_VolumeClaimTemplates s) (spec_VolumeClaimTemplates s)"
    using assms by (auto simp: spec_wf_def list_all2_same claim_DeepEqual_def intro: meta_DeepEqual_refl)
  have "selector_DeepEqual (spec_Selector s) (spec_Selector s)"
    using assms by (cases "spec_Selector s") (auto simp: spec_wf_def selector_DeepEqual_def gm_DeepEqual_refl)
  with pool claims assms show ?thesis
    by (simp add: spec_wf_def spec_DeepEqual_def template_DeepEqual_def meta_DeepEqual_refl gm_DeepEqual_refl)
qed

lemma prepared_no_request:
  assumes "prepared selectorOf tapp" "spec_wf (tapp_Spec tapp)" "gm_wf (st_Statuses (tapp_Status tapp))"
  shows "preprocessTApp selectorOf updateTApp updateStatus tapp w = (Inr tapp, w)"
  using assms spec_DeepEqual_refl [OF assms(2)]
  by (auto simp: prepared_def preprocessTApp_def setDefaultValue_defaulted setLabelSelector_def setScaleLabelSelector_def
      status_DeepEqual_def gm_DeepEqual_refl)

text \<open>Each step keeps what the previous ones established.\<close>

lemma fold_gm_delete_wf: "gm_wf m \<Longrightarrow> gm_wf (fold (\<lambda>(k, _). gm_delete k) us m)"
  by (induction us arbitrary: m) auto

lemma fold_gm_delete_subset: "set (gm_entries (fold (\<lambda>(k, _). gm_delete k) us m)) \<subseteq> set (gm_entries m)"
proof (induction us arbitrary: m)
  case (Cons u us)
  have "set (gm_entries (gm_delete (fst u) m)) \<subseteq> set (gm_entries m)"
    by (cases m) (auto simp: AList.delete_eq)
  from order_trans [OF Cons [of "gm_delete (fst u) m"] this] show ?case by (simp add: case_prod_beta)
qed simp

lemma removeUnusedTemplate_wf: "spec_wf (tapp_Spec tapp) \<Longrightarrow> spec_wf (tapp_Spec (removeUnusedTemplate tapp))"
  using fold_gm_delete_wf [of "spec_TemplatePool (tapp_Spec tapp)"] fold_gm_delete_subset [of _ "spec_TemplatePool (tapp_Spec tapp)"]
  unfolding spec_wf_def removeUnusedTemplate_def Let_def by (simp split: if_split) blast

text \<open>The keys left in \<^verbatim>\<open>templateMap\<close>, and that there are none the second time.\<close>

definition unusedKeys :: "TApp \<Rightarrow> (string \<times> bool) list" where
  "unusedKeys tapp =
     (let spec = tapp_Spec tapp;
          m0 = map (\<lambda>(k, _). (k, True)) (gm_entries (spec_TemplatePool spec));
          m1 = (if spec_DefaultTemplateName spec \<noteq> DefaultTemplateName
                then AList.delete (spec_DefaultTemplateName spec) m0 else m0);
          m2 = fold (\<lambda>(_, u). AList.delete u) (gm_entries (spec_Templates spec)) m1
      in if length (getRollingTemplateKey tapp) \<noteq> 0 then AList.delete (getRollingTemplateKey tapp) m2 else m2)"

lemma removeUnusedTemplate_unusedKeys:
  "removeUnusedTemplate tapp =
     (if \<not> spec_AutoDeleteUnusedTemplate (tapp_Spec tapp) then tapp
      else tapp\<lparr>tapp_Spec := (tapp_Spec tapp)\<lparr>spec_TemplatePool :=
        fold (\<lambda>(k, _). gm_delete k) (unusedKeys tapp) (spec_TemplatePool (tapp_Spec tapp))\<rparr>\<rparr>)"
  by (simp add: removeUnusedTemplate_def unusedKeys_def Let_def)

lemma set_unusedKeys: "fst ` set (unusedKeys tapp) = fst ` set (gm_entries (spec_TemplatePool (tapp_Spec tapp))) - usedTemplates tapp"
proof -
  have "fst ` set (map (\<lambda>(k, _). (k, True)) es) = fst ` set es" for es :: "PodTemplateSpec amap"
    by force
  then show ?thesis
    by (auto simp: unusedKeys_def Let_def fst_set_delete fst_fold_delete usedTemplates_def)
qed

lemma removeUnusedTemplate_idem: "removeUnusedTemplate (removeUnusedTemplate tapp) = removeUnusedTemplate tapp"
proof (cases "spec_AutoDeleteUnusedTemplate (tapp_Spec tapp)")
  case True
  let ?t = "removeUnusedTemplate tapp"
  have auto: "spec_AutoDeleteUnusedTemplate (tapp_Spec ?t)" using True by (simp add: removeUnusedTemplate_unusedKeys)
  have used: "usedTemplates ?t = usedTemplates tapp" by (simp add: usedTemplates_def)
  have "k \<in> usedTemplates tapp" if "k \<in> fst ` set (gm_entries (spec_TemplatePool (tapp_Spec ?t)))" for k
    using that removeUnusedTemplate_lookup [of tapp k] True gm_lookup_None_iff by fastforce
  then have "fst ` set (unusedKeys ?t) = {}" unfolding set_unusedKeys used by blast
  then have "unusedKeys ?t = []" by simp
  then show ?thesis by (subst removeUnusedTemplate_unusedKeys [of ?t]) (simp add: auto)
next
  case False
  then show ?thesis by (simp add: removeUnusedTemplate_unusedKeys)
qed

lemma removeUnusedTemplate_same_spec:
  assumes "tapp_Spec t' = tapp_Spec t" "removeUnusedTemplate t = t"
  shows "removeUnusedTemplate t' = t'"
proof -
  have "getRollingTemplateKey t' = getRollingTemplateKey t" using assms(1) by (simp only: getRollingTemplateKey_def)
  then have "unusedKeys t' = unusedKeys t" using assms(1) by (simp only: unusedKeys_def)
  moreover have "tapp_Spec (removeUnusedTemplate t) = tapp_Spec t" using assms(2) by simp
  ultimately have "tapp_Spec (removeUnusedTemplate t') = tapp_Spec t'"
    using assms(1) by (simp add: removeUnusedTemplate_unusedKeys split: if_splits)
  then show ?thesis by (simp add: removeUnusedTemplate_unusedKeys split: if_splits)
qed

lemma setLabelSelector_Inr:
  assumes "setLabelSelector tapp = Inr tapp'" "spec_wf (tapp_Spec tapp)"
  shows "spec_Selector (tapp_Spec tapp') \<noteq> None" "spec_wf (tapp_Spec tapp')"
    "removeUnusedTemplate tapp = tapp \<Longrightarrow> removeUnusedTemplate tapp' = tapp'"
    "defaulted tapp \<Longrightarrow> defaulted tapp'" "tapp_Status tapp' = tapp_Status tapp"
    "om_Generation (tapp_Meta tapp') = om_Generation (tapp_Meta tapp)"
proof -
  have wf: "gm_wf (ls_MatchLabels (GenerateTAppSelector l))" for l
    unfolding GenerateTAppSelector_def Let_def by (simp add: gm_wf_delete)
  have spec: "tapp_Spec tapp' = tapp_Spec tapp \<or>
      tapp_Spec tapp' = (tapp_Spec tapp)\<lparr>spec_Selector := Some (GenerateTAppSelector (pt_Labels (spec_Template (tapp_Spec tapp))))\<rparr>"
    and "spec_Selector (tapp_Spec tapp') \<noteq> None" "tapp_Status tapp' = tapp_Status tapp"
    "om_Generation (tapp_Meta tapp') = om_Generation (tapp_Meta tapp)"
    using assms(1) by (auto simp: setLabelSelector_def Let_def split: if_splits)
  then show "spec_Selector (tapp_Spec tapp') \<noteq> None" "tapp_Status tapp' = tapp_Status tapp"
    "om_Generation (tapp_Meta tapp') = om_Generation (tapp_Meta tapp)" by blast+
  show "spec_wf (tapp_Spec tapp')" using spec assms(2) wf by (auto simp: spec_wf_def)
  show "defaulted tapp \<Longrightarrow> defaulted tapp'" using spec by (auto simp: defaulted_def)
  assume idem: "removeUnusedTemplate tapp = tapp"
  have "getRollingTemplateKey tapp' = getRollingTemplateKey tapp"
    using spec by (auto simp: getRollingTemplateKey_def Let_def)
  then have "unusedKeys tapp' = unusedKeys tapp"
    "spec_AutoDeleteUnusedTemplate (tapp_Spec tapp') = spec_AutoDeleteUnusedTemplate (tapp_Spec tapp)"
    "spec_TemplatePool (tapp_Spec tapp') = spec_TemplatePool (tapp_Spec tapp)"
    using spec by (auto simp: unusedKeys_def Let_def)
  then show "removeUnusedTemplate tapp' = tapp'"
    using arg_cong [OF idem, of "\<lambda>t. spec_TemplatePool (tapp_Spec t)"]
    by (auto simp: removeUnusedTemplate_unusedKeys split: if_splits)
qed

text \<open>An API server that stores what it is sent.\<close>

definition echo :: "'w tapp_request" where
  "echo tapp w = (Inr tapp, w)"

lemma echo_if: "(if b then echo t w else (Inr t, w)) = (Inr t, w)"
  by (simp add: echo_def)

lemma preprocess_echo:
  assumes "preprocessTApp selectorOf echo echo tapp w = (Inr tapp', w')"
  shows "\<exists>new2 sel. setLabelSelector (removeUnusedTemplate (setDefaultValue tapp)) = Inr new2 \<and>
    selectorOf (spec_Selector (tapp_Spec new2)) = Inr sel \<and>
    tapp' = new2\<lparr>tapp_Status := (tapp_Status new2)\<lparr>st_ScaleLabelSelector := sel_String sel\<rparr>\<rparr>"
  using assms
  by (auto simp: preprocessTApp_def echo_def setScaleLabelSelector_def Let_def split: sum.splits if_splits)



end
