(* ===== verification/Events.thy ===== *)
theory Events
  imports Preprocess
begin

text \<open>
  The event side of \<^verbatim>\<open>pkg/tapp/controller.go\<close>: which TApp a pod belongs to, which pods a TApp
  owns, the pod and TApp event handlers, the work queue loop, and the namespace lister of
  \<^verbatim>\<open>pkg/client/listers/tappcontroller/v1/tapp.go\<close>.

  The caches and the helpers of the client libraries are the record \<open>informers\<close>: \<open>inf_visitTApps\<close> is
  \<^verbatim>\<open>cache.ListAllByNamespace\<close> (the objects its callback is called with, and the error),
  \<open>inf_getTAppByKey\<close> is \<^verbatim>\<open>Indexer.GetByKey\<close>, \<open>inf_listPods\<close> the pod lister, \<open>inf_everything\<close> is
  \<^verbatim>\<open>labels.Everything()\<close>, \<open>inf_controllerOf\<close> is \<^verbatim>\<open>metav1.GetControllerOf\<close> and \<open>inf_keyOf\<close> is
  \<^verbatim>\<open>cache.DeletionHandlingMetaNamespaceKeyFunc\<close>. The work queue is the record \<open>workqueue\<close> of its
  methods on a queue state \<open>'q\<close>.
\<close>

subsection \<open>Parameters\<close>

text \<open>What an informer hands to its handlers.\<close>

datatype event_object =
    PodObject Pod
  | TAppObject TApp
  | DeletedFinalStateUnknown string event_object
  | OtherObject string

record informers =
  inf_visitTApps :: "string \<Rightarrow> selector \<Rightarrow> TApp list \<times> error option"
  inf_getTAppByKey :: "string \<Rightarrow> TApp option result"
  inf_listPods :: "string \<Rightarrow> selector \<Rightarrow> Pod list result"
  inf_everything :: selector
  inf_selectorOf :: selector_maker
  inf_controllerOf :: "Pod \<Rightarrow> OwnerReference option"
  inf_keyOf :: "event_object \<Rightarrow> string result"
  inf_errorText :: "error \<Rightarrow> string"
  inf_showLabels :: "labels \<Rightarrow> string"

record 'q workqueue =
  wq_Get :: "'q \<Rightarrow> (string \<times> bool) \<times> 'q"
  wq_Add :: "string \<Rightarrow> 'q \<Rightarrow> 'q"
  wq_AddRateLimited :: "string \<Rightarrow> 'q \<Rightarrow> 'q"
  wq_Forget :: "string \<Rightarrow> 'q \<Rightarrow> 'q"
  wq_Done :: "string \<Rightarrow> 'q \<Rightarrow> 'q"

subsection \<open>The TApp lister\<close>

definition tAppNamespaceLister_List :: "informers \<Rightarrow> string \<Rightarrow> selector \<Rightarrow> TApp list \<times> error option" where
  "tAppNamespaceLister_List cx ns selector =
     (let (ms, err) = inf_visitTApps cx ns selector in (fold (\<lambda>m ret. ret @ [m]) ms [], err))"

definition tAppNamespaceLister_Get :: "informers \<Rightarrow> string \<Rightarrow> string \<Rightarrow> TApp result" where
  "tAppNamespaceLister_Get cx ns name =
     (case inf_getTAppByKey cx (ns @ ''/'' @ name) of
        Inl err \<Rightarrow> Inl err
      | Inr None \<Rightarrow> Inl NotFound
      | Inr (Some obj) \<Rightarrow> Inr obj)"

subsection \<open>TApps of pods and pods of TApps\<close>

text \<open>The loop over the listed TApps; the first invalid selector ends it.\<close>

primrec matchingTApps :: "informers \<Rightarrow> labels \<Rightarrow> TApp list \<Rightarrow> TApp list result" where
  "matchingTApps cx labels [] = Inr []"
| "matchingTApps cx labels (l # ls) =
     (case inf_selectorOf cx (spec_Selector (tapp_Spec l)) of
        Inl err \<Rightarrow> Inl (Errorf (''invalid selector: '' @ inf_errorText cx err))
      | Inr selector \<Rightarrow>
          if sel_Empty selector \<or> \<not> sel_Matches selector labels then matchingTApps cx labels ls
          else (case matchingTApps cx labels ls of Inl err \<Rightarrow> Inl err | Inr tapps \<Rightarrow> Inr (l # tapps)))"

definition getTAppForPod :: "informers \<Rightarrow> Pod \<Rightarrow> TApp result" where
  "getTAppForPod cx pod =
     (if gm_len (pod_Labels pod) = 0
      then Inl (Errorf (''no TApps found for pod '' @ pod_Name pod @ '' because it has no labels''))
      else case tAppNamespaceLister_List cx (pod_Namespace pod) (inf_everything cx) of
             (_, Some err) \<Rightarrow> Inl err
           | (list, None) \<Rightarrow>
               (case matchingTApps cx (pod_Labels pod) list of
                  Inl err \<Rightarrow> Inl err
                | Inr tapps \<Rightarrow>
                    if length tapps = 0
                    then Inl (Errorf (''could not find tapps for pod '' @ pod_Name pod @ '' in namespace '' @
                           pod_Namespace pod @ '' with labels: '' @ inf_showLabels cx (pod_Labels pod)))
                    else let tapps = (if length tapps > 1 then overlappingTApps_sort tapps else tapps)
                         in Inr (hd tapps)))"

definition getPodsForTApp :: "informers \<Rightarrow> TApp \<Rightarrow> Pod list result" where
  "getPodsForTApp cx tapp =
     (case inf_selectorOf cx (spec_Selector (tapp_Spec tapp)) of
        Inl err \<Rightarrow> Inl err
      | Inr sel \<Rightarrow>
          (case inf_listPods cx (tapp_Namespace tapp) sel of
             Inl err \<Rightarrow> Inl err
           | Inr pods \<Rightarrow>
               Inr (fold (\<lambda>pod res.
                 case inf_controllerOf cx pod of
                   None \<Rightarrow> res
                 | Some controllerRef \<Rightarrow> if or_UID controllerRef = tapp_UID tapp then res @ [pod] else res)
                 pods [])))"

subsection \<open>Event handlers\<close>

definition enqueueTApp :: "informers \<Rightarrow> 'q workqueue \<Rightarrow> event_object \<Rightarrow> 'q \<Rightarrow> 'q" where
  "enqueueTApp cx wq obj q = (case inf_keyOf cx obj of Inl err \<Rightarrow> q | Inr key \<Rightarrow> wq_Add wq key q)"

text \<open>\<^verbatim>\<open>if tapp, err := c.getTAppForPod(pod); err == nil { c.enqueueTApp(tapp) }\<close>\<close>

definition enqueueForPod :: "informers \<Rightarrow> 'q workqueue \<Rightarrow> Pod \<Rightarrow> 'q \<Rightarrow> 'q" where
  "enqueueForPod cx wq pod q =
     (case getTAppForPod cx pod of Inl err \<Rightarrow> q | Inr tapp \<Rightarrow> enqueueTApp cx wq (TAppObject tapp) q)"

definition Controller_addPod :: "informers \<Rightarrow> 'q workqueue \<Rightarrow> event_object \<Rightarrow> 'q \<Rightarrow> 'q go" where
  "Controller_addPod cx wq obj q =
     (case obj of PodObject pod \<Rightarrow> Inr (enqueueForPod cx wq pod q) | _ \<Rightarrow> Inl TypeAssertion)"

definition Controller_updatePod :: "informers \<Rightarrow> 'q workqueue \<Rightarrow> event_object \<Rightarrow> event_object \<Rightarrow> 'q \<Rightarrow> 'q go" where
  "Controller_updatePod cx wq old cur q =
     (case (cur, old) of
        (PodObject curPod, PodObject oldPod) \<Rightarrow>
          if om_ResourceVersion (pod_Meta curPod) = om_ResourceVersion (pod_Meta oldPod) then Inr q
          else let q1 = enqueueForPod cx wq curPod q
               in Inr (if \<not> gm_DeepEqual (pod_Labels curPod) (pod_Labels oldPod)
                       then enqueueForPod cx wq oldPod q1 else q1)
      | _ \<Rightarrow> Inl TypeAssertion)"

definition Controller_deletePod :: "informers \<Rightarrow> 'q workqueue \<Rightarrow> event_object \<Rightarrow> 'q \<Rightarrow> 'q" where
  "Controller_deletePod cx wq obj q =
     (case obj of
        PodObject pod \<Rightarrow> enqueueForPod cx wq pod q
      | DeletedFinalStateUnknown key (PodObject pod) \<Rightarrow> enqueueForPod cx wq pod q
      | _ \<Rightarrow> q)"

text \<open>The three handlers of the TApp informer.\<close>

definition addTAppFunc :: "informers \<Rightarrow> 'q workqueue \<Rightarrow> event_object \<Rightarrow> 'q \<Rightarrow> 'q" where
  "addTAppFunc cx wq obj q = enqueueTApp cx wq obj q"

definition updateTAppFunc :: "informers \<Rightarrow> 'q workqueue \<Rightarrow> event_object \<Rightarrow> event_object \<Rightarrow> 'q \<Rightarrow> 'q go" where
  "updateTAppFunc cx wq old cur q =
     (case (old, cur) of (TAppObject oldTApp, TAppObject curTApp) \<Rightarrow> Inr (enqueueTApp cx wq cur q)
      | _ \<Rightarrow> Inl TypeAssertion)"

definition deleteTAppFunc :: "informers \<Rightarrow> 'q workqueue \<Rightarrow> event_object \<Rightarrow> 'q \<Rightarrow> 'q" where
  "deleteTAppFunc cx wq obj q = enqueueTApp cx wq obj q"

subsection \<open>The worker\<close>

text \<open>One iteration of \<^verbatim>\<open>runWorker\<close>: the handler works on a world of its own. A panic of the handler
  leaves the iteration after the deferred \<^verbatim>\<open>Done\<close>; it is the result, with the queue. The \<^verbatim>\<open>return\<close> on
  \<^verbatim>\<open>quit\<close> leaves the closure, not the loop.\<close>

definition worker_iteration ::
  "'q workqueue \<Rightarrow> (string \<Rightarrow> 'w \<Rightarrow> (error option \<times> 'w) go) \<Rightarrow> 'q \<times> 'w \<Rightarrow> go_panic option \<times> 'q \<times> 'w" where
  "worker_iteration wq syncHandler s =
     (case s of (q, w) \<Rightarrow>
        (case wq_Get wq q of ((key, quit), q1) \<Rightarrow>
           if quit then (None, q1, w)
           else (case syncHandler key w of
                   Inl p \<Rightarrow> (Some p, wq_Done wq key q1, w)
                 | Inr (Some err, w1) \<Rightarrow> (None, wq_Done wq key (wq_AddRateLimited wq key q1), w1)
                 | Inr (None, w1) \<Rightarrow> (None, wq_Done wq key (wq_Forget wq key q1), w1))))"

text \<open>\<open>n\<close> iterations of the endless loop, or fewer when one panics.\<close>

fun runWorker ::
  "'q workqueue \<Rightarrow> (string \<Rightarrow> 'w \<Rightarrow> (error option \<times> 'w) go) \<Rightarrow> nat \<Rightarrow> 'q \<times> 'w \<Rightarrow> go_panic option \<times> 'q \<times> 'w" where
  "runWorker wq syncHandler 0 s = (None, s)"
| "runWorker wq syncHandler (Suc n) s =
     (case worker_iteration wq syncHandler s of
        (None, s1) \<Rightarrow> runWorker wq syncHandler n s1
      | (Some p, s1) \<Rightarrow> (Some p, s1))"

lemmas event_defs [model_defs] =
  tAppNamespaceLister_List_def tAppNamespaceLister_Get_def getTAppForPod_def getPodsForTApp_def enqueueTApp_def
  enqueueForPod_def Controller_addPod_def Controller_updatePod_def Controller_deletePod_def
  addTAppFunc_def updateTAppFunc_def deleteTAppFunc_def worker_iteration_def

subsection \<open>Which TApp a pod belongs to\<close>

definition selects :: "informers \<Rightarrow> labels \<Rightarrow> TApp \<Rightarrow> bool" where
  "selects cx labels t =
     (case inf_selectorOf cx (spec_Selector (tapp_Spec t)) of
        Inl _ \<Rightarrow> False | Inr sel \<Rightarrow> \<not> sel_Empty sel \<and> sel_Matches sel labels)"

definition valid_selector :: "informers \<Rightarrow> TApp \<Rightarrow> bool" where
  "valid_selector cx t = (case inf_selectorOf cx (spec_Selector (tapp_Spec t)) of Inl _ \<Rightarrow> False | Inr _ \<Rightarrow> True)"

lemma fold_snoc: "fold (\<lambda>m ret. ret @ [m]) ms acc = acc @ ms"
  by (induction ms arbitrary: acc) auto

lemma lister_List [simp]: "tAppNamespaceLister_List cx ns sel = inf_visitTApps cx ns sel"
  by (simp add: tAppNamespaceLister_List_def fold_snoc case_prod_beta)

lemma matchingTApps_valid:
  "\<forall>t \<in> set ts. valid_selector cx t \<Longrightarrow> matchingTApps cx labels ts = Inr (filter (selects cx labels) ts)"
  by (induction ts) (auto simp: valid_selector_def selects_def split: sum.splits)

text \<open>The TApps a pod may belong to.\<close>

abbreviation candidates :: "informers \<Rightarrow> Pod \<Rightarrow> TApp list \<Rightarrow> TApp list" where
  "candidates cx pod ts \<equiv> filter (selects cx (pod_Labels pod)) ts"

lemma getTAppForPod_eq:
  assumes "inf_visitTApps cx (pod_Namespace pod) (inf_everything cx) = (ts, None)"
    and "\<forall>t \<in> set ts. valid_selector cx t" "gm_len (pod_Labels pod) \<noteq> 0" "candidates cx pod ts \<noteq> []"
  shows "getTAppForPod cx pod =
    Inr (hd (if length (candidates cx pod ts) > 1 then overlappingTApps_sort (candidates cx pod ts) else candidates cx pod ts))"
  using assms by (simp add: getTAppForPod_def matchingTApps_valid Let_def)

lemma short_sorted: "\<not> length ts > 1 \<Longrightarrow> overlapping.sorted_by ts"
  by (cases ts rule: remdups_adj.cases) (auto simp: overlapping.sorted_by_def)

lemma getTAppForPod_sorted:
  assumes "inf_visitTApps cx (pod_Namespace pod) (inf_everything cx) = (ts, None)"
    and "\<forall>t \<in> set ts. valid_selector cx t" "gm_len (pod_Labels pod) \<noteq> 0" "candidates cx pod ts \<noteq> []"
  obtains us where "getTAppForPod cx pod = Inr (hd us)" "overlapping.sorted_by us"
    "set us = set (candidates cx pod ts)" "us \<noteq> []"
proof -
  let ?c = "candidates cx pod ts"
  let ?us = "if length ?c > 1 then overlappingTApps_sort ?c else ?c"
  have "overlapping.sorted_by ?us" "set ?us = set ?c"
    using overlappingTApps_sort_props [of ?c] short_sorted [of ?c] by (simp_all split: if_split)
  moreover from this(2) have "?us \<noteq> []" using assms(4) by (metis set_empty)
  ultimately show thesis using that [of ?us] getTAppForPod_eq [OF assms] by blast
qed

lemma getTAppForPod_none:
  assumes "inf_visitTApps cx (pod_Namespace pod) (inf_everything cx) = (ts, None)"
    and "\<forall>t \<in> set ts. valid_selector cx t" "gm_len (pod_Labels pod) = 0 \<or> candidates cx pod ts = []"
  shows "\<exists>err. getTAppForPod cx pod = Inl err"
  using assms by (auto simp: getTAppForPod_def matchingTApps_valid)

text \<open>C25. Ownership by label: with a working lister and valid selectors, a pod belongs to a TApp exactly
  when it has labels and some listed TApp has a non-empty selector that matches them (an empty selector
  matches nothing), and then to the oldest such TApp, the least in name among equally old ones; the order
  in which the lister returns the TApps has no influence, as names are unique in a namespace.\<close>

theorem getTAppForPod_oldest:
  assumes "inf_visitTApps cx (pod_Namespace pod) (inf_everything cx) = (ts, None)"
    and "\<forall>t \<in> set ts. valid_selector cx t" "inj_on tapp_Name (set ts)"
  shows "(\<forall>t. getTAppForPod cx pod = Inr t \<longleftrightarrow>
      gm_len (pod_Labels pod) \<noteq> 0 \<and> t \<in> set ts \<and> selects cx (pod_Labels pod) t \<and>
      (\<forall>u \<in> set ts. selects cx (pod_Labels pod) u \<and> u \<noteq> t \<longrightarrow> overlappingTApps_Less t u))"
proof (cases "gm_len (pod_Labels pod) = 0 \<or> candidates cx pod ts = []")
  case True
  then show ?thesis using getTAppForPod_none [OF assms(1,2) True] by (auto simp: filter_empty_conv)
next
  case False
  then obtain us where us: "getTAppForPod cx pod = Inr (hd us)" "overlapping.sorted_by us"
    "set us = set (candidates cx pod ts)" "us \<noteq> []"
    using getTAppForPod_sorted [OF assms(1,2)] by blast
  have total: "overlappingTApps_Less t u \<or> overlappingTApps_Less u t" if "t \<in> set ts" "u \<in> set ts" "t \<noteq> u" for t u
  proof -
    have "tapp_Name t \<noteq> tapp_Name u" using assms(3) that by (auto dest: inj_onD)
    then show ?thesis by (auto simp: overlappingTApps_Less_def)
  qed
  have least: "overlappingTApps_Less (hd us) u" if "u \<in> set ts" "selects cx (pod_Labels pod) u" "u \<noteq> hd us" for u
    using overlapping.hd_sorted_minimal [OF us(2), of u] that us(3) total [of "hd us" u] hd_in_set [OF us(4)] by auto
  have hd: "hd us \<in> set ts" "selects cx (pod_Labels pod) (hd us)" using us(3) hd_in_set [OF us(4)] by auto
  show ?thesis
  proof (intro allI iffI)
    fix t assume "getTAppForPod cx pod = Inr t"
    then show "gm_len (pod_Labels pod) \<noteq> 0 \<and> t \<in> set ts \<and> selects cx (pod_Labels pod) t \<and>
        (\<forall>u \<in> set ts. selects cx (pod_Labels pod) u \<and> u \<noteq> t \<longrightarrow> overlappingTApps_Less t u)"
      using us(1) hd least False by auto
  next
    fix t assume t: "gm_len (pod_Labels pod) \<noteq> 0 \<and> t \<in> set ts \<and> selects cx (pod_Labels pod) t \<and>
        (\<forall>u \<in> set ts. selects cx (pod_Labels pod) u \<and> u \<noteq> t \<longrightarrow> overlappingTApps_Less t u)"
    have "hd us = t"
    proof (rule ccontr)
      assume "hd us \<noteq> t"
      then have "overlappingTApps_Less t (hd us)" "overlappingTApps_Less (hd us) t" using t hd least by auto
      then show False using overlapping.trans overlapping.irrefl by blast
    qed
    then show "getTAppForPod cx pod = Inr t" using us(1) by simp
  qed
qed

text \<open>Caches for the witnesses: two TApps that select every pod, one a day older, and a controller lookup
  by the first reference marked as controller.\<close>

definition sampleSelector :: selector where
  "sampleSelector = \<lparr>sel_Empty = False, sel_Matches = \<lambda>_. True, sel_String = ''app=web''\<rparr>"

definition olderTApp :: TApp where
  "olderTApp = (sampleTApp 1)\<lparr>tapp_Meta := (sampleMeta ''old'')\<lparr>om_CreationTimestamp := -86400\<rparr>\<rparr>"

definition sampleCaches :: "Pod list \<Rightarrow> informers" where
  "sampleCaches pods = \<lparr>inf_visitTApps = \<lambda>_ _. ([sampleTApp 1, olderTApp], None), inf_getTAppByKey = \<lambda>_. Inr (Some (sampleTApp 1)),
     inf_listPods = \<lambda>_ _. Inr pods, inf_everything = \<lparr>sel_Empty = True, sel_Matches = \<lambda>_. True, sel_String = ''''\<rparr>,
     inf_selectorOf = \<lambda>_. Inr sampleSelector,
     inf_controllerOf = \<lambda>p. List.find (\<lambda>r. or_Controller r = Some True) (om_OwnerReferences (pod_Meta p)),
     inf_keyOf = \<lambda>obj. case obj of TAppObject t \<Rightarrow> Inr (GetTAppFullName t) | _ \<Rightarrow> Inl NotFound,
     inf_errorText = \<lambda>_. '''', inf_showLabels = \<lambda>_. ''''\<rparr>"

lemmas sample_caches_defs = sampleSelector_def olderTApp_def sampleCaches_def

theorem getTAppForPod_oldest_witness: "getTAppForPod (sampleCaches []) (samplePod ''0'') = Inr olderTApp"
  using getTAppForPod_oldest [of "sampleCaches []" "samplePod ''0''" "[sampleTApp 1, olderTApp]"]
  by (simp add: sample_caches_defs valid_selector_def selects_def sample_defs gm_len_def overlappingTApps_Less_def)

subsection \<open>Pod updates\<close>

text \<open>A selector looks at a label map only through its entries.\<close>

definition selectors_read_maps :: "informers \<Rightarrow> bool" where
  "selectors_read_maps cx \<longleftrightarrow>
     (\<forall>s sel l l'. inf_selectorOf cx s = Inr sel \<longrightarrow> gm_DeepEqual l l' \<longrightarrow> sel_Matches sel l = sel_Matches sel l')"

lemma matchingTApps_DeepEqual:
  assumes "selectors_read_maps cx" "gm_DeepEqual l l'"
  shows "matchingTApps cx l ts = matchingTApps cx l' ts"
proof (induction ts)
  case (Cons t ts)
  have "sel_Matches sel l = sel_Matches sel l'" if "inf_selectorOf cx (spec_Selector (tapp_Spec t)) = Inr sel" for sel
    using assms that by (auto simp: selectors_read_maps_def)
  with Cons show ?case by (simp split: sum.split)
qed simp

lemma getTAppForPod_DeepEqual:
  assumes "selectors_read_maps cx" "gm_DeepEqual (pod_Labels p) (pod_Labels p')" "pod_Namespace p = pod_Namespace p'"
    and "getTAppForPod cx p' = Inr t"
  shows "getTAppForPod cx p = Inr t"
proof -
  have "gm_len (pod_Labels p) = gm_len (pod_Labels p')" using assms(2) by (simp add: gm_DeepEqual_def)
  then show ?thesis
    using assms(3,4) matchingTApps_DeepEqual [OF assms(1,2)]
    by (auto simp: getTAppForPod_def split: prod.splits option.splits sum.splits if_splits)
qed

lemma enqueueForPod_keys:
  assumes "\<forall>k q. keys (wq_Add wq k q) = insert k (keys q)"
  shows "keys (enqueueForPod cx wq pod q) =
    keys q \<union> {key. \<exists>t. getTAppForPod cx pod = Inr t \<and> inf_keyOf cx (TAppObject t) = Inr key}"
  using assms by (auto simp: enqueueForPod_def enqueueTApp_def split: sum.splits)

text \<open>No pod update is lost: after an update event that is not a resync, both the TApp the pod belongs
  to now and the one it belonged to before are in the queue, also when the handler looks only at the
  current pod because the labels are unchanged; nothing else is added and nothing is removed.\<close>

theorem updatePod_wakes_both:
  assumes "om_ResourceVersion (pod_Meta cur) \<noteq> om_ResourceVersion (pod_Meta old)"
    and "pod_Namespace cur = pod_Namespace old" "selectors_read_maps cx"
    and "\<forall>k q. keys (wq_Add wq k q) = insert k (keys q)"
  shows "\<exists>q'. Controller_updatePod cx wq (PodObject old) (PodObject cur) q = Inr q' \<and>
    keys q' = keys q \<union> {key. \<exists>t. (getTAppForPod cx cur = Inr t \<or> getTAppForPod cx old = Inr t) \<and>
      inf_keyOf cx (TAppObject t) = Inr key}"
proof (cases "gm_DeepEqual (pod_Labels cur) (pod_Labels old)")
  case True
  have "getTAppForPod cx cur = Inr t" if "getTAppForPod cx old = Inr t" for t
    by (rule getTAppForPod_DeepEqual [OF assms(3) True assms(2) that])
  then show ?thesis
    using assms(1) True enqueueForPod_keys [OF assms(4), of cx cur q] by (auto simp: Controller_updatePod_def Let_def)
next
  case False
  then show ?thesis
    using assms(1) enqueueForPod_keys [OF assms(4), of cx cur q]
      enqueueForPod_keys [OF assms(4), of cx old "enqueueForPod cx wq cur q"]
    by (auto simp: Controller_updatePod_def Let_def)
qed

definition sampleQueue :: "string list workqueue" where
  "sampleQueue = \<lparr>wq_Get = \<lambda>q. case q of [] \<Rightarrow> (('''', True), q) | k # ks \<Rightarrow> ((k, False), ks),
     wq_Add = List.insert, wq_AddRateLimited = List.insert, wq_Forget = \<lambda>_ q. q, wq_Done = \<lambda>_ q. q\<rparr>"

theorem updatePod_wakes_both_witness:
  "\<exists>q'. Controller_updatePod (sampleCaches []) sampleQueue (PodObject (samplePod ''0''))
      (PodObject (samplePod ''0''\<lparr>pod_Meta := (pod_Meta (samplePod ''0''))\<lparr>om_ResourceVersion := ''2''\<rparr>\<rparr>)) [] = Inr q' \<and>
    set q' = {''ns/old''}"
proof -
  let ?old = "samplePod ''0''" and ?cx = "sampleCaches []"
  let ?cur = "?old\<lparr>pod_Meta := (pod_Meta ?old)\<lparr>om_ResourceVersion := ''2''\<rparr>\<rparr>"
  have t: "getTAppForPod ?cx ?old = Inr olderTApp" "getTAppForPod ?cx ?cur = Inr olderTApp"
    by (simp_all add: getTAppForPod_def sample_caches_defs sample_defs gm_len_def Let_def overlappingTApps_sort_def
        overlappingTApps_Less_def)
  have "om_ResourceVersion (pod_Meta ?cur) \<noteq> om_ResourceVersion (pod_Meta ?old)"
    "pod_Namespace ?cur = pod_Namespace ?old" "selectors_read_maps ?cx"
    "\<forall>k q. set (wq_Add sampleQueue k q) = insert k (set q)"
    by (simp_all add: sample_defs sample_caches_defs selectors_read_maps_def sampleQueue_def)
  from updatePod_wakes_both [OF this, of "[]"] show ?thesis
    by (auto simp: t) (auto simp: sample_caches_defs sample_defs GetTAppFullName_def)
qed

subsection \<open>The pods of a TApp\<close>

lemma owned_fold:
  "fold (\<lambda>pod res. case f pod of None \<Rightarrow> res | Some r \<Rightarrow> if or_UID r = u then res @ [pod] else res) pods acc =
   acc @ filter (\<lambda>pod. \<exists>r. f pod = Some r \<and> or_UID r = u) pods"
  by (induction pods arbitrary: acc) (auto split: option.splits)

lemma getPodsForTApp_Inr:
  assumes "getPodsForTApp cx tapp = Inr pods"
  obtains sel listed where "inf_selectorOf cx (spec_Selector (tapp_Spec tapp)) = Inr sel"
    "inf_listPods cx (tapp_Namespace tapp) sel = Inr listed"
    "pods = filter (\<lambda>pod. \<exists>r. inf_controllerOf cx pod = Some r \<and> or_UID r = tapp_UID tapp) listed"
  using assms by (auto simp: getPodsForTApp_def owned_fold split: sum.splits)

text \<open>\<^verbatim>\<open>metav1.GetControllerOf\<close> returns the first owner reference that is marked as controller.\<close>

definition finds_controller :: "informers \<Rightarrow> bool" where
  "finds_controller cx \<longleftrightarrow>
     (\<forall>pod. inf_controllerOf cx pod = List.find (\<lambda>r. or_Controller r = Some True) (om_OwnerReferences (pod_Meta pod)))"

text \<open>C26. Ownership by controller reference: the pods a TApp works on are exactly the listed ones whose
  controller reference carries its UID. A pod \<^verbatim>\<open>newInstance\<close> makes for it is always among them once it is
  listed, and one made for a TApp with another UID never is, whatever its labels.\<close>

theorem getPodsForTApp_owned:
  assumes "finds_controller cx" "inf_selectorOf cx (spec_Selector (tapp_Spec tapp)) = Inr sel"
    and "inf_listPods cx (tapp_Namespace tapp) sel = Inr listed"
    and "newInstance owner iid = Inr (Inr ins)" "storage_ready owner" "ins_pod ins \<in> set listed"
  shows "\<exists>pods. getPodsForTApp cx tapp = Inr pods \<and>
    set pods = {p \<in> set listed. \<exists>r. inf_controllerOf cx p = Some r \<and> or_UID r = tapp_UID tapp} \<and>
    (ins_pod ins \<in> set pods \<longleftrightarrow> tapp_UID owner = tapp_UID tapp)"
proof -
  from assms(4,5) have "om_OwnerReferences (pod_Meta (ins_pod ins)) = [getControllerRef owner]"
    by (cases rule: newInstance_Inr_cases) (auto simp: pod_of_template_def)
  then have "inf_controllerOf cx (ins_pod ins) = Some (getControllerRef owner)"
    "or_UID (getControllerRef owner) = tapp_UID owner"
    using assms(1) by (simp_all add: finds_controller_def getControllerRef_def case_prod_beta)
  then show ?thesis using assms(2,3,6) by (auto simp: getPodsForTApp_def owned_fold)
qed

theorem getPodsForTApp_owned_witness:
  "\<exists>ins pods. newInstance (sampleTApp 1) ''0'' = Inr (Inr ins) \<and>
     getPodsForTApp (sampleCaches [ins_pod ins]) (sampleTApp 1) = Inr pods \<and> ins_pod ins \<in> set pods"
proof -
  have "getPodTemplate (tapp_Spec (sampleTApp 1)) ''0'' = Inr (sampleTemplate ''web:1'')"
    by (simp add: getPodTemplate_def getPodTemplateName_def sample_defs)
  moreover have ready: "storage_ready (sampleTApp 1)" by (simp add: storage_ready_def sample_defs)
  ultimately obtain ins where ins: "newInstance (sampleTApp 1) ''0'' = Inr (Inr ins)"
    using newInstance_ok by metis
  have "finds_controller (sampleCaches [ins_pod ins])" by (simp add: finds_controller_def sampleCaches_def)
  from getPodsForTApp_owned [OF this _ _ ins ready, of "sampleTApp 1" sampleSelector "[ins_pod ins]"] ins
  show ?thesis by (auto simp: sampleCaches_def)
qed

end
