(* ===== verification/Rollout.thy ===== *)
theory Rollout
  imports Pod_Actions
begin

text \<open>
  \<^verbatim>\<open>transformPodActions\<close> and \<^verbatim>\<open>instanceToSync\<close> of \<^verbatim>\<open>pkg/tapp/controller.go\<close>: the actions
  become four lists of instances, under the two unavailability budgets (force update and rolling
  update).

  Go visits a map in an unspecified order, and the function ranges over the action map twice; the
  two visiting orders are arguments, and every theorem holds for all of them. Looking up a node is
  a parameter (the node lister), as is \<^verbatim>\<open>intstr.GetValueFromIntOrPercent\<close>.
\<close>

type_synonym node_getter = "string \<Rightarrow> Node result"
type_synonym percent_getter = "IntOrString \<Rightarrow> int \<Rightarrow> bool \<Rightarrow> int result"

record sync_plan =
  plan_add :: "Instance list"
  plan_del :: "Instance list"
  plan_forceDel :: "Instance list"
  plan_update :: "Instance list"

text \<open>The local variables of the function: the results so far, \<^verbatim>\<open>availablePods\<close> and
  \<^verbatim>\<open>rollingUpdateIds\<close>.\<close>

record rollout =
  ro_plan :: sync_plan
  ro_available :: "string set"
  ro_rolling :: "string list"

definition add_instance :: "Instance \<Rightarrow> rollout \<Rightarrow> rollout" where
  "add_instance ins s = s\<lparr>ro_plan := (ro_plan s)\<lparr>plan_add := plan_add (ro_plan s) @ [ins]\<rparr>\<rparr>"

definition del_instance :: "Instance \<Rightarrow> rollout \<Rightarrow> rollout" where
  "del_instance ins s = s\<lparr>ro_plan := (ro_plan s)\<lparr>plan_del := plan_del (ro_plan s) @ [ins]\<rparr>\<rparr>"

definition forceDel_instance :: "Instance \<Rightarrow> rollout \<Rightarrow> rollout" where
  "forceDel_instance ins s = s\<lparr>ro_plan := (ro_plan s)\<lparr>plan_forceDel := plan_forceDel (ro_plan s) @ [ins]\<rparr>\<rparr>"

definition update_instance :: "Instance \<Rightarrow> rollout \<Rightarrow> rollout" where
  "update_instance ins s = s\<lparr>ro_plan := (ro_plan s)\<lparr>plan_update := plan_update (ro_plan s) @ [ins]\<rparr>\<rparr>"

definition not_available :: "string \<Rightarrow> rollout \<Rightarrow> rollout" where
  "not_available p s = s\<lparr>ro_available := ro_available s - {p}\<rparr>"

definition isInRollingUpdate :: "TApp \<Rightarrow> string \<Rightarrow> bool" where
  "isInRollingUpdate tapp podId =
     (let rollingTemplateName = getRollingTemplateKey tapp;
          templateName = getPodTemplateName (spec_Templates (tapp_Spec tapp)) podId
            (spec_DefaultTemplateName (tapp_Spec tapp))
      in templateName = rollingTemplateName)"

definition needForceDelete :: "node_getter \<Rightarrow> TApp \<Rightarrow> Pod option \<Rightarrow> bool" where
  "needForceDelete nodeGet tapp pod =
     (case pod of
        None \<Rightarrow> False
      | Some p \<Rightarrow>
          if isPodDying pod \<and> spec_ForceDeletePod (tapp_Spec tapp) \<and> length (ps_NodeName (pod_Spec p)) \<noteq> 0
          then (case nodeGet (ps_NodeName (pod_Spec p)) of
                  Inl err \<Rightarrow> IsNotFound err
                | Inr node \<Rightarrow>
                    (case List.find (\<lambda>c. nc_Type c = NodeReady) (node_Conditions node) of
                       Some c \<Rightarrow> nc_Status c = ConditionFalse \<or> nc_Status c = ConditionUnknown
                     | None \<Rightarrow> False))
          else False)"

text \<open>The first loop: deletions and creations.\<close>

definition delete_create_step ::
  "node_getter \<Rightarrow> TApp \<Rightarrow> PodAction amap \<Rightarrow> Pod amap \<Rightarrow> string \<Rightarrow> rollout \<Rightarrow> rollout go" where
  "delete_create_step nodeGet tapp podActions podMap p s =
     (let pod = map_of podMap p
      in case map_of podActions p of
           Some deletePod \<Rightarrow>
             (case pod of
                None \<Rightarrow> Inl NilDereference
              | Some pd \<Rightarrow>
                  (case newInstanceWithPod tapp pd of
                     Inl err \<Rightarrow> Inr s
                   | Inr ins \<Rightarrow>
                       Inr (not_available p
                         (if needForceDelete nodeGet tapp pod then forceDel_instance ins s
                          else if \<not> isPodDying pod then del_instance ins s else s))))
         | Some createPod \<Rightarrow>
             go_bind (newInstance tapp p) (\<lambda>r.
               case r of Inr ins \<Rightarrow> Inr (add_instance ins s) | Inl err \<Rightarrow> Inr s)
         | _ \<Rightarrow> Inr s)"

text \<open>An in-place update and a recreation of one pod, shared by the two update loops.\<close>

definition do_update :: "TApp \<Rightarrow> string \<Rightarrow> rollout \<Rightarrow> rollout go" where
  "do_update tapp p s =
     go_bind (newInstance tapp p) (\<lambda>r.
       case r of
         Inr ins \<Rightarrow> Inr (not_available p (update_instance (setInPlaceUpdateAnnotation ins) s))
       | Inl err \<Rightarrow> Inr s)"

definition do_recreate :: "TApp \<Rightarrow> Pod option \<Rightarrow> string \<Rightarrow> rollout \<Rightarrow> rollout go" where
  "do_recreate tapp pod p s =
     (case pod of
        None \<Rightarrow> Inl NilDereference
      | Some pd \<Rightarrow>
          (case newInstanceWithPod tapp pd of
             Inr ins \<Rightarrow> Inr (not_available p (del_instance ins s))
           | Inl err \<Rightarrow> Inr s))"

text \<open>A skipped pod is logged with its full name, which dereferences it.\<close>

definition skip_pod :: "Pod option \<Rightarrow> rollout \<Rightarrow> rollout go" where
  "skip_pod pod s = (case pod of None \<Rightarrow> Inl NilDereference | Some _ \<Rightarrow> Inr s)"

text \<open>The second loop: force updates, and collecting the pods of the rolling update.\<close>

definition force_update_step ::
  "TApp \<Rightarrow> PodAction amap \<Rightarrow> Pod amap \<Rightarrow> int \<Rightarrow> string \<Rightarrow> rollout \<Rightarrow> rollout go" where
  "force_update_step tapp podActions podMap minAvailablePods p s =
     (let pod = map_of podMap p
      in case map_of podActions p of
           Some updatePod \<Rightarrow>
             if \<not> isInRollingUpdate tapp p then
               (if int (card (ro_available s)) \<le> minAvailablePods then skip_pod pod s
                else do_update tapp p s)
             else Inr (s\<lparr>ro_rolling := ro_rolling s @ [p]\<rparr>)
         | Some recreatePod \<Rightarrow>
             if \<not> isInRollingUpdate tapp p then
               (if int (card (ro_available s)) \<le> minAvailablePods then skip_pod pod s
                else do_recreate tapp pod p s)
             else Inr (s\<lparr>ro_rolling := ro_rolling s @ [p]\<rparr>)
         | _ \<Rightarrow> Inr s)"

text \<open>The last loop: the rolling update.\<close>

definition rolling_update_step ::
  "TApp \<Rightarrow> PodAction amap \<Rightarrow> Pod amap \<Rightarrow> int \<Rightarrow> string \<Rightarrow> rollout \<Rightarrow> rollout go" where
  "rolling_update_step tapp podActions podMap minAvailablePods p s =
     (let pod = map_of podMap p; action = map_of podActions p
      in if p \<in> ro_available s \<and> int (card (ro_available s)) \<le> minAvailablePods then skip_pod pod s
         else case action of
                Some updatePod \<Rightarrow> do_update tapp p s
              | Some recreatePod \<Rightarrow> do_recreate tapp pod p s
              | _ \<Rightarrow> Inr s)"

definition forceMaxUnavailable :: "TApp \<Rightarrow> IntOrString" where
  "forceMaxUnavailable tapp =
     (case fu_MaxUnavailable (us_ForceUpdate (spec_UpdateStrategy (tapp_Spec tapp))) of
        None \<Rightarrow> FromString DefaultMaxUnavailableForceUpdate
      | Some v \<Rightarrow> v)"

definition rollingMaxUnavailable :: "percent_getter \<Rightarrow> TApp \<Rightarrow> int \<Rightarrow> int result" where
  "rollingMaxUnavailable gv tapp n =
     (case us_MaxUnavailable (spec_UpdateStrategy (tapp_Spec tapp)) of
        None \<Rightarrow> Inr DefaultMaxUnavailable
      | Some v \<Rightarrow> gv v n True)"

text \<open>\<^verbatim>\<open>sort.Slice\<close> by number. It need not be stable, but the identifiers are those of desired instances, whose numbers differ.\<close>

definition rollingOrder :: "string list \<Rightarrow> string list" where
  "rollingOrder ids = sort_key (\<lambda>i. fst (Atoi i)) ids"

definition transformPodActions ::
  "percent_getter \<Rightarrow> node_getter \<Rightarrow> string list \<Rightarrow> string list \<Rightarrow>
   TApp \<Rightarrow> PodAction amap \<Rightarrow> Pod amap \<Rightarrow> string set \<Rightarrow> sync_plan go" where
  "transformPodActions gv nodeGet order1 order2 tapp podActions podMap desiredRunningPods =
     (let n = int (card desiredRunningPods);
          s0 = \<lparr>ro_plan = \<lparr>plan_add = [], plan_del = [], plan_forceDel = [], plan_update = []\<rparr>,
                ro_available = getAvailablePods podMap desiredRunningPods, ro_rolling = []\<rparr>
      in go_bind (go_fold (delete_create_step nodeGet tapp podActions podMap) order1 s0) (\<lambda>s1.
         case gv (forceMaxUnavailable tapp) n True of
           Inl err \<Rightarrow> Inr (ro_plan s1)
         | Inr v \<Rightarrow>
             go_bind (go_fold (force_update_step tapp podActions podMap (n - v)) order2 s1) (\<lambda>s2.
             case rollingMaxUnavailable gv tapp n of
               Inl err \<Rightarrow> Inr (ro_plan s2)
             | Inr maxUnavailable \<Rightarrow>
                 go_bind (go_fold (rolling_update_step tapp podActions podMap (n - maxUnavailable))
                     (rollingOrder (ro_rolling s2)) s2) (\<lambda>s3. Inr (ro_plan s3)))))"

definition instanceToSync ::
  "spew \<Rightarrow> bool \<Rightarrow> percent_getter \<Rightarrow> node_getter \<Rightarrow> string list \<Rightarrow> string list \<Rightarrow>
   TApp \<Rightarrow> Pod list \<Rightarrow> sync_plan go" where
  "instanceToSync spew deletePodAfterAppFinish gv nodeGet order1 order2 tapp0 pods =
     (let tapp = updateTemplateHash spew tapp0;
          podMap = makePodMap pods;
          (desiredRunningPods, desiredCompletedPods) = getDesiredInstance deletePodAfterAppFinish tapp;
          podActions = getNextActionsForPods tapp desiredRunningPods desiredCompletedPods podMap
      in transformPodActions gv nodeGet order1 order2 tapp podActions podMap desiredRunningPods)"

text \<open>The orders in which a \<^verbatim>\<open>range\<close> loop may visit a map.\<close>

definition range_order :: "'v amap \<Rightarrow> string list \<Rightarrow> bool" where
  "range_order m ks \<longleftrightarrow> distinct ks \<and> set ks = fst ` set m"

text \<open>\<^verbatim>\<open>shouldRollUpdate\<close> asks whether some of the updates belong to the rolling update.\<close>

lemma shouldRollUpdate_iff:
  "shouldRollUpdate tapp updates \<longleftrightarrow>
     getRollingTemplateKey tapp \<noteq> '''' \<and> (\<exists>ins \<in> set updates. isInRollingUpdate tapp (ins_id ins))"
proof -
  have "some_update_follows tapp template updates \<longleftrightarrow> (\<exists>ins \<in> set updates. getPodTemplateName
      (spec_Templates (tapp_Spec tapp)) (ins_id ins) (spec_DefaultTemplateName (tapp_Spec tapp)) = template)" for template
    by (induction updates) auto
  then show ?thesis by (simp add: shouldRollUpdate_def isInRollingUpdate_def Let_def)
qed

lemmas plan_step_defs =
  add_instance_def del_instance_def forceDel_instance_def update_instance_def not_available_def

lemmas rollout_defs [model_defs] =
  plan_step_defs isInRollingUpdate_def needForceDelete_def delete_create_step_def do_update_def
  do_recreate_def skip_pod_def force_update_step_def rolling_update_step_def forceMaxUnavailable_def
  rollingMaxUnavailable_def rollingOrder_def transformPodActions_def instanceToSync_def

end
