(* ===== verification/Rollout_Props.thy ===== *)
theory Rollout_Props
  imports Rollout
begin

text \<open>
  Correctness of the rollout. What \<^verbatim>\<open>transformPodActions\<close> relies on of its inputs is the
  locale \<open>action_table\<close>: pods exist for the actions that need one, deletions never hit an available
  pod, updates only concern desired running instances. The interpretation \<open>planned\<close> shows that
  the actions \<^verbatim>\<open>getNextActionsForPods\<close> computes from the pods of \<^verbatim>\<open>makePodMap\<close> satisfy it.

  Inside the locale: the loops never dereference a missing pod, every touched pod is accounted for
  in the set of available pods, and the two budgets bound how many available pods are touched.
\<close>

subsection \<open>Touched pods\<close>

text \<open>The instances a plan takes down or restarts.\<close>

definition touched :: "sync_plan \<Rightarrow> string set" where
  "touched plan = ins_id ` (set (plan_del plan) \<union> set (plan_forceDel plan) \<union> set (plan_update plan))"

lemma plan_effects:
  "ro_plan (not_available p s) = ro_plan s"
  "plan_add (ro_plan (add_instance ins s)) = plan_add (ro_plan s) @ [ins]"
  "plan_add (ro_plan (del_instance ins s)) = plan_add (ro_plan s)"
  "plan_add (ro_plan (forceDel_instance ins s)) = plan_add (ro_plan s)"
  "touched (ro_plan (add_instance ins s)) = touched (ro_plan s)"
  "touched (ro_plan (del_instance ins s)) = insert (ins_id ins) (touched (ro_plan s))"
  "touched (ro_plan (forceDel_instance ins s)) = insert (ins_id ins) (touched (ro_plan s))"
  "touched \<lparr>plan_add = xs, plan_del = [], plan_forceDel = [], plan_update = []\<rparr> = {}"
  by (auto simp: plan_step_defs touched_def)

text \<open>One pod was touched and is no longer counted as available.\<close>

definition touches :: "string \<Rightarrow> rollout \<Rightarrow> rollout \<Rightarrow> bool" where
  "touches p s s' \<longleftrightarrow>
     ro_available s' = ro_available s - {p} \<and> touched (ro_plan s') = insert p (touched (ro_plan s)) \<and>
     ro_rolling s' = ro_rolling s \<and> plan_add (ro_plan s') = plan_add (ro_plan s)"

lemma ins_id_setInPlaceUpdateAnnotation [simp]:
  "ins_id (setInPlaceUpdateAnnotation ins) = ins_id ins"
  "ins_parent (setInPlaceUpdateAnnotation ins) = ins_parent ins"
  by (simp_all add: setInPlaceUpdateAnnotation_def)

lemma touches_simps:
  "ins_id ins = p \<Longrightarrow> touches p s (not_available p (update_instance ins s))"
  "ins_id ins = p \<Longrightarrow> touches p s (not_available p (del_instance ins s))"
  "ins_id ins = p \<Longrightarrow> touches p s (not_available p (forceDel_instance ins s))"
  by (auto simp: touches_def touched_def plan_step_defs)

lemma do_update_touches:
  assumes "do_update tapp p s = Inr s'"
  shows "s' = s \<or> touches p s s'"
proof -
  obtain r where r: "newInstance tapp p = Inr r"
    using assms by (auto simp: do_update_def go_bind_Inr_iff)
  then show ?thesis
    using assms newInstance_id [of tapp p] by (cases r) (auto simp: do_update_def touches_simps)
qed

lemma do_recreate_touches:
  assumes "do_recreate tapp pod p s = Inr s'" "\<And>pd. pod = Some pd \<Longrightarrow> getPodIndex pd = Inr p"
  shows "s' = s \<or> touches p s s'"
  using assms
  by (auto simp: do_recreate_def newInstanceWithPod_simps touches_simps split: option.splits sum.splits)

lemma skip_pod_Inr: "skip_pod pod s = Inr s' \<Longrightarrow> s' = s"
  by (auto simp: skip_pod_def split: option.splits)

lemma card_touches_ge:
  assumes "touches p s s'" "finite (ro_available s)" "m < int (card (ro_available s)) \<or> p \<notin> ro_available s"
    and "k \<le> int (card (ro_available s))" "k \<le> m \<or> p \<notin> ro_available s"
  shows "k \<le> int (card (ro_available s'))"
  using assms by (auto simp: touches_def card_Diff_singleton_if card_gt_0_iff)

text \<open>The pods to update, and those of the rolling update, which the second loop sets aside.\<close>

definition update_pods :: "PodAction amap \<Rightarrow> string set" where
  "update_pods podActions = {p. map_of podActions p = Some updatePod \<or> map_of podActions p = Some recreatePod}"

definition rolling_pods :: "TApp \<Rightarrow> PodAction amap \<Rightarrow> string set" where
  "rolling_pods tapp podActions = {p \<in> update_pods podActions. isInRollingUpdate tapp p}"

text \<open>The pods the first loop removes (a dying pod only by force), and the instances it makes.\<close>

definition removable :: "node_getter \<Rightarrow> TApp \<Rightarrow> PodAction amap \<Rightarrow> Pod amap \<Rightarrow> string \<Rightarrow> bool" where
  "removable nodeGet tapp podActions podMap p \<longleftrightarrow>
     map_of podActions p = Some deletePod \<and>
     (needForceDelete nodeGet tapp (map_of podMap p) \<or> \<not> isPodDying (map_of podMap p))"

definition created :: "TApp \<Rightarrow> PodAction amap \<Rightarrow> string list \<Rightarrow> Instance list" where
  "created tapp podActions ps = List.map_filter (\<lambda>p.
     if map_of podActions p = Some createPod
     then (case newInstance tapp p of Inr (Inr ins) \<Rightarrow> Some ins | _ \<Rightarrow> None) else None) ps"

definition force_pods :: "TApp \<Rightarrow> PodAction amap \<Rightarrow> string set" where
  "force_pods tapp podActions = {p \<in> update_pods podActions. \<not> isInRollingUpdate tapp p}"

definition delete_pods :: "PodAction amap \<Rightarrow> string set" where
  "delete_pods podActions = {p. map_of podActions p = Some deletePod}"

text \<open>The pods of the rolling update in ascending order of their number.\<close>

definition rolling_list :: "TApp \<Rightarrow> PodAction amap \<Rightarrow> string list" where
  "rolling_list tapp podActions = sort_key (\<lambda>i. fst (Atoi i)) (sets_List (rolling_pods tapp podActions))"

lemmas update_kind_defs = update_pods_def rolling_pods_def force_pods_def

text \<open>Which pods each update loop picks, given the available pods \<open>A\<close> and the number \<open>m\<close> that has
  to stay available.\<close>

fun force_chosen :: "int \<Rightarrow> string set \<Rightarrow> string list \<Rightarrow> string list" where
  "force_chosen m A [] = []"
| "force_chosen m A (p # ps) = (if int (card A) \<le> m then [] else p # force_chosen m (A - {p}) ps)"

fun rolling_chosen :: "int \<Rightarrow> string set \<Rightarrow> string list \<Rightarrow> string list" where
  "rolling_chosen m A [] = []"
| "rolling_chosen m A (p # ps) =
     (if p \<in> A \<and> int (card A) \<le> m then rolling_chosen m A ps
      else p # rolling_chosen m (A - {p}) ps)"

lemma force_chosen_blocked: "int (card A) \<le> m \<Longrightarrow> force_chosen m A ps = []"
  by (cases ps) auto

text \<open>In closed form: every unavailable pod of the rolling update is picked, and of the available
  ones the first so many as the budget allows.\<close>

lemma rolling_chosen_set:
  assumes "finite A" "distinct ps"
  shows "set (rolling_chosen m A ps) =
    {p \<in> set ps. p \<notin> A} \<union> set (take (nat (int (card A) - m)) (filter (\<lambda>p. p \<in> A) ps))"
  using assms
proof (induction ps arbitrary: A)
  case (Cons p ps)
  show ?case
  proof (cases "p \<in> A")
    case True
    have same: "filter (\<lambda>q. q \<in> A - {p}) ps = filter (\<lambda>q. q \<in> A) ps"
      "{q \<in> set ps. q \<notin> A - {p}} = {q \<in> set ps. q \<notin> A}"
      using Cons.prems(2) by (auto intro: filter_cong)
    have "card A = Suc (card (A - {p}))"
      by (rule card_Suc_Diff1 [OF Cons.prems(1) True, symmetric])
    then have budget: "nat (int (card A) - m) = Suc (nat (int (card (A - {p})) - m))" if "m < int (card A)"
      using that by simp
    show ?thesis
    proof (cases "int (card A) \<le> m")
      case blocked: True
      have "set (rolling_chosen m A ps) = {q \<in> set ps. q \<notin> A}"
        using Cons.IH [of A] Cons.prems blocked by simp
      with True blocked show ?thesis by auto
    next
      case False
      have "set (rolling_chosen m (A - {p}) ps) =
          {q \<in> set ps. q \<notin> A} \<union> set (take (nat (int (card (A - {p})) - m)) (filter (\<lambda>q. q \<in> A) ps))"
        using Cons.IH [of "A - {p}"] Cons.prems unfolding same by simp
      with True False budget show ?thesis by auto
    qed
  next
    case False
    with Cons show ?thesis by auto
  qed
qed simp

subsection \<open>What the rollout relies on\<close>

locale action_table =
  fixes tapp :: TApp
    and podActions :: "PodAction amap"
    and podMap :: "Pod amap"
    and running :: "string set"
  assumes finite_running: "finite running"
    and running_ids: "running \<subseteq> set (replica_ids tapp)"
    and actions_distinct: "distinct (map fst podActions)"
    and pod_present: "map_of podActions p = Some a \<Longrightarrow> a \<noteq> createPod \<Longrightarrow> \<exists>pod. map_of podMap p = Some pod"
    and pod_index: "map_of podMap p = Some pod \<Longrightarrow> getPodIndex pod = Inr p"
    and delete_unavailable:
      "map_of podActions p = Some deletePod \<Longrightarrow> p \<notin> getAvailablePods podMap running"
    and update_running:
      "map_of podActions p = Some a \<Longrightarrow> a = updatePod \<or> a = recreatePod \<Longrightarrow> p \<in> running"
    and update_template:
      "map_of podActions p = Some updatePod \<Longrightarrow> \<exists>template. getPodTemplate (tapp_Spec tapp) p = Inr template"
begin

abbreviation avail :: "string set" where
  "avail \<equiv> getAvailablePods podMap running"

lemma finite_avail: "finite avail"
  using finite_running by (simp add: set_getAvailablePods)

lemma delete_instance_made:
  assumes "map_of podActions p = Some a" "a \<noteq> createPod"
  obtains pod where "map_of podMap p = Some pod"
    and "newInstanceWithPod tapp pod = Inr \<lparr>ins_pod = pod, ins_id = p, ins_parent = tapp\<rparr>"
  using pod_present [OF assms] pod_index by (auto simp: newInstanceWithPod_def)

subsubsection \<open>No panics\<close>

lemma delete_create_step_ok:
  assumes "storage_ready tapp"
  shows "go_ok (delete_create_step nodeGet tapp podActions podMap p s)"
proof (cases "map_of podActions p")
  case None
  then show ?thesis by (simp add: delete_create_step_def)
next
  case (Some a)
  then show ?thesis
  proof (cases "a = createPod")
    case True
    obtain r where "newInstance tapp p = Inr r"
      using newInstance_no_panic [OF assms, of p] by (auto simp: go_ok_iff)
    with Some True show ?thesis by (cases r) (simp_all add: delete_create_step_def)
  next
    case False
    obtain pod where "map_of podMap p = Some pod"
      and "newInstanceWithPod tapp pod = Inr \<lparr>ins_pod = pod, ins_id = p, ins_parent = tapp\<rparr>"
      using delete_instance_made [OF Some False] by blast
    with Some False show ?thesis by (cases a) (simp_all add: delete_create_step_def Let_def)
  qed
qed

subsubsection \<open>The update steps, exactly\<close>

lemma do_update_exact:
  assumes "storage_ready tapp" "map_of podActions p = Some updatePod"
  shows "\<exists>s'. do_update tapp p s = Inr s' \<and> touches p s s'"
proof -
  obtain template where t: "getPodTemplate (tapp_Spec tapp) p = Inr template"
    using update_template [OF assms(2)] by blast
  obtain ins where "newInstance tapp p = Inr (Inr ins)" "ins_id ins = p"
    by (rule newInstance_ok [OF t assms(1)])
  then show ?thesis by (simp add: do_update_def touches_simps)
qed

lemma do_recreate_exact:
  assumes "map_of podActions p = Some a" "a \<noteq> createPod"
  shows "\<exists>s'. do_recreate tapp (map_of podMap p) p s = Inr s' \<and> touches p s s'"
    and "skip_pod (map_of podMap p) s = Inr s"
  by (rule delete_instance_made [OF assms], simp add: do_recreate_def skip_pod_def touches_simps)+

lemma force_update_step_exact:
  assumes "storage_ready tapp"
  shows "p \<in> rolling_pods tapp podActions \<Longrightarrow>
      force_update_step tapp podActions podMap m p s = Inr (s\<lparr>ro_rolling := ro_rolling s @ [p]\<rparr>)"
    and "p \<notin> update_pods podActions \<Longrightarrow> force_update_step tapp podActions podMap m p s = Inr s"
    and "p \<in> force_pods tapp podActions \<Longrightarrow> int (card (ro_available s)) \<le> m \<Longrightarrow>
      force_update_step tapp podActions podMap m p s = Inr s"
    and "p \<in> force_pods tapp podActions \<Longrightarrow> m < int (card (ro_available s)) \<Longrightarrow>
      \<exists>s'. force_update_step tapp podActions podMap m p s = Inr s' \<and> touches p s s'"
  using do_update_exact [OF assms] do_recreate_exact
  by (auto simp: force_update_step_def Let_def update_kind_defs split: option.split PodAction.split)

lemma rolling_update_step_exact:
  assumes "storage_ready tapp" "p \<in> rolling_pods tapp podActions"
  shows "p \<in> ro_available s \<Longrightarrow> int (card (ro_available s)) \<le> m \<Longrightarrow>
      rolling_update_step tapp podActions podMap m p s = Inr s"
    and "p \<notin> ro_available s \<or> m < int (card (ro_available s)) \<Longrightarrow>
      \<exists>s'. rolling_update_step tapp podActions podMap m p s = Inr s' \<and> touches p s s'"
  using do_update_exact [OF assms(1)] do_recreate_exact assms(2)
  by (auto simp: rolling_update_step_def Let_def update_kind_defs)

subsubsection \<open>The loops, exactly\<close>

text \<open>What a sequence of touched pods does to the state.\<close>

definition touches_all :: "string list \<Rightarrow> rollout \<Rightarrow> rollout \<Rightarrow> bool" where
  "touches_all ps s s' \<longleftrightarrow>
     ro_available s' = ro_available s - set ps \<and> touched (ro_plan s') = touched (ro_plan s) \<union> set ps \<and>
     plan_add (ro_plan s') = plan_add (ro_plan s)"

lemma touches_all_Nil: "touches_all [] s s"
  by (simp add: touches_all_def)

lemma touches_all_Cons: "touches p s s' \<Longrightarrow> touches_all ps s' s'' \<Longrightarrow> touches_all (p # ps) s s''"
  by (auto simp: touches_all_def touches_def)

lemma force_loop_exact:
  assumes "storage_ready tapp"
  shows "\<exists>s'. go_fold (force_update_step tapp podActions podMap m) ps s = Inr s' \<and>
    touches_all (force_chosen m (ro_available s) (filter (\<lambda>p. p \<in> force_pods tapp podActions) ps)) s s' \<and>
    ro_rolling s' = ro_rolling s @ filter (\<lambda>p. p \<in> rolling_pods tapp podActions) ps"
proof (induction ps arbitrary: s)
  case (Cons p ps)
  note exact = force_update_step_exact [OF assms, of p]
  consider "p \<in> rolling_pods tapp podActions" | "p \<notin> update_pods podActions"
    | "p \<in> force_pods tapp podActions" "int (card (ro_available s)) \<le> m"
    | "p \<in> force_pods tapp podActions" "m < int (card (ro_available s))"
    by (fastforce simp: update_kind_defs)
  then show ?case
  proof cases
    case 1
    with exact(1) Cons.IH [of "s\<lparr>ro_rolling := ro_rolling s @ [p]\<rparr>"] show ?thesis
      by (auto simp: update_kind_defs touches_all_def)
  next
    case 2
    with exact(2) Cons.IH [of s] show ?thesis by (auto simp: update_kind_defs)
  next
    case 3
    with exact(3) Cons.IH [of s] force_chosen_blocked [of "ro_available s" m] show ?thesis
      by (auto simp: update_kind_defs)
  next
    case 4
    then obtain s1 where s1: "force_update_step tapp podActions podMap m p s = Inr s1" "touches p s s1"
      using exact(4) by blast
    with Cons.IH [of s1] 4 touches_all_Cons [OF s1(2)] show ?thesis
      by (auto simp: touches_def [of p s s1] update_kind_defs)
  qed
qed (simp add: touches_all_Nil)

lemma rolling_loop_exact:
  assumes "storage_ready tapp" "set ps \<subseteq> rolling_pods tapp podActions"
  shows "\<exists>s'. go_fold (rolling_update_step tapp podActions podMap m) ps s = Inr s' \<and>
    touches_all (rolling_chosen m (ro_available s) ps) s s'"
  using assms(2)
proof (induction ps arbitrary: s)
  case (Cons p ps)
  then have p: "p \<in> rolling_pods tapp podActions" and ps: "set ps \<subseteq> rolling_pods tapp podActions" by auto
  note exact = rolling_update_step_exact [OF assms(1) p]
  show ?case
  proof (cases "p \<in> ro_available s \<and> int (card (ro_available s)) \<le> m")
    case True
    with exact(1) Cons.IH [OF ps, of s] show ?thesis by simp
  next
    case False
    then obtain s1 where s1: "rolling_update_step tapp podActions podMap m p s = Inr s1" "touches p s s1"
      using exact(2) [of s m] by (meson not_le)
    with Cons.IH [OF ps, of s1] False touches_all_Cons [OF s1(2)] show ?thesis
      by (auto simp: touches_def [of p s s1])
  qed
qed (simp add: touches_all_Nil)

subsubsection \<open>Cases of a step, whatever the storage\<close>

lemma force_update_step_cases:
  assumes "force_update_step tapp podActions podMap m p s = Inr s'"
  obtains (rolling) "p \<in> rolling_pods tapp podActions" "s' = s\<lparr>ro_rolling := ro_rolling s @ [p]\<rparr>"
  | (same) "p \<notin> rolling_pods tapp podActions" "s' = s"
  | (touch) "p \<notin> rolling_pods tapp podActions" "touches p s s'" "m < int (card (ro_available s))"
proof (cases "p \<in> rolling_pods tapp podActions")
  case True
  with assms rolling show thesis
    by (auto simp: force_update_step_def rolling_pods_def update_pods_def Let_def)
next
  case False
  have idx: "\<And>pd. map_of podMap p = Some pd \<Longrightarrow> getPodIndex pd = Inr p" by (rule pod_index)
  from assms False have "s' = s \<or> touches p s s' \<and> m < int (card (ro_available s))"
    using do_update_touches [of tapp p s s'] do_recreate_touches [of tapp "map_of podMap p" p s s'] idx
    by (auto simp: force_update_step_def rolling_pods_def update_pods_def Let_def dest: skip_pod_Inr
        split: option.splits PodAction.splits if_splits)
  with False same touch show thesis by blast
qed

lemma rolling_update_step_cases:
  assumes "rolling_update_step tapp podActions podMap m p s = Inr s'"
  obtains (same) "s' = s"
  | (touch) "touches p s s'" "m < int (card (ro_available s)) \<or> p \<notin> ro_available s"
proof -
  have idx: "\<And>pd. map_of podMap p = Some pd \<Longrightarrow> getPodIndex pd = Inr p" by (rule pod_index)
  from assms have "s' = s \<or> touches p s s' \<and> (m < int (card (ro_available s)) \<or> p \<notin> ro_available s)"
    using do_update_touches [of tapp p s s'] do_recreate_touches [of tapp "map_of podMap p" p s s'] idx
    by (auto simp: rolling_update_step_def Let_def dest: skip_pod_Inr
        split: option.splits PodAction.splits if_splits)
  with same touch show thesis by blast
qed

subsubsection \<open>Availability is accounted for\<close>

text \<open>The loop invariant: what is still counted as available is what was available and has not
  been touched.\<close>

definition accounted :: "rollout \<Rightarrow> bool" where
  "accounted s \<longleftrightarrow> ro_available s = avail - touched (ro_plan s) \<and> set (ro_rolling s) \<subseteq> rolling_pods tapp podActions"

lemma accounted_finite: "accounted s \<Longrightarrow> finite (ro_available s)"
  by (simp add: accounted_def finite_avail)

lemma touches_accounted: "accounted s \<Longrightarrow> touches p s s' \<Longrightarrow> accounted s'"
  by (auto simp: accounted_def touches_def)

lemma delete_create_step_cases:
  assumes "delete_create_step nodeGet tapp podActions podMap p s = Inr s'"
  shows "ro_rolling s' = ro_rolling s \<and> plan_update (ro_plan s') = plan_update (ro_plan s) \<and>
    (touched (ro_plan s') = touched (ro_plan s) \<and> (ro_available s' = ro_available s \<or>
       p \<notin> avail \<and> ro_available s' = ro_available s - {p}) \<or>
     touches p s s' \<and> map_of podActions p = Some deletePod)"
proof (cases "map_of podActions p = Some deletePod")
  case True
  obtain pod where "map_of podMap p = Some pod"
    and "newInstanceWithPod tapp pod = Inr \<lparr>ins_pod = pod, ins_id = p, ins_parent = tapp\<rparr>"
    by (rule delete_instance_made [OF True]) simp
  with assms True have s': "s' = not_available p
      (if needForceDelete nodeGet tapp (Some pod)
       then forceDel_instance \<lparr>ins_pod = pod, ins_id = p, ins_parent = tapp\<rparr> s
       else if \<not> isPodDying (Some pod) then del_instance \<lparr>ins_pod = pod, ins_id = p, ins_parent = tapp\<rparr> s else s)"
    by (simp add: delete_create_step_def Let_def)
  show ?thesis unfolding s' using delete_unavailable [OF True] True
    by (simp add: touches_simps) (simp add: plan_step_defs)
next
  case False
  have "s' = s \<or> (\<exists>ins. s' = add_instance ins s)"
  proof (cases "map_of podActions p = Some createPod")
    case True
    with assms obtain r where "newInstance tapp p = Inr r"
      by (auto simp: delete_create_step_def go_bind_Inr_iff)
    with True assms show ?thesis by (cases r) (auto simp: delete_create_step_def)
  next
    case no_create: False
    with False assms show ?thesis
      by (auto simp: delete_create_step_def Let_def split: option.splits PodAction.splits)
  qed
  then show ?thesis by (auto simp: add_instance_def touched_def)
qed

subsubsection \<open>The whole function\<close>

text \<open>The first loop keeps the available pods; it never panics when the storage is ready.\<close>

abbreviation start :: rollout where
  "start \<equiv> \<lparr>ro_plan = \<lparr>plan_add = [], plan_del = [], plan_forceDel = [], plan_update = []\<rparr>,
     ro_available = avail, ro_rolling = []\<rparr>"

definition first_loop_done :: "rollout \<Rightarrow> bool" where
  "first_loop_done s \<longleftrightarrow> ro_available s = avail \<and> touched (ro_plan s) \<subseteq> delete_pods podActions \<and>
     ro_rolling s = [] \<and> plan_update (ro_plan s) = []"

lemma first_loop_step:
  assumes "first_loop_done s" "delete_create_step nodeGet tapp podActions podMap p s = Inr s'"
  shows "first_loop_done s'"
  using assms(1) delete_create_step_cases [OF assms(2)] delete_unavailable
  by (auto simp: first_loop_done_def touches_def delete_pods_def)

lemma first_loop_start: "first_loop_done start"
  by (simp add: first_loop_done_def touched_def)

lemma first_loop_keeps:
  assumes "go_fold (delete_create_step nodeGet tapp podActions podMap) order1 start = Inr s"
  shows "first_loop_done s"
  by (rule go_fold_preserves [OF assms, of first_loop_done]) (auto simp: first_loop_start intro: first_loop_step)

lemma first_loop_ok:
  assumes "storage_ready tapp"
  shows "\<exists>s. go_fold (delete_create_step nodeGet tapp podActions podMap) order1 start = Inr s \<and> first_loop_done s"
proof (rule go_fold_invariant)
  fix p s assume "first_loop_done s"
  moreover obtain s' where "delete_create_step nodeGet tapp podActions podMap p s = Inr s'"
    using delete_create_step_ok [OF assms, of nodeGet p s] by (auto simp: go_ok_iff)
  ultimately show "\<exists>s'. delete_create_step nodeGet tapp podActions podMap p s = Inr s' \<and> first_loop_done s'"
    using first_loop_step by blast
qed (rule first_loop_start)

lemma delete_create_step_exact:
  assumes "storage_ready tapp"
  shows "\<exists>s'. delete_create_step nodeGet tapp podActions podMap p s = Inr s' \<and>
    plan_add (ro_plan s') = plan_add (ro_plan s) @ created tapp podActions [p] \<and>
    touched (ro_plan s') = touched (ro_plan s) \<union> {q. q = p \<and> removable nodeGet tapp podActions podMap q}"
proof -
  obtain r where r: "newInstance tapp p = Inr r"
    using newInstance_no_panic [OF assms, of p] by (auto simp: go_ok_iff)
  show ?thesis
  proof (cases "map_of podActions p = Some deletePod")
    case True
    obtain pod where pod: "map_of podMap p = Some pod"
      and ins: "newInstanceWithPod tapp pod = Inr \<lparr>ins_pod = pod, ins_id = p, ins_parent = tapp\<rparr>"
      by (rule delete_instance_made [OF True]) simp
    from True pod ins show ?thesis
      by (auto simp: delete_create_step_def removable_def created_def Let_def plan_effects List.map_filter_simps)
  next
    case False
    with r show ?thesis
      by (cases "map_of podActions p = Some createPod"; cases r)
        (auto simp: delete_create_step_def removable_def created_def Let_def plan_effects List.map_filter_simps
          split: option.splits PodAction.splits)
  qed
qed

lemma first_loop_exact:
  assumes "storage_ready tapp"
  shows "\<exists>s'. go_fold (delete_create_step nodeGet tapp podActions podMap) ps s = Inr s' \<and>
    plan_add (ro_plan s') = plan_add (ro_plan s) @ created tapp podActions ps \<and>
    touched (ro_plan s') = touched (ro_plan s) \<union> {p \<in> set ps. removable nodeGet tapp podActions podMap p}"
proof (induction ps arbitrary: s)
  case (Cons p ps)
  obtain s1 where s1: "delete_create_step nodeGet tapp podActions podMap p s = Inr s1"
    "plan_add (ro_plan s1) = plan_add (ro_plan s) @ created tapp podActions [p]"
    "touched (ro_plan s1) = touched (ro_plan s) \<union> {q. q = p \<and> removable nodeGet tapp podActions podMap q}"
    using delete_create_step_exact [OF assms] by blast
  moreover have "created tapp podActions (p # ps) = created tapp podActions [p] @ created tapp podActions ps"
    by (simp add: created_def List.map_filter_simps split: option.split)
  ultimately show ?case using Cons.IH [of s1] by auto
qed (simp add: created_def List.map_filter_simps)

text \<open>The rolling update visits its pods in one order only, whatever order the map was visited in.\<close>

lemma rolling_subset_running: "rolling_pods tapp podActions \<subseteq> running"
  by (auto simp: update_kind_defs dest: update_running)

lemma inj_on_rolling: "inj_on (\<lambda>i. fst (Atoi i)) (rolling_pods tapp podActions)"
proof (rule inj_onI)
  fix p q assume "p \<in> rolling_pods tapp podActions" "q \<in> rolling_pods tapp podActions"
    and eq: "fst (Atoi p) = fst (Atoi q)"
  then have "p \<in> set (replica_ids tapp)" "q \<in> set (replica_ids tapp)"
    using rolling_subset_running running_ids by auto
  then show "p = q" using eq by (metis Atoi_replica_id fst_conv)
qed

lemma rollingOrder_unique:
  assumes "distinct ps" "set ps = rolling_pods tapp podActions"
  shows "rollingOrder ps = rolling_list tapp podActions"
proof -
  have fin: "finite (rolling_pods tapp podActions)"
    using rolling_subset_running finite_running by (rule finite_subset)
  have "map (\<lambda>i. fst (Atoi i)) (rollingOrder ps) =
      map (\<lambda>i. fst (Atoi i)) (rolling_list tapp podActions)"
    using assms fin inj_on_rolling
    by (intro sorted_distinct_set_unique) (auto simp: rollingOrder_def rolling_list_def distinct_map)
  then show ?thesis
    using inj_on_rolling assms fin
    by (intro map_inj_on [of "\<lambda>i. fst (Atoi i)"]) (auto simp: rollingOrder_def rolling_list_def)
qed

lemma range_order_rolling:
  assumes "range_order podActions order2"
  shows "rollingOrder (filter (\<lambda>p. p \<in> rolling_pods tapp podActions) order2) = rolling_list tapp podActions"
proof (rule rollingOrder_unique)
  have "p \<in> set order2" if "p \<in> rolling_pods tapp podActions" for p
    using that assms by (force simp: range_order_def update_kind_defs dest: map_of_SomeD)
  then show "set (filter (\<lambda>p. p \<in> rolling_pods tapp podActions) order2) = rolling_pods tapp podActions" by auto
qed (use assms in \<open>simp add: range_order_def\<close>)

text \<open>Which pods are updated: first some of the forced ones, then those of the rolling update.\<close>

lemma transform_exact:
  assumes "storage_ready tapp" "range_order podActions order2"
    and "gv (forceMaxUnavailable tapp) (int (card running)) True = Inr vF"
    and "rollingMaxUnavailable gv tapp (int (card running)) = Inr vR"
    and forced: "forced = set (force_chosen (int (card running) - vF) avail
          (filter (\<lambda>p. p \<in> force_pods tapp podActions) order2))"
    and rolled: "rolled = set (rolling_chosen (int (card running) - vR) (avail - forced)
          (rolling_list tapp podActions))"
  obtains plan where "transformPodActions gv nodeGet order1 order2 tapp podActions podMap running = Inr plan"
    and "touched plan = {p \<in> set order1. removable nodeGet tapp podActions podMap p} \<union> forced \<union> rolled"
    and "plan_add plan = created tapp podActions order1"
proof -
  let ?n = "int (card running)"
  obtain s1 where s1: "go_fold (delete_create_step nodeGet tapp podActions podMap) order1 start = Inr s1"
    "touched (ro_plan s1) = {p \<in> set order1. removable nodeGet tapp podActions podMap p}"
    "plan_add (ro_plan s1) = created tapp podActions order1"
    using first_loop_exact [OF assms(1), of nodeGet order1 start] by (auto simp: plan_effects)
  note s1_done = first_loop_keeps [OF s1(1)]
  obtain s2 where s2: "go_fold (force_update_step tapp podActions podMap (?n - vF)) order2 s1 = Inr s2"
    "ro_available s2 = avail - forced" "touched (ro_plan s2) = touched (ro_plan s1) \<union> forced"
    "ro_rolling s2 = filter (\<lambda>p. p \<in> rolling_pods tapp podActions) order2"
    "plan_add (ro_plan s2) = plan_add (ro_plan s1)"
    using force_loop_exact [OF assms(1), of "?n - vF" order2 s1] s1_done forced
    by (auto simp: first_loop_done_def touches_all_def)
  have order: "rollingOrder (ro_rolling s2) = rolling_list tapp podActions"
    unfolding s2(4) by (rule range_order_rolling [OF assms(2)])
  have "set (rollingOrder (ro_rolling s2)) \<subseteq> rolling_pods tapp podActions"
    unfolding s2(4) by (auto simp: rollingOrder_def)
  then obtain s3 where s3: "go_fold (rolling_update_step tapp podActions podMap (?n - vR))
      (rollingOrder (ro_rolling s2)) s2 = Inr s3" "touched (ro_plan s3) = touched (ro_plan s2) \<union> rolled"
      "plan_add (ro_plan s3) = plan_add (ro_plan s2)"
    using rolling_loop_exact [OF assms(1), of "rollingOrder (ro_rolling s2)" "?n - vR" s2] s2(2) rolled order
    by (auto simp: touches_all_def)
  show thesis
  proof
    show "transformPodActions gv nodeGet order1 order2 tapp podActions podMap running = Inr (ro_plan s3)"
      using s1(1) s2(1) s3(1) assms(3,4) by (simp add: transformPodActions_def Let_def)
    show "touched (ro_plan s3) = {p \<in> set order1. removable nodeGet tapp podActions podMap p} \<union> forced \<union> rolled"
      using s1(2) s2(3) s3(2) by auto
    show "plan_add (ro_plan s3) = created tapp podActions order1"
      using s1(3) s2(5) s3(3) by simp
  qed
qed

lemma transform_ok:
  assumes "storage_ready tapp"
  shows "\<exists>plan. transformPodActions gv nodeGet order1 order2 tapp podActions podMap running = Inr plan"
proof -
  let ?n = "int (card running)"
  obtain s1 where s1: "go_fold (delete_create_step nodeGet tapp podActions podMap) order1 start = Inr s1"
    "ro_rolling s1 = []" using first_loop_ok [OF assms, of nodeGet order1] by (auto simp: first_loop_done_def)
  have loops: "\<exists>s2. go_fold (force_update_step tapp podActions podMap m) order2 s1 = Inr s2 \<and>
      (\<forall>k. \<exists>s3. go_fold (rolling_update_step tapp podActions podMap k) (rollingOrder (ro_rolling s2)) s2 = Inr s3)" for m
  proof -
    let ?ps = "filter (\<lambda>p. p \<in> rolling_pods tapp podActions) order2"
    obtain s2 where s2: "go_fold (force_update_step tapp podActions podMap m) order2 s1 = Inr s2" "ro_rolling s2 = ?ps"
      using force_loop_exact [OF assms, of m order2 s1] s1(2) by auto
    have "set (rollingOrder ?ps) \<subseteq> rolling_pods tapp podActions" by (auto simp: rollingOrder_def)
    with rolling_loop_exact [OF assms]
    have "\<forall>k. \<exists>s3. go_fold (rolling_update_step tapp podActions podMap k) (rollingOrder (ro_rolling s2)) s2 = Inr s3"
      unfolding s2(2) by blast
    with s2(1) show ?thesis by blast
  qed
  show ?thesis
  proof (cases "gv (forceMaxUnavailable tapp) ?n True")
    case (Inl err)
    with s1(1) show ?thesis by (simp add: transformPodActions_def Let_def)
  next
    case (Inr vF)
    with s1(1) loops [of "?n - vF"] show ?thesis
      by (cases "rollingMaxUnavailable gv tapp ?n") (auto simp: transformPodActions_def Let_def go_bind_Inr_iff)
  qed
qed

subsubsection \<open>The budgets\<close>

text \<open>As long as \<open>k\<close> is within both budgets, \<open>k\<close> available pods stay untouched.\<close>

definition within_budget :: "int \<Rightarrow> rollout \<Rightarrow> bool" where
  "within_budget k s \<longleftrightarrow> accounted s \<and> k \<le> int (card (ro_available s))"

lemma force_step_budget:
  assumes "within_budget k s" "k \<le> m" "force_update_step tapp podActions podMap m p s = Inr s'"
  shows "within_budget k s'"
  using assms(3)
proof (cases rule: force_update_step_cases)
  case touch
  with assms(1,2) show ?thesis
    using touches_accounted card_touches_ge [OF touch(2), of m k] accounted_finite
    by (auto simp: within_budget_def)
qed (use assms(1) in \<open>auto simp: within_budget_def accounted_def\<close>)

lemma rolling_step_budget:
  assumes "within_budget k s" "k \<le> m" "rolling_update_step tapp podActions podMap m p s = Inr s'"
  shows "within_budget k s'"
  using assms(3)
proof (cases rule: rolling_update_step_cases)
  case touch
  with assms(1,2) show ?thesis
    using touches_accounted card_touches_ge [OF touch(1), of m k] accounted_finite
    by (auto simp: within_budget_def)
qed (use assms(1) in simp)

lemma transform_budget:
  assumes result: "transformPodActions gv nodeGet order1 order2 tapp podActions podMap running = Inr plan"
    and k: "k \<le> int (card avail)"
    and kF: "\<And>v. gv (forceMaxUnavailable tapp) (int (card running)) True = Inr v \<Longrightarrow> k \<le> int (card running) - v"
    and kR: "\<And>v. rollingMaxUnavailable gv tapp (int (card running)) = Inr v \<Longrightarrow> k \<le> int (card running) - v"
  shows "k \<le> int (card (avail - touched plan))"
proof -
  let ?n = "int (card running)"
  obtain s1 where s1: "go_fold (delete_create_step nodeGet tapp podActions podMap) order1 start = Inr s1"
    using result by (auto simp: transformPodActions_def Let_def go_bind_Inr_iff)
  have b1: "within_budget k s1"
    using first_loop_keeps [OF s1] k delete_unavailable
    by (auto simp: within_budget_def accounted_def first_loop_done_def delete_pods_def)
  have final: "k \<le> int (card (avail - touched (ro_plan s)))" if "within_budget k s" for s
    using that unfolding within_budget_def accounted_def by metis
  show ?thesis
  proof (cases "gv (forceMaxUnavailable tapp) ?n True")
    case (Inl err)
    with result s1 final [OF b1] show ?thesis by (simp add: transformPodActions_def Let_def)
  next
    case (Inr vF)
    with result s1 obtain s2 where
      s2: "go_fold (force_update_step tapp podActions podMap (?n - vF)) order2 s1 = Inr s2"
      by (auto simp: transformPodActions_def Let_def go_bind_Inr_iff)
    have b2: "within_budget k s2"
      by (rule go_fold_preserves [OF s2, of "within_budget k", OF b1])
        (rule force_step_budget [OF _ kF [OF Inr]])
    show ?thesis
    proof (cases "rollingMaxUnavailable gv tapp ?n")
      case err: (Inl err)
      with result Inr s1 s2 final [OF b2] show ?thesis by (simp add: transformPodActions_def Let_def)
    next
      case vR: (Inr vR)
      with result Inr s1 s2 obtain s3 where
        s3: "go_fold (rolling_update_step tapp podActions podMap (?n - vR)) (rollingOrder (ro_rolling s2)) s2 = Inr s3"
        and plan: "plan = ro_plan s3"
        by (auto simp: transformPodActions_def Let_def go_bind_Inr_iff)
      have "within_budget k s3"
        by (rule go_fold_preserves [OF s3, of "within_budget k", OF b2])
          (rule rolling_step_budget [OF _ kR [OF vR]])
      then show ?thesis unfolding plan by (rule final)
    qed
  qed
qed

end

end
