(* ===== verification/Rollout_Theorems.thy ===== *)
theory Rollout_Theorems
  imports Rollout_Props Sample_Objects "HOL-Library.Multiset"
begin

text \<open>
  The theorems on one synchronisation plan, over the model of \<^verbatim>\<open>instanceToSync\<close> and
  \<^verbatim>\<open>transformPodActions\<close>. The locale \<open>action_table\<close> is interpreted on the actions the code itself
  computes (\<open>planned\<close>), and its lemmas become statements about the code.
\<close>

subsection \<open>One operation per instance\<close>

definition plan_ids :: "sync_plan \<Rightarrow> string multiset" where
  "plan_ids plan = mset (map ins_id (plan_add plan @ plan_del plan @ plan_forceDel plan @ plan_update plan))"

lemma distinct_submultiset:
  assumes "mset xs \<subseteq># mset ys" "distinct ys"
  shows "distinct xs"
proof -
  obtain zs where "mset ys = mset (xs @ zs)"
    using assms(1) by (metis ex_mset mset_append subset_mset.le_iff_add)
  then have "distinct (xs @ zs)" using assms(2) mset_eq_imp_distinct_iff by blast
  then show ?thesis by simp
qed

definition emits :: "bool \<Rightarrow> string \<Rightarrow> rollout \<Rightarrow> rollout \<Rightarrow> bool" where
  "emits allowed p s s' \<longleftrightarrow>
     plan_ids (ro_plan s') = plan_ids (ro_plan s) \<or>
     allowed \<and> plan_ids (ro_plan s') = add_mset p (plan_ids (ro_plan s))"

lemma emits_simps:
  "plan_ids (ro_plan (not_available p s)) = plan_ids (ro_plan s)"
  "plan_ids (ro_plan (add_instance ins s)) = add_mset (ins_id ins) (plan_ids (ro_plan s))"
  "plan_ids (ro_plan (del_instance ins s)) = add_mset (ins_id ins) (plan_ids (ro_plan s))"
  "plan_ids (ro_plan (forceDel_instance ins s)) = add_mset (ins_id ins) (plan_ids (ro_plan s))"
  "plan_ids (ro_plan (update_instance ins s)) = add_mset (ins_id ins) (plan_ids (ro_plan s))"
  by (simp_all add: plan_ids_def plan_step_defs)

lemma go_fold_emits:
  assumes "go_fold f ps s = Inr s'"
    and "\<And>p s s'. p \<in> set ps \<Longrightarrow> f p s = Inr s' \<Longrightarrow> emits (P p) p s s'"
  shows "plan_ids (ro_plan s') \<subseteq># plan_ids (ro_plan s) + mset (filter P ps)"
  using assms
proof (induction ps arbitrary: s)
  case (Cons p ps)
  then obtain s1 where s1: "f p s = Inr s1" "go_fold f ps s1 = Inr s'"
    by (auto simp: go_bind_Inr_iff)
  have "emits (P p) p s s1" using Cons.prems(2) s1(1) by simp
  moreover have "plan_ids (ro_plan s') \<subseteq># plan_ids (ro_plan s1) + mset (filter P ps)"
    using Cons.IH [OF s1(2)] Cons.prems(2) by simp
  ultimately show ?case
    by (auto simp: emits_def intro: subset_mset.trans subset_mset.add_increasing2)
qed simp

lemma do_update_emits: "do_update tapp p s = Inr s' \<Longrightarrow> emits True p s s'"
  using newInstance_id [of tapp p]
  by (auto simp: do_update_def go_bind_result_Inr_iff emits_def emits_simps)

lemma set_force_chosen: "set (force_chosen m A ps) \<subseteq> set ps"
  by (induction m A ps rule: force_chosen.induct) auto

lemma set_rolling_chosen: "set (rolling_chosen m A ps) \<subseteq> set ps"
  by (induction m A ps rule: rolling_chosen.induct) auto

context action_table
begin

lemma do_recreate_emits:
  "do_recreate tapp (map_of podMap p) p s = Inr s' \<Longrightarrow> emits True p s s'"
  using pod_index [of p]
  by (auto simp: do_recreate_def newInstanceWithPod_simps emits_def emits_simps split: option.splits sum.splits)

lemma delete_create_emits:
  assumes "delete_create_step nodeGet tapp podActions podMap p s = Inr s'"
  shows "emits (p \<notin> update_pods podActions) p s s'"
  using assms pod_index [of p] newInstance_id [of tapp p]
  by (auto simp: delete_create_step_def newInstanceWithPod_simps emits_def emits_simps update_pods_def
      Let_def go_bind_result_Inr_iff split: option.splits sum.splits PodAction.splits if_splits)

lemma force_update_emits:
  assumes "force_update_step tapp podActions podMap m p s = Inr s'"
  shows "emits (p \<in> force_pods tapp podActions) p s s'"
  using assms do_update_emits [of tapp p s s'] do_recreate_emits [of p s s']
  by (auto simp: force_update_step_def update_kind_defs Let_def emits_def dest: skip_pod_Inr
      split: option.splits PodAction.splits if_splits)

lemma rolling_update_emits:
  assumes "rolling_update_step tapp podActions podMap m p s = Inr s'"
  shows "emits True p s s'"
  using assms do_update_emits [of tapp p s s'] do_recreate_emits [of p s s']
  by (auto simp: rolling_update_step_def Let_def emits_def dest: skip_pod_Inr
      split: option.splits PodAction.splits if_splits)

lemma force_rolling_list:
  assumes "go_fold (force_update_step tapp podActions podMap m) ps s = Inr s'"
  shows "ro_rolling s' = ro_rolling s @ filter (\<lambda>p. p \<in> rolling_pods tapp podActions) ps"
  using assms
proof (induction ps arbitrary: s)
  case (Cons p ps)
  then obtain s1 where s1: "force_update_step tapp podActions podMap m p s = Inr s1"
    "go_fold (force_update_step tapp podActions podMap m) ps s1 = Inr s'"
    by (auto simp: go_bind_Inr_iff)
  from s1(1) show ?case
    by (cases rule: force_update_step_cases) (auto simp: Cons.IH [OF s1(2)] touches_def)
qed simp

lemma first_loop_ids:
  assumes "go_fold (delete_create_step nodeGet tapp podActions podMap) order1 start = Inr s1"
  shows "plan_ids (ro_plan s1) \<subseteq># mset (filter (\<lambda>p. p \<notin> update_pods podActions) order1)"
proof -
  have "plan_ids (ro_plan s1) \<subseteq># plan_ids (ro_plan start) + mset (filter (\<lambda>p. p \<notin> update_pods podActions) order1)"
    by (rule go_fold_emits [OF assms]) (rule delete_create_emits)
  then show ?thesis by (simp add: plan_ids_def [of "\<lparr>plan_add = [], plan_del = [], plan_forceDel = [], plan_update = []\<rparr>"])
qed

lemma force_loop_ids:
  assumes "go_fold (force_update_step tapp podActions podMap m) order2 s1 = Inr s2"
  shows "plan_ids (ro_plan s2) \<subseteq># plan_ids (ro_plan s1) + mset (filter (\<lambda>p. p \<in> force_pods tapp podActions) order2)"
  by (rule go_fold_emits [OF assms]) (rule force_update_emits)

lemma rolling_loop_ids:
  assumes "go_fold (rolling_update_step tapp podActions podMap m) (rollingOrder ps) s2 = Inr s3"
  shows "plan_ids (ro_plan s3) \<subseteq># plan_ids (ro_plan s2) + mset ps"
proof -
  have "plan_ids (ro_plan s3) \<subseteq># plan_ids (ro_plan s2) + mset (filter (\<lambda>_. True) (rollingOrder ps))"
    by (rule go_fold_emits [OF assms]) (rule rolling_update_emits)
  then show ?thesis by (simp add: rollingOrder_def)
qed

lemma transform_stages:
  assumes "transformPodActions gv nodeGet order1 order2 tapp podActions podMap running = Inr plan"
  obtains s1 where "go_fold (delete_create_step nodeGet tapp podActions podMap) order1 start = Inr s1"
    and "plan = ro_plan s1 \<or> (\<exists>m s2. go_fold (force_update_step tapp podActions podMap m) order2 s1 = Inr s2 \<and>
      (plan = ro_plan s2 \<or> (\<exists>k s3. go_fold (rolling_update_step tapp podActions podMap k)
         (rollingOrder (ro_rolling s2)) s2 = Inr s3 \<and> plan = ro_plan s3)))"
  using assms
  by (cases "gv (forceMaxUnavailable tapp) (int (card running)) True";
      cases "rollingMaxUnavailable gv tapp (int (card running))";
      auto simp: transformPodActions_def Let_def go_bind_Inr_iff; blast)

text \<open>An invariant of the three steps holds of every plan.\<close>

lemma transform_preserves:
  assumes "transformPodActions gv nodeGet order1 order2 tapp podActions podMap running = Inr plan"
    and "I (ro_plan start)"
    and "\<And>p s s'. I (ro_plan s) \<Longrightarrow> delete_create_step nodeGet tapp podActions podMap p s = Inr s' \<Longrightarrow> I (ro_plan s')"
    and "\<And>m p s s'. I (ro_plan s) \<Longrightarrow> force_update_step tapp podActions podMap m p s = Inr s' \<Longrightarrow> I (ro_plan s')"
    and "\<And>m p s s'. I (ro_plan s) \<Longrightarrow> rolling_update_step tapp podActions podMap m p s = Inr s' \<Longrightarrow> I (ro_plan s')"
  shows "I plan"
proof -
  note keeps = go_fold_preserves [where I = "\<lambda>s. I (ro_plan s)"]
  have first: "I (ro_plan s1)"
    if "go_fold (delete_create_step nodeGet tapp podActions podMap) order1 start = Inr s1" for s1
    by (rule keeps [OF that]) (use assms(2,3) in blast)+
  have force: "I (ro_plan s2)"
    if "I (ro_plan s1)" "go_fold (force_update_step tapp podActions podMap m) order2 s1 = Inr s2" for m s1 s2
    by (rule keeps [OF that(2,1)]) (rule assms(4))
  have roll: "I (ro_plan s3)"
    if "I (ro_plan s2)" "go_fold (rolling_update_step tapp podActions podMap m) ps s2 = Inr s3" for m ps s2 s3
    by (rule keeps [OF that(2,1)]) (rule assms(5))
  from transform_stages [OF assms(1)] show ?thesis using first force roll by metis
qed

text \<open>What a plan holds in every branch: the creations, the removals, and some of the updates.\<close>

definition contents_ok :: "node_getter \<Rightarrow> string list \<Rightarrow> rollout \<Rightarrow> bool" where
  "contents_ok nodeGet order1 s \<longleftrightarrow>
     plan_add (ro_plan s) = created tapp podActions order1 \<and>
     (\<exists>X. X \<subseteq> update_pods podActions \<and>
        touched (ro_plan s) = {p \<in> set order1. removable nodeGet tapp podActions podMap p} \<union> X)"

lemma contents_ok_touches_all:
  assumes "contents_ok nodeGet order1 s" "touches_all ps s s'" "set ps \<subseteq> update_pods podActions"
  shows "contents_ok nodeGet order1 s'"
proof -
  from assms(1) obtain X where "X \<subseteq> update_pods podActions"
    "touched (ro_plan s) = {p \<in> set order1. removable nodeGet tapp podActions podMap p} \<union> X"
    by (auto simp: contents_ok_def)
  with assms show ?thesis
    by (auto simp: contents_ok_def touches_all_def intro!: exI [of _ "X \<union> set ps"])
qed

lemma contents_ok_first:
  assumes "storage_ready tapp" "go_fold (delete_create_step nodeGet tapp podActions podMap) order1 start = Inr s1"
  shows "contents_ok nodeGet order1 s1"
  using first_loop_exact [OF assms(1), of nodeGet order1 start] assms(2)
  by (auto simp: contents_ok_def plan_effects)

lemma contents_ok_force:
  assumes "storage_ready tapp" "contents_ok nodeGet order1 s1"
    and "go_fold (force_update_step tapp podActions podMap m) order2 s1 = Inr s2"
  shows "contents_ok nodeGet order1 s2"
proof -
  let ?ps = "force_chosen m (ro_available s1) (filter (\<lambda>p. p \<in> force_pods tapp podActions) order2)"
  have "set ?ps \<subseteq> update_pods podActions"
    by (rule order_trans [OF set_force_chosen]) (auto simp: update_kind_defs)
  moreover have "touches_all ?ps s1 s2"
    using force_loop_exact [OF assms(1), of m order2 s1] assms(3) by auto
  ultimately show ?thesis using contents_ok_touches_all [OF assms(2)] by blast
qed

lemma contents_ok_rolling:
  assumes "storage_ready tapp" "contents_ok nodeGet order1 s2" "set ps \<subseteq> rolling_pods tapp podActions"
    and "go_fold (rolling_update_step tapp podActions podMap m) ps s2 = Inr s3"
  shows "contents_ok nodeGet order1 s3"
proof -
  let ?ps = "rolling_chosen m (ro_available s2) ps"
  have "set ?ps \<subseteq> update_pods podActions"
    by (rule order_trans [OF set_rolling_chosen]) (use assms(3) in \<open>auto simp: update_kind_defs\<close>)
  moreover have "touches_all ?ps s2 s3"
    using rolling_loop_exact [OF assms(1,3), of m s2] assms(4) by auto
  ultimately show ?thesis using contents_ok_touches_all [OF assms(2)] by blast
qed

lemma transform_contents:
  assumes result: "transformPodActions gv nodeGet order1 order2 tapp podActions podMap running = Inr plan"
    and ready: "storage_ready tapp"
  shows "plan_add plan = created tapp podActions order1"
    and "\<exists>X. X \<subseteq> update_pods podActions \<and>
      touched plan = {p \<in> set order1. removable nodeGet tapp podActions podMap p} \<union> X"
proof -
  obtain s1 where s1: "go_fold (delete_create_step nodeGet tapp podActions podMap) order1 start = Inr s1"
    and rest: "plan = ro_plan s1 \<or> (\<exists>m s2. go_fold (force_update_step tapp podActions podMap m) order2 s1 = Inr s2 \<and>
      (plan = ro_plan s2 \<or> (\<exists>k s3. go_fold (rolling_update_step tapp podActions podMap k)
         (rollingOrder (ro_rolling s2)) s2 = Inr s3 \<and> plan = ro_plan s3)))"
    by (rule transform_stages [OF result])
  note ok1 = contents_ok_first [OF ready s1]
  note ok2 = contents_ok_force [OF ready ok1]
  have roll: "set (rollingOrder (ro_rolling s2)) \<subseteq> rolling_pods tapp podActions"
    if "go_fold (force_update_step tapp podActions podMap m) order2 s1 = Inr s2" for m s2
    using force_rolling_list [OF that] first_loop_keeps [OF s1]
    by (auto simp: first_loop_done_def rollingOrder_def)
  have "\<exists>s. plan = ro_plan s \<and> contents_ok nodeGet order1 s"
    using rest ok1 ok2 contents_ok_rolling [OF ready _ roll] by blast
  then show "plan_add plan = created tapp podActions order1"
    and "\<exists>X. X \<subseteq> update_pods podActions \<and>
      touched plan = {p \<in> set order1. removable nodeGet tapp podActions podMap p} \<union> X"
    by (auto simp: contents_ok_def)
qed

lemma transform_touched:
  assumes "transformPodActions gv nodeGet order1 order2 tapp podActions podMap running = Inr plan"
    and "storage_ready tapp" "range_order podActions order2"
    and "gv (forceMaxUnavailable tapp) (int (card running)) True = Inr vF"
    and "rollingMaxUnavailable gv tapp (int (card running)) = Inr vR"
    and "forced = set (force_chosen (int (card running) - vF) avail
          (filter (\<lambda>p. p \<in> force_pods tapp podActions) order2))"
  shows "touched plan = {p \<in> set order1. removable nodeGet tapp podActions podMap p} \<union> forced \<union>
    set (rolling_chosen (int (card running) - vR) (avail - forced) (rolling_list tapp podActions))"
  by (rule transform_exact [OF assms(2-6) refl, of nodeGet order1]) (use assms(1) in simp)

lemma set_rolling_list: "set (rolling_list tapp podActions) = rolling_pods tapp podActions"
  "distinct (rolling_list tapp podActions)"
  using finite_subset [OF rolling_subset_running finite_running]
  by (simp_all add: rolling_list_def rollingOrder_def)

lemma removable_not_updated:
  "{p \<in> ps. removable nodeGet tapp podActions podMap p} \<inter> update_pods podActions = {}"
  by (auto simp: removable_def update_pods_def)

text \<open>No instance is named twice by a plan, in the same list or in two lists.\<close>

lemma transform_ids:
  assumes result: "transformPodActions gv nodeGet order1 order2 tapp podActions podMap running = Inr plan"
  shows "plan_ids plan \<subseteq># mset (filter (\<lambda>p. p \<notin> update_pods podActions) order1) +
    mset (filter (\<lambda>p. p \<in> force_pods tapp podActions) order2) +
    mset (filter (\<lambda>p. p \<in> rolling_pods tapp podActions) order2)"
    (is "_ \<subseteq># ?A + ?F + ?R")
proof -
  obtain s1 where s1: "go_fold (delete_create_step nodeGet tapp podActions podMap) order1 start = Inr s1"
    and rest: "plan = ro_plan s1 \<or> (\<exists>m s2. go_fold (force_update_step tapp podActions podMap m) order2 s1 = Inr s2 \<and>
      (plan = ro_plan s2 \<or> (\<exists>k s3. go_fold (rolling_update_step tapp podActions podMap k)
         (rollingOrder (ro_rolling s2)) s2 = Inr s3 \<and> plan = ro_plan s3)))"
    by (rule transform_stages [OF result])
  have A: "plan_ids (ro_plan s1) \<subseteq># ?A" by (rule first_loop_ids [OF s1])
  have F: "plan_ids (ro_plan s2) \<subseteq># ?A + ?F" "mset (ro_rolling s2) = ?R"
    if s2: "go_fold (force_update_step tapp podActions podMap m) order2 s1 = Inr s2" for m s2
  proof -
    show "plan_ids (ro_plan s2) \<subseteq># ?A + ?F"
      by (rule subset_mset.order_trans [OF force_loop_ids [OF s2]]) (rule mset_subset_eq_mono_add [OF A subset_mset.refl])
    show "mset (ro_rolling s2) = ?R"
      using force_rolling_list [OF s2] first_loop_keeps [OF s1] by (simp add: first_loop_done_def)
  qed
  have R: "plan_ids (ro_plan s3) \<subseteq># ?A + ?F + ?R"
    if s2: "go_fold (force_update_step tapp podActions podMap m) order2 s1 = Inr s2"
      and s3: "go_fold (rolling_update_step tapp podActions podMap k) (rollingOrder (ro_rolling s2)) s2 = Inr s3" for m k s2 s3
    using subset_mset.order_trans [OF rolling_loop_ids [OF s3] mset_subset_eq_mono_add [OF F(1) [OF s2] subset_mset.refl]]
    by (simp add: F(2) [OF s2])
  have "X \<subseteq># ?A \<Longrightarrow> X \<subseteq># ?A + ?F + ?R" "X \<subseteq># ?A + ?F \<Longrightarrow> X \<subseteq># ?A + ?F + ?R" for X
    by (simp_all add: subset_mset.add_increasing2)
  with rest A F(1) R show ?thesis by blast
qed

lemma transform_one_operation:
  assumes "transformPodActions gv nodeGet order1 order2 tapp podActions podMap running = Inr plan"
    and "distinct order1" "distinct order2"
  shows "distinct (map ins_id (plan_add plan @ plan_del plan @ plan_forceDel plan @ plan_update plan))"
proof -
  let ?ids = "filter (\<lambda>p. p \<notin> update_pods podActions) order1 @
    filter (\<lambda>p. p \<in> force_pods tapp podActions) order2 @ filter (\<lambda>p. p \<in> rolling_pods tapp podActions) order2"
  have "plan_ids plan \<subseteq># mset ?ids" using transform_ids [OF assms(1)] by (simp add: add.assoc)
  moreover have "distinct ?ids" using assms(2,3) by (auto simp: update_kind_defs)
  ultimately show ?thesis unfolding plan_ids_def by (rule distinct_submultiset)
qed

end

subsection \<open>The actions of the code\<close>

abbreviation desiredRunning :: "bool \<Rightarrow> TApp \<Rightarrow> string set" where
  "desiredRunning d tapp \<equiv> fst (getDesiredInstance d tapp)"

abbreviation desiredCompleted :: "bool \<Rightarrow> TApp \<Rightarrow> string set" where
  "desiredCompleted d tapp \<equiv> snd (getDesiredInstance d tapp)"

abbreviation nextActions :: "bool \<Rightarrow> TApp \<Rightarrow> Pod list \<Rightarrow> PodAction amap" where
  "nextActions d tapp pods \<equiv>
     getNextActionsForPods tapp (desiredRunning d tapp) (desiredCompleted d tapp) (makePodMap pods)"

abbreviation availablePods :: "bool \<Rightarrow> TApp \<Rightarrow> Pod list \<Rightarrow> string set" where
  "availablePods d tapp pods \<equiv> getAvailablePods (makePodMap pods) (desiredRunning d tapp)"

lemma desired_props:
  "finite (desiredRunning d tapp)" "finite (desiredCompleted d tapp)"
  "desiredRunning d tapp \<inter> desiredCompleted d tapp = {}" "desiredRunning d tapp \<subseteq> set (replica_ids tapp)"
  using getDesiredInstance_finite [of d tapp] by (simp_all add: prod_eq_iff)

lemma map_of_nextActions:
  "map_of (nextActions d tapp pods) iid =
     next_action tapp (desiredRunning d tapp) (desiredCompleted d tapp) (makePodMap pods) iid"
  by (rule getNextActionsForPods_lookup) (rule desired_props)+

lemma deletePod_not_available:
  assumes "next_action tapp (desiredRunning d tapp) (desiredCompleted d tapp) podMap iid = Some deletePod"
  shows "iid \<notin> getAvailablePods podMap (desiredRunning d tapp)"
proof
  assume "iid \<in> getAvailablePods podMap (desiredRunning d tapp)"
  then obtain pod where running: "iid \<in> desiredRunning d tapp" and pod: "map_of podMap iid = Some pod"
    and avail: "isPodAvailable pod"
    by (auto simp: set_getAvailablePods desired_props(1))
  from avail have "\<not> isPodDying (Some pod)" "\<not> isPodCompleted pod"
    by (auto simp: isPodAvailable_def isPodInActive_def isPodCompleted_def)
  then have "runningPodAction tapp podMap iid \<noteq> Some deletePod" by (simp add: runningPodAction_def pod)
  moreover have "iid \<notin> desiredCompleted d tapp" "unwantedPodAction tapp iid = None"
    using running desired_props(3,4) [of d tapp] wanted_not_unwanted by blast+
  ultimately show False using assms pod running by (simp add: next_action_def)
qed

lemma updatePod_template:
  assumes "next_action tapp running completed podMap iid = Some updatePod"
  shows "\<exists>template. getPodTemplate (tapp_Spec tapp) iid = Inr template"
  using next_action_cases(3) [OF assms]
  by (cases "getPodTemplate (tapp_Spec tapp) iid") (auto simp: isUniqHashChanged_def)

interpretation planned: action_table tapp "nextActions d tapp pods" "makePodMap pods" "desiredRunning d tapp"
  for d tapp pods
proof
  fix p a
  show "\<exists>pod. map_of (makePodMap pods) p = Some pod"
    if "map_of (nextActions d tapp pods) p = Some a" "a \<noteq> createPod"
    using that unfolding map_of_nextActions by (rule next_action_cases(2))
  show "p \<in> desiredRunning d tapp"
    if "map_of (nextActions d tapp pods) p = Some a" "a = updatePod \<or> a = recreatePod"
    using that unfolding map_of_nextActions by (rule next_action_cases(3) [THEN conjunct1])
  show "p \<notin> availablePods d tapp pods" if "map_of (nextActions d tapp pods) p = Some deletePod"
    using that unfolding map_of_nextActions by (rule deletePod_not_available)
  show "\<exists>template. getPodTemplate (tapp_Spec tapp) p = Inr template"
    if "map_of (nextActions d tapp pods) p = Some updatePod"
    using that unfolding map_of_nextActions by (rule updatePod_template)
  show "getPodIndex pod = Inr p" if "map_of (makePodMap pods) p = Some pod" for pod
    using map_of_makePodMap_index [OF that] by simp
qed (use desired_props getNextActionsForPods_distinct in auto)

lemma instanceToSync_eq:
  "instanceToSync spew d gv nodeGet order1 order2 tapp0 pods =
     (let tapp = updateTemplateHash spew tapp0
      in transformPodActions gv nodeGet order1 order2 tapp (nextActions d tapp pods) (makePodMap pods)
           (desiredRunning d tapp))"
  by (simp add: instanceToSync_def Let_def split: prod.split)

lemma updateTemplateHash_simps [simp]:
  "tapp_Meta (updateTemplateHash spew tapp) = tapp_Meta tapp"
  "tapp_Status (updateTemplateHash spew tapp) = tapp_Status tapp"
  "spec_Replicas (tapp_Spec (updateTemplateHash spew tapp)) = spec_Replicas (tapp_Spec tapp)"
  "spec_Selector (tapp_Spec (updateTemplateHash spew tapp)) = spec_Selector (tapp_Spec tapp)"
  "spec_Statuses (tapp_Spec (updateTemplateHash spew tapp)) = spec_Statuses (tapp_Spec tapp)"
  "spec_Templates (tapp_Spec (updateTemplateHash spew tapp)) = spec_Templates (tapp_Spec tapp)"
  "spec_UpdateStrategy (tapp_Spec (updateTemplateHash spew tapp)) = spec_UpdateStrategy (tapp_Spec tapp)"
  "spec_DefaultTemplateName (tapp_Spec (updateTemplateHash spew tapp)) = spec_DefaultTemplateName (tapp_Spec tapp)"
  "spec_VolumeClaimTemplates (tapp_Spec (updateTemplateHash spew tapp)) = spec_VolumeClaimTemplates (tapp_Spec tapp)"
  by (simp_all add: updateTemplateHash_def Let_def)

lemma updateTemplateHash_storage [simp]: "storage_ready (updateTemplateHash spew tapp) = storage_ready tapp"
  by (simp add: storage_ready_def)

lemma desiredRunning_updateTemplateHash [simp]:
  "desiredRunning d (updateTemplateHash spew tapp) = desiredRunning d tapp"
  by (simp add: getDesiredInstance_def isTAppFinished_def replica_ids_def Let_def)

lemma instanceToSync_plan:
  assumes "storage_ready tapp0"
  obtains plan where "instanceToSync spew d gv nodeGet order1 order2 tapp0 pods = Inr plan"
  using assms planned.transform_ok [of "updateTemplateHash spew tapp0" gv nodeGet order1 order2 d pods]
  by (auto simp: instanceToSync_eq Let_def)

lemma sample_storage_ready: "storage_ready (sampleTApp n)"
  by (simp add: storage_ready_def sample_defs)

subsection \<open>Theorems on the plan\<close>



text \<open>C23. Planning never dereferences a missing pod or writes a nil map: for a TApp that has a
  selector or no claim templates, a plan is computed for all pods, all visiting orders, all answers of the
  node lister and all results of the percentage parser.\<close>

theorem instanceToSync_no_panic:
  assumes "storage_ready tapp0"
  shows "\<exists>plan. instanceToSync spew d gv nodeGet order1 order2 tapp0 pods = Inr plan"
  by (rule instanceToSync_plan [OF assms]) blast

theorem instanceToSync_no_panic_witness:
  "\<exists>plan. instanceToSync (\<lambda>_. '''') True (\<lambda>_ _ _. Inl (Errorf ''bad'')) (\<lambda>_. Inl NotFound) [''0''] [''0'']
      (sampleTApp 1) [samplePod ''0''] = Inr plan"
  by (rule instanceToSync_no_panic) (rule sample_storage_ready)

text \<open>C16. One operation per instance: a plan names no instance twice, neither in one of its lists
  (creations, deletions, forced deletions, in-place updates) nor in two of them.\<close>

theorem instanceToSync_one_operation:
  assumes "instanceToSync spew d gv nodeGet order1 order2 tapp0 pods = Inr plan"
    and "distinct order1" "distinct order2"
  shows "distinct (map ins_id (plan_add plan @ plan_del plan @ plan_forceDel plan @ plan_update plan))"
  using planned.transform_one_operation assms unfolding instanceToSync_eq Let_def by blast

theorem instanceToSync_one_operation_witness:
  "\<exists>plan. instanceToSync (\<lambda>_. '''') True (\<lambda>_ _ _. Inr 1) (\<lambda>_. Inl NotFound) [''0'', ''1''] [''1'', ''0'']
      (sampleTApp 2) [samplePod ''0''] = Inr plan \<and>
    distinct (map ins_id (plan_add plan @ plan_del plan @ plan_forceDel plan @ plan_update plan))"
proof -
  obtain plan where plan: "instanceToSync (\<lambda>_. '''') True (\<lambda>_ _ _. Inr 1) (\<lambda>_. Inl NotFound)
      [''0'', ''1''] [''1'', ''0''] (sampleTApp 2) [samplePod ''0''] = Inr plan"
    by (rule instanceToSync_plan [OF sample_storage_ready])
  from instanceToSync_one_operation [OF this] show ?thesis using plan by auto
qed

lemma set_created:
  "ins \<in> set (created tapp podActions ps) \<longleftrightarrow>
     ins_id ins \<in> set ps \<and> map_of podActions (ins_id ins) = Some createPod \<and>
     newInstance tapp (ins_id ins) = Inr (Inr ins)"
proof -
  let ?f = "\<lambda>p. if map_of podActions p = Some createPod
     then (case newInstance tapp p of Inr (Inr ins) \<Rightarrow> Some ins | _ \<Rightarrow> None) else None"
  have f: "?f p = Some ins \<longleftrightarrow> map_of podActions p = Some createPod \<and> newInstance tapp p = Inr (Inr ins)" for p
    by (simp split: sum.split)
  have "ins \<in> set (created tapp podActions ps) \<longleftrightarrow> (\<exists>p\<in>set ps. ?f p = Some ins)"
    unfolding created_def by (induction ps) (auto simp: List.map_filter_simps split: option.split)
  then show ?thesis unfolding f using newInstance_id by blast
qed

lemma nextActions_create:
  "map_of (nextActions d tapp pods) p = Some createPod \<longleftrightarrow>
     p \<in> desiredRunning d tapp \<and> map_of (makePodMap pods) p = None"
proof
  show "map_of (nextActions d tapp pods) p = Some createPod \<Longrightarrow>
     p \<in> desiredRunning d tapp \<and> map_of (makePodMap pods) p = None"
    unfolding map_of_nextActions by (erule next_action_cases(1)) simp
qed (simp add: map_of_nextActions next_action_def)

lemma range_order_Some: "range_order m ks \<Longrightarrow> map_of m p = Some a \<Longrightarrow> p \<in> set ks"
  by (force simp: range_order_def dest: map_of_SomeD)

lemma newInstance_made_iff:
  assumes "storage_ready tapp"
  shows "(\<exists>ins. newInstance tapp p = Inr (Inr ins)) \<longleftrightarrow> (\<exists>template. getPodTemplate (tapp_Spec tapp) p = Inr template)"
proof (cases "getPodTemplate (tapp_Spec tapp) p")
  case (Inr template)
  then show ?thesis using newInstance_ok [OF Inr assms] by metis
qed (simp add: newInstance_missing_template)

text \<open>C14. What is created and removed. Under any visiting order of the action map, the instances
  a plan creates are exactly the desired running ones that have no pod and whose template exists, each
  built by \<^verbatim>\<open>newInstance\<close>; and of the pods to delete exactly those are removed that are not dying
  already, or are dying on a node that is gone or not ready and may be deleted by force.\<close>

theorem instanceToSync_creates_and_removes:
  assumes "instanceToSync spew d gv nodeGet order1 order2 tapp0 pods = Inr plan"
    and "storage_ready tapp0"
    and "tapp = updateTemplateHash spew tapp0"
    and "range_order (nextActions d tapp pods) order1"
  shows "ins_id ` set (plan_add plan) =
      {p \<in> desiredRunning d tapp. map_of (makePodMap pods) p = None \<and>
         (\<exists>template. getPodTemplate (tapp_Spec tapp) p = Inr template)} \<and>
    (\<forall>ins \<in> set (plan_add plan). newInstance tapp (ins_id ins) = Inr (Inr ins)) \<and>
    touched plan \<inter> {p. map_of (nextActions d tapp pods) p = Some deletePod} =
      {p. map_of (nextActions d tapp pods) p = Some deletePod \<and>
         (needForceDelete nodeGet tapp (map_of (makePodMap pods) p) \<or> \<not> isPodDying (map_of (makePodMap pods) p))}"
proof (intro conjI)
  have ready: "storage_ready tapp" using assms(2,3) by simp
  have result: "transformPodActions gv nodeGet order1 order2 tapp (nextActions d tapp pods) (makePodMap pods)
      (desiredRunning d tapp) = Inr plan"
    using assms(1,3) by (simp add: instanceToSync_eq Let_def)
  have add: "ins \<in> set (plan_add plan) \<longleftrightarrow> ins_id ins \<in> desiredRunning d tapp \<and>
      map_of (makePodMap pods) (ins_id ins) = None \<and> newInstance tapp (ins_id ins) = Inr (Inr ins)" for ins
    unfolding planned.transform_contents(1) [OF result ready] set_created
    using nextActions_create range_order_Some [OF assms(4)] by blast
  then show "\<forall>ins \<in> set (plan_add plan). newInstance tapp (ins_id ins) = Inr (Inr ins)" by blast
  show "ins_id ` set (plan_add plan) = {p \<in> desiredRunning d tapp. map_of (makePodMap pods) p = None \<and>
         (\<exists>template. getPodTemplate (tapp_Spec tapp) p = Inr template)}"
    unfolding newInstance_made_iff [OF ready, symmetric] image_def
    using add newInstance_id by (intro equalityI subsetI; clarsimp; metis)
  show "touched plan \<inter> {p. map_of (nextActions d tapp pods) p = Some deletePod} =
      {p. map_of (nextActions d tapp pods) p = Some deletePod \<and>
         (needForceDelete nodeGet tapp (map_of (makePodMap pods) p) \<or> \<not> isPodDying (map_of (makePodMap pods) p))}"
    using planned.transform_contents(2) [OF result ready] range_order_Some [OF assms(4)]
    by (auto simp: removable_def update_pods_def)
qed

lemma range_order_nextActions: "range_order (nextActions d tapp pods) (map fst (nextActions d tapp pods))"
  by (simp add: range_order_def getNextActionsForPods_distinct)

theorem instanceToSync_creates_and_removes_witness:
  "let tapp = updateTemplateHash (\<lambda>_. '''') (sampleTApp 2); pods = [samplePod ''0''];
       order1 = map fst (nextActions True tapp pods)
   in \<exists>plan. instanceToSync (\<lambda>_. '''') True (\<lambda>_ _ _. Inr 1) (\<lambda>_. Inl NotFound) order1 [] (sampleTApp 2) pods = Inr plan \<and>
     ins_id ` set (plan_add plan) = {p \<in> desiredRunning True tapp. map_of (makePodMap pods) p = None \<and>
         (\<exists>template. getPodTemplate (tapp_Spec tapp) p = Inr template)}"
proof -
  let ?tapp = "updateTemplateHash (\<lambda>_. '''') (sampleTApp 2)" and ?pods = "[samplePod ''0'']"
  let ?order1 = "map fst (nextActions True ?tapp ?pods)"
  obtain plan where plan: "instanceToSync (\<lambda>_. '''') True (\<lambda>_ _ _. Inr 1) (\<lambda>_. Inl NotFound) ?order1 []
      (sampleTApp 2) ?pods = Inr plan"
    by (rule instanceToSync_plan [OF sample_storage_ready])
  note instanceToSync_creates_and_removes [OF plan sample_storage_ready refl range_order_nextActions]
  with plan show ?thesis unfolding Let_def by blast
qed

text \<open>A pod without hash labels is recreated.\<close>

lemma unlabelled_pod_recreated:
  assumes "iid \<in> desiredRunning d tapp" "map_of (makePodMap pods) iid = Some pod"
    and "\<not> isPodDying (Some pod)" "\<not> isPodCompleted pod"
    and "getPodTemplate (tapp_Spec tapp) iid = Inr (updateHash spew template)"
    and "GetTemplateHash (pt_Labels template) = ''''"
    and "GetTemplateHash (pod_Labels pod) = ''''" "GetUniqHash (pod_Labels pod) = ''''"
  shows "map_of (nextActions d tapp pods) iid = Some recreatePod"
proof -
  have "iid \<notin> desiredCompleted d tapp" "unwantedPodAction tapp iid = None"
    using assms(1) desired_props(3,4) [of d tapp] wanted_not_unwanted by blast+
  moreover have "GetTemplateHash (pt_Labels (updateHash spew template)) \<noteq> ''''"
    using default_hash.update_template_hash [of spew template] by simp
  moreover have "GetUniqHash (pt_Labels (updateHash spew template)) \<noteq> ''''"
    using default_hash.update_uniq_hash [of template spew] assms(6) by (metis generateTemplateHash_not_empty generateUniqHash_not_empty)
  ultimately show ?thesis
    using assms
    by (simp add: map_of_nextActions next_action_def runningPodAction_def isTemplateHashChanged_def
        isUniqHashChanged_def eq_commute [of "[]"])
qed

lemma digit_char_examples: "digit_char 0 = CHR ''0''" "digit_char (Suc 0) = CHR ''1''"
  by code_simp+

lemma sample_replica_ids: "replica_ids (sampleTApp 1) = [''0'']" "replica_ids (sampleTApp 2) = [''0'', ''1'']"
  "replica_ids samplePoolTApp = [''0'']"
  by (simp_all add: replica_ids_def sample_defs Itoa_def nat_string.simps digit_char_examples upt_rec)

lemma sample_running: "desiredRunning True (sampleTApp 2) = {''0'', ''1''}" "desiredRunning True samplePoolTApp = {''0''}"
  by (simp_all add: getDesiredInstance_def Let_def sample_replica_ids)
    (auto simp: sample_defs isTAppFinished_def)

text \<open>The exact outcome of the rolling update.\<close>

lemma rolling_update_exact:
  assumes "instanceToSync spew d gv nodeGet order1 order2 tapp0 pods = Inr plan"
    and "storage_ready tapp0"
    and "tapp = updateTemplateHash spew tapp0"
    and "range_order (nextActions d tapp pods) order2"
    and "n = int (card (desiredRunning d tapp))"
    and "gv (forceMaxUnavailable tapp) n True = Inr vForce"
    and "rollingMaxUnavailable gv tapp n = Inr vRolling"
    and "force_pods tapp (nextActions d tapp pods) = {}"
  shows "touched plan \<inter> update_pods (nextActions d tapp pods) =
    {p \<in> update_pods (nextActions d tapp pods). p \<notin> availablePods d tapp pods} \<union>
    set (take (nat (int (card (availablePods d tapp pods)) - (n - vRolling)))
      (filter (\<lambda>p. p \<in> availablePods d tapp pods) (rolling_list tapp (nextActions d tapp pods))))"
proof -
  let ?A = "nextActions d tapp pods" and ?av = "availablePods d tapp pods"
  let ?chosen = "set (rolling_chosen (n - vRolling) ?av (rolling_list tapp ?A))"
  have result: "transformPodActions gv nodeGet order1 order2 tapp ?A (makePodMap pods) (desiredRunning d tapp) = Inr plan"
    and ready: "storage_ready tapp"
    using assms(1-3) by (simp_all add: instanceToSync_eq Let_def)
  have rolling: "rolling_pods tapp ?A = update_pods ?A" using assms(8) by (auto simp: update_kind_defs)
  have "touched plan = {p \<in> set order1. removable nodeGet tapp ?A (makePodMap pods) p} \<union> ?chosen"
    using planned.transform_touched [OF result ready assms(4) _ _ refl] assms(5-8) by simp
  moreover have "?chosen \<subseteq> update_pods ?A"
    using set_rolling_chosen planned.set_rolling_list(1) rolling by blast
  ultimately have "touched plan \<inter> update_pods ?A = ?chosen"
    using planned.removable_not_updated by blast
  also have "\<dots> = {p \<in> update_pods ?A. p \<notin> ?av} \<union>
      set (take (nat (int (card ?av) - (n - vRolling))) (filter (\<lambda>p. p \<in> ?av) (rolling_list tapp ?A)))"
    using rolling_chosen_set [OF planned.finite_avail planned.set_rolling_list(2)] planned.set_rolling_list(1) rolling
    by simp
  finally show ?thesis .
qed

text \<open>C7. Progress of the rolling update. When no force update is pending, the updated pods (in
  place or by recreation) are exactly: every pod of the rolling update that is not available, and of the
  available ones the first so many, in ascending order of their number, as the budget leaves. The result
  does not depend on the order in which the maps are visited.\<close>

theorem instanceToSync_rolling_exact:
  assumes "instanceToSync spew d gv nodeGet order1 order2 tapp0 pods = Inr plan"
    and "storage_ready tapp0"
    and "tapp = updateTemplateHash spew tapp0"
    and "range_order (nextActions d tapp pods) order2"
    and "n = int (card (desiredRunning d tapp))"
    and "gv (forceMaxUnavailable tapp) n True = Inr vForce"
    and "rollingMaxUnavailable gv tapp n = Inr vRolling"
    and "force_pods tapp (nextActions d tapp pods) = {}"
  shows "touched plan \<inter> update_pods (nextActions d tapp pods) =
    {p \<in> update_pods (nextActions d tapp pods). p \<notin> availablePods d tapp pods} \<union>
    set (take (nat (int (card (availablePods d tapp pods)) - (n - vRolling)))
      (filter (\<lambda>p. p \<in> availablePods d tapp pods) (rolling_list tapp (nextActions d tapp pods))))"
  by (rule rolling_update_exact [OF assms])

lemma sample_recreated:
  "map_of (nextActions True (updateTemplateHash spew (sampleTApp 2)) [samplePod ''0'', samplePod ''1'']) ''0'' =
     Some recreatePod"
  "map_of (nextActions True (updateTemplateHash spew samplePoolTApp) [sampleCrashingPod ''0'']) ''0'' = Some recreatePod"
proof -
  have index: "getPodIndex (samplePod i) = Inr i" "getPodIndex (sampleCrashingPod i) = Inr i" for i
    by (simp_all add: getPodIndex_def sample_defs)
  show "map_of (nextActions True (updateTemplateHash spew (sampleTApp 2)) [samplePod ''0'', samplePod ''1'']) ''0'' =
     Some recreatePod"
    by (rule unlabelled_pod_recreated [where pod = "samplePod ''0''" and template = "sampleTemplate ''web:1''" and spew = spew])
      (simp_all add: sample_running makePodMap_def index, simp_all add: sample_defs isPodDying_def
        isPodCompleted_def getPodTemplate_def getPodTemplateName_def updateTemplateHash_def Let_def
        GetTemplateHash_def GetUniqHash_def gm_get_def TemplateHashKey_def UniqHashKey_def TAppInstanceKey_def)
  show "map_of (nextActions True (updateTemplateHash spew samplePoolTApp) [sampleCrashingPod ''0'']) ''0'' = Some recreatePod"
    by (rule unlabelled_pod_recreated [where pod = "sampleCrashingPod ''0''" and template = "sampleTemplate ''web:2''" and spew = spew])
      (simp_all add: sample_running makePodMap_def index, simp_all add: sample_defs isPodDying_def
        isPodCompleted_def getPodTemplate_def getPodTemplateName_def updateTemplateHash_def Let_def
        GetTemplateHash_def GetUniqHash_def gm_get_def TemplateHashKey_def UniqHashKey_def TAppInstanceKey_def
        DefaultTemplateName_def)
qed

theorem instanceToSync_rolling_exact_witness:
  "let tapp = updateTemplateHash (\<lambda>_. '''') (sampleTApp 2); pods = [samplePod ''0'', samplePod ''1''];
       actions = nextActions True tapp pods; order = map fst actions; av = availablePods True tapp pods
   in map_of actions ''0'' = Some recreatePod \<and>
     (\<exists>plan. instanceToSync (\<lambda>_. '''') True (\<lambda>_ _ _. Inr 1) (\<lambda>_. Inl NotFound) order order (sampleTApp 2) pods = Inr plan \<and>
       touched plan \<inter> update_pods actions = {p \<in> update_pods actions. p \<notin> av} \<union>
         set (take (nat (int (card av) - (2 - 1))) (filter (\<lambda>p. p \<in> av) (rolling_list tapp actions))))"
proof -
  let ?tapp = "updateTemplateHash (\<lambda>_. '''') (sampleTApp 2)" and ?pods = "[samplePod ''0'', samplePod ''1'']"
  let ?order = "map fst (nextActions True ?tapp ?pods)"
  obtain plan where plan: "instanceToSync (\<lambda>_. '''') True (\<lambda>_ _ _. Inr 1) (\<lambda>_. Inl NotFound) ?order ?order
      (sampleTApp 2) ?pods = Inr plan"
    by (rule instanceToSync_plan [OF sample_storage_ready])
  have roll: "rollingMaxUnavailable (\<lambda>_ _ _. Inr 1) ?tapp 2 = Inr 1"
    by (simp add: rollingMaxUnavailable_def sample_defs DefaultMaxUnavailable_def)
  have force: "force_pods ?tapp (nextActions True ?tapp ?pods) = {}"
    by (simp add: force_pods_def isInRollingUpdate_def getRollingTemplateKey_def getPodTemplateName_def Let_def)
      (simp add: sample_defs)
  have two: "2 = int (card (desiredRunning True ?tapp))" by (simp add: sample_running)
  note instanceToSync_rolling_exact [OF plan sample_storage_ready refl range_order_nextActions two refl roll force]
  with plan sample_recreated(1) show ?thesis unfolding Let_def by blast
qed

text \<open>Force updates wait for availability they do not need. When no more pods are available
  than the force budget keeps (with the default budget of 100 percent: when none is available), no pod
  of a force update is updated, not even one that is itself unavailable, whose update would cost
  nothing. The rolling update has no such restriction.\<close>

theorem instanceToSync_force_update_blocked:
  assumes "instanceToSync spew d gv nodeGet order1 order2 tapp0 pods = Inr plan"
    and "storage_ready tapp0"
    and "tapp = updateTemplateHash spew tapp0"
    and "range_order (nextActions d tapp pods) order2"
    and "n = int (card (desiredRunning d tapp))"
    and "gv (forceMaxUnavailable tapp) n True = Inr vForce"
    and "rollingMaxUnavailable gv tapp n = Inr vRolling"
    and "int (card (availablePods d tapp pods)) \<le> n - vForce"
    and "p \<in> force_pods tapp (nextActions d tapp pods)"
  shows "p \<notin> touched plan"
proof -
  let ?A = "nextActions d tapp pods" and ?av = "availablePods d tapp pods"
  have result: "transformPodActions gv nodeGet order1 order2 tapp ?A (makePodMap pods) (desiredRunning d tapp) = Inr plan"
    and ready: "storage_ready tapp"
    using assms(1-3) by (simp_all add: instanceToSync_eq Let_def)
  have "touched plan = {p \<in> set order1. removable nodeGet tapp ?A (makePodMap pods) p} \<union>
      set (rolling_chosen (n - vRolling) ?av (rolling_list tapp ?A))"
    using planned.transform_touched [OF result ready assms(4) _ _ refl] assms(5-8)
    by (simp add: force_chosen_blocked)
  moreover have "p \<notin> rolling_pods tapp ?A" "p \<in> update_pods ?A"
    using assms(9) by (auto simp: update_kind_defs)
  ultimately show ?thesis
    using set_rolling_chosen planned.set_rolling_list(1) [of tapp d pods] planned.removable_not_updated by blast
qed

theorem instanceToSync_force_update_blocked_witness:
  "let tapp = updateTemplateHash (\<lambda>_. '''') samplePoolTApp; pods = [sampleCrashingPod ''0''];
       actions = nextActions True tapp pods; order = map fst actions
   in map_of actions ''0'' = Some recreatePod \<and> ''0'' \<notin> availablePods True tapp pods \<and>
     (\<exists>plan. instanceToSync (\<lambda>_. '''') True (\<lambda>_ n _. Inr n) (\<lambda>_. Inl NotFound) order order samplePoolTApp pods = Inr plan \<and>
       ''0'' \<notin> touched plan)"
proof -
  let ?tapp = "updateTemplateHash (\<lambda>_. '''') samplePoolTApp" and ?pods = "[sampleCrashingPod ''0'']"
  let ?order = "map fst (nextActions True ?tapp ?pods)"
  have ready: "storage_ready samplePoolTApp" by (simp add: storage_ready_def sample_defs)
  then obtain plan where plan: "instanceToSync (\<lambda>_. '''') True (\<lambda>_ n _. Inr n) (\<lambda>_. Inl NotFound) ?order ?order
      samplePoolTApp ?pods = Inr plan"
    by (rule instanceToSync_plan)
  have roll: "rollingMaxUnavailable (\<lambda>_ n _. Inr n) ?tapp 1 = Inr 1"
    by (simp add: rollingMaxUnavailable_def sample_defs DefaultMaxUnavailable_def)
  have force: "''0'' \<in> force_pods ?tapp (nextActions True ?tapp ?pods)"
  proof -
    have "\<not> isInRollingUpdate ?tapp ''0''"
      by (simp add: isInRollingUpdate_def getRollingTemplateKey_def getPodTemplateName_def Let_def)
        (simp add: sample_defs DefaultTemplateName_def)
    with sample_recreated(2) show ?thesis unfolding force_pods_def update_pods_def by blast
  qed
  have avail: "availablePods True ?tapp ?pods = {}"
  proof -
    have "\<not> isPodAvailable (sampleCrashingPod ''0'')" by (simp add: isPodAvailable_def sample_defs)
    moreover have "getPodIndex (sampleCrashingPod ''0'') = Inr ''0''" by (simp add: getPodIndex_def sample_defs)
    ultimately show ?thesis
      by (simp add: set_getAvailablePods sample_running makePodMap_def)
  qed
  have one: "1 = int (card (desiredRunning True ?tapp))" by (simp add: sample_running)
  have few: "int (card (availablePods True ?tapp ?pods)) \<le> 1 - 1" unfolding avail by simp
  have "''0'' \<notin> touched plan"
    by (rule instanceToSync_force_update_blocked [OF plan ready refl range_order_nextActions one refl roll few force])
  with plan sample_recreated(2) avail show ?thesis unfolding Let_def by blast
qed

end
