(* ===== verification/Conditions.thy ===== *)
theory Conditions
  imports Status TApp_Instance
begin

text \<open>
  The readiness conditions of \<^verbatim>\<open>pkg/tapp/controller.go\<close>: \<^verbatim>\<open>setInPlaceUpdateCondition\<close>,
  \<^verbatim>\<open>syncInPlaceUpdateCondition\<close> and \<^verbatim>\<open>syncPodConditions\<close>.

  Parameters: the request \<open>updatePodStatus\<close> (\<^verbatim>\<open>Pods(ns).UpdateStatus\<close>), the pod lister \<open>podGet\<close>
  and the clock \<open>now\<close>, read once per iteration. The code modifies the caller's pod in place, in the
  first iteration only: a later one works on another object, or finds its own change and stops. Each
  function therefore returns the caller's pod as well. The goroutines of \<^verbatim>\<open>syncPodConditions\<close> work
  on different pods; they are run one after the other, in any order.
\<close>

subsection \<open>Definitions\<close>

type_synonym 'w pod_request = "Pod \<Rightarrow> 'w \<Rightarrow> Pod result \<times> 'w"
type_synonym 'w pod_getter = "string \<Rightarrow> string \<Rightarrow> 'w \<Rightarrow> Pod result"

definition gateReason :: string where
  "gateReason = ''ReadinessGatesNotReady''"

definition gateMessage :: string where
  "gateMessage = ''the status of pod readiness gate '' @ [CHR 0x22] @ InPlaceUpdateReady @ [CHR 0x22] @
     '' is not '' @ [CHR 0x22] @ ''True'' @ [CHR 0x22] @ '', but '' @ ''False''"

text \<open>The first loop: the conditions afterwards, \<^verbatim>\<open>found\<close> and \<^verbatim>\<open>needUpdate\<close>.\<close>

fun setGateCondition :: "ConditionStatus \<Rightarrow> int \<Rightarrow> PodCondition list \<Rightarrow> PodCondition list \<times> bool \<times> bool" where
  "setGateCondition status t [] = ([], False, True)"
| "setGateCondition status t (c # cs) =
     (if pc_Type c = InPlaceUpdateReady
      then (if pc_Status c \<noteq> status
            then (c\<lparr>pc_Status := status, pc_LastTransitionTime := t\<rparr> # cs, True, True)
            else (c # cs, True, False))
      else let (cs', found, needUpdate) = setGateCondition status t cs in (c # cs', found, needUpdate))"

text \<open>The two loops over the Ready condition.\<close>

fun clearReady :: "int \<Rightarrow> PodCondition list \<Rightarrow> PodCondition list" where
  "clearReady t [] = []"
| "clearReady t (c # cs) =
     (if pc_Type c = PodReady
      then (if pc_Status c \<noteq> ConditionFalse
            then c\<lparr>pc_Status := ConditionFalse, pc_LastTransitionTime := t, pc_Reason := gateReason,
                   pc_Message := gateMessage\<rparr> # cs
            else c # cs)
      else c # clearReady t cs)"

fun restoreReady :: "int \<Rightarrow> PodCondition list \<Rightarrow> PodCondition list" where
  "restoreReady t [] = []"
| "restoreReady t (c # cs) =
     (if pc_Type c = PodReady
      then (if pc_Status c = ConditionFalse \<and> pc_Reason c = gateReason \<and> pc_Message c = gateMessage
            then c\<lparr>pc_Status := ConditionTrue, pc_LastTransitionTime := t, pc_Reason := '''',
                   pc_Message := ''''\<rparr> # cs
            else c # cs)
      else c # restoreReady t cs)"

definition applyCondition :: "ConditionStatus \<Rightarrow> int \<Rightarrow> Pod \<Rightarrow> Pod \<times> bool" where
  "applyCondition status t pod =
     (let (cs, found, needUpdate) = setGateCondition status t (pod_Conditions pod);
          cs1 = (if found then cs
                 else cs @ [\<lparr>pc_Type = InPlaceUpdateReady, pc_Status = status, pc_LastTransitionTime = t,
                             pc_Reason = '''', pc_Message = ''''\<rparr>]);
          cs2 = (if \<not> needUpdate then cs1
                 else if status = ConditionFalse then clearReady t cs1 else restoreReady t cs1)
      in (pod\<lparr>pod_Status := (pod_Status pod)\<lparr>pst_Conditions := cs2\<rparr>\<rparr>, needUpdate))"

text \<open>The retry loop with \<open>r\<close> iterations left.\<close>

fun conditionLoop ::
  "'w pod_request \<Rightarrow> 'w pod_getter \<Rightarrow> ('w \<Rightarrow> int) \<Rightarrow> ConditionStatus \<Rightarrow> nat \<Rightarrow> Pod \<Rightarrow> 'w \<Rightarrow> 'w" where
  "conditionLoop updatePodStatus podGet now status 0 pod w = w"
| "conditionLoop updatePodStatus podGet now status (Suc r) pod w =
     (let (pod1, needUpdate) = applyCondition status (now w) pod
      in if \<not> needUpdate then w
         else case updatePodStatus pod1 w of
                (Inr _, w1) \<Rightarrow> w1
              | (Inl err, w1) \<Rightarrow>
                  if IsConflict err
                  then (case podGet (pod_Namespace pod1) (pod_Name pod1) w1 of
                          Inl _ \<Rightarrow> conditionLoop updatePodStatus podGet now status r pod1 w1
                        | Inr newPod \<Rightarrow> conditionLoop updatePodStatus podGet now status r newPod w1)
                  else w1)"

text \<open>A nil client is \<open>None\<close>.\<close>

definition setInPlaceUpdateCondition ::
  "'w pod_request option \<Rightarrow> 'w pod_getter \<Rightarrow> ('w \<Rightarrow> int) \<Rightarrow> Pod \<Rightarrow> ConditionStatus \<Rightarrow> 'w \<Rightarrow> Pod \<times> 'w" where
  "setInPlaceUpdateCondition kubeclient podGet now pod status w =
     (case kubeclient of
        None \<Rightarrow> (pod, w)
      | Some updatePodStatus \<Rightarrow>
          (fst (applyCondition status (now w) pod),
           conditionLoop updatePodStatus podGet now status statusUpdateRetries pod w))"

definition syncInPlaceUpdateCondition ::
  "'w pod_request option \<Rightarrow> 'w pod_getter \<Rightarrow> ('w \<Rightarrow> int) \<Rightarrow> Pod \<Rightarrow> 'w \<Rightarrow> Pod \<times> 'w" where
  "syncInPlaceUpdateCondition kubeclient podGet now pod w =
     (let status = (if pod_Phase pod = PodRunning \<and> isUpdating pod then ConditionFalse else ConditionTrue)
      in setInPlaceUpdateCondition kubeclient podGet now pod status w)"

definition syncPodCondition ::
  "'w pod_request option \<Rightarrow> 'w pod_getter \<Rightarrow> ('w \<Rightarrow> int) \<Rightarrow> string set \<Rightarrow> Pod \<Rightarrow> 'w \<Rightarrow> Pod \<times> 'w" where
  "syncPodCondition kubeclient podGet now notReadyPods pod w =
     (if getPodFullName pod \<in> notReadyPods
      then setInPlaceUpdateCondition kubeclient podGet now pod ConditionFalse w
      else syncInPlaceUpdateCondition kubeclient podGet now pod w)"

definition syncPodConditions ::
  "'w pod_request option \<Rightarrow> 'w pod_getter \<Rightarrow> ('w \<Rightarrow> int) \<Rightarrow> nat list \<Rightarrow> Pod list \<Rightarrow> Instance list \<Rightarrow> 'w \<Rightarrow>
   Pod list \<times> 'w" where
  "syncPodConditions kubeclient podGet now schedule allPods notReadyInstances w =
     (let notReadyPods = set (map (\<lambda>ins. getPodFullName (ins_pod ins)) notReadyInstances)
      in fold (\<lambda>i (pods, w).
           case syncPodCondition kubeclient podGet now notReadyPods (pods ! i) w of
             (pod, w') \<Rightarrow> (pods[i := pod], w')) schedule (allPods, w))"

lemmas condition_defs [model_defs] =
  gateReason_def gateMessage_def applyCondition_def setInPlaceUpdateCondition_def
  syncInPlaceUpdateCondition_def syncPodCondition_def syncPodConditions_def

subsection \<open>The conditions after one iteration\<close>

abbreviation getCondition :: "string \<Rightarrow> PodCondition list \<Rightarrow> PodCondition option" where
  "getCondition t cs \<equiv> List.find (\<lambda>c. pc_Type c = t) cs"

lemma gate_not_Ready: "InPlaceUpdateReady \<noteq> PodReady" "PodReady \<noteq> InPlaceUpdateReady"
  by (simp_all add: InPlaceUpdateReady_def PodReady_def)

lemma find_append: "List.find P (xs @ ys) = (case List.find P xs of None \<Rightarrow> List.find P ys | Some x \<Rightarrow> Some x)"
  by (induction xs) auto

lemma setGateCondition_props:
  assumes "setGateCondition status t cs = (cs', found, needUpdate)"
  shows "found \<longleftrightarrow> getCondition InPlaceUpdateReady cs \<noteq> None"
    and "needUpdate \<longleftrightarrow> (\<forall>c. getCondition InPlaceUpdateReady cs = Some c \<longrightarrow> pc_Status c \<noteq> status)"
    and "found \<Longrightarrow> \<exists>c. getCondition InPlaceUpdateReady cs' = Some c \<and> pc_Status c = status"
    and "k \<noteq> InPlaceUpdateReady \<Longrightarrow> getCondition k cs' = getCondition k cs"
    and "\<not> found \<Longrightarrow> cs' = cs"
  using assms
  by (induction cs arbitrary: cs') (auto split: if_splits prod.splits)

lemma clearReady_props:
  "k \<noteq> PodReady \<Longrightarrow> getCondition k (clearReady t cs) = getCondition k cs"
  "getCondition PodReady (clearReady t cs) = (case getCondition PodReady cs of None \<Rightarrow> None
     | Some c \<Rightarrow> Some (if pc_Status c \<noteq> ConditionFalse
         then c\<lparr>pc_Status := ConditionFalse, pc_LastTransitionTime := t, pc_Reason := gateReason, pc_Message := gateMessage\<rparr>
         else c))"
  by (induction cs) auto

lemma restoreReady_props:
  "k \<noteq> PodReady \<Longrightarrow> getCondition k (restoreReady t cs) = getCondition k cs"
  "getCondition PodReady (restoreReady t cs) = (case getCondition PodReady cs of None \<Rightarrow> None
     | Some c \<Rightarrow> Some (if pc_Status c = ConditionFalse \<and> pc_Reason c = gateReason \<and> pc_Message c = gateMessage
         then c\<lparr>pc_Status := ConditionTrue, pc_LastTransitionTime := t, pc_Reason := '''', pc_Message := ''''\<rparr>
         else c))"
  by (induction cs) auto

lemma applyCondition_gate:
  "\<exists>c. getCondition InPlaceUpdateReady (pod_Conditions (fst (applyCondition status t pod))) = Some c \<and> pc_Status c = status"
proof -
  obtain cs' found need where g: "setGateCondition status t (pod_Conditions pod) = (cs', found, need)"
    by (metis prod_cases3)
  note props = setGateCondition_props [OF g]
  let ?new = "\<lparr>pc_Type = InPlaceUpdateReady, pc_Status = status, pc_LastTransitionTime = t, pc_Reason = '''', pc_Message = ''''\<rparr>"
  have "\<exists>c. getCondition InPlaceUpdateReady (if found then cs' else cs' @ [?new]) = Some c \<and> pc_Status c = status"
    using props(1,3,5) by (auto simp: find_append)
  then show ?thesis
    unfolding applyCondition_def g Let_def prod.case fst_conv
    by (cases found; cases need; cases "status = ConditionFalse")
      (simp_all add: clearReady_props restoreReady_props gate_not_Ready)
qed

lemma applyCondition_needUpdate:
  "snd (applyCondition status t pod) \<longleftrightarrow>
     (\<forall>c. getCondition InPlaceUpdateReady (pod_Conditions pod) = Some c \<longrightarrow> pc_Status c \<noteq> status)"
  using setGateCondition_props(2) [of status t "pod_Conditions pod"]
  by (auto simp: applyCondition_def Let_def split: prod.split)

lemma applyCondition_other:
  assumes "k \<noteq> InPlaceUpdateReady"
  shows "getCondition k (pod_Conditions (fst (applyCondition status t pod))) =
    (if \<not> snd (applyCondition status t pod) then getCondition k (pod_Conditions pod)
     else if status = ConditionFalse then getCondition k (clearReady t (pod_Conditions pod))
     else getCondition k (restoreReady t (pod_Conditions pod)))"
proof -
  obtain cs' found need where g: "setGateCondition status t (pod_Conditions pod) = (cs', found, need)"
    by (metis prod_cases3)
  let ?new = "\<lparr>pc_Type = InPlaceUpdateReady, pc_Status = status, pc_LastTransitionTime = t, pc_Reason = '''', pc_Message = ''''\<rparr>"
  have same: "getCondition k (if found then cs' else cs' @ [?new]) = getCondition k (pod_Conditions pod)"
    if "k \<noteq> InPlaceUpdateReady" for k
    using setGateCondition_props(4,5) [OF g] that by (auto simp: find_append split: option.split)
  show ?thesis
    using same [OF assms] same [OF gate_not_Ready(2)]
    unfolding applyCondition_def g Let_def prod.case fst_conv snd_conv
    by (cases "k = PodReady"; cases found; cases need; cases "status = ConditionFalse")
      (simp_all add: clearReady_props restoreReady_props)
qed

lemma applyCondition_frame [simp]:
  "pod_Meta (fst (applyCondition status t pod)) = pod_Meta pod"
  "pod_Spec (fst (applyCondition status t pod)) = pod_Spec pod"
  "pod_Phase (fst (applyCondition status t pod)) = pod_Phase pod"
  by (simp_all add: applyCondition_def Let_def split: prod.split)

text \<open>Taking a pod out of service: once the gate of a pod has been set to false, the pod carries
  the gate condition with status false and is not available any more, even if it was ready.\<close>

theorem gate_false_not_available:
  assumes "snd (applyCondition ConditionFalse t pod)"
  shows "\<not> isPodAvailable (fst (applyCondition ConditionFalse t pod)) \<and>
    (\<exists>c. getCondition InPlaceUpdateReady (pod_Conditions (fst (applyCondition ConditionFalse t pod))) = Some c \<and>
       pc_Status c = ConditionFalse)"
  using applyCondition_gate [of ConditionFalse t pod] applyCondition_other [OF gate_not_Ready(2), of ConditionFalse t pod] assms
  by (auto simp: isPodAvailable_def clearReady_props split: option.splits)

theorem gate_false_not_available_witness:
  "isPodAvailable (samplePod ''0'') \<and> \<not> isPodAvailable (fst (applyCondition ConditionFalse 7 (samplePod ''0'')))"
proof -
  have "snd (applyCondition ConditionFalse 7 (samplePod ''0''))"
    by (simp add: applyCondition_needUpdate sample_defs gate_not_Ready)
  moreover have "isPodAvailable (samplePod ''0'')"
    by (simp add: isPodAvailable_def isPodInActive_def isPodDying_def isUpdating_def sample_defs)
  ultimately show ?thesis using gate_false_not_available [of 7 "samplePod ''0''"] by blast
qed

text \<open>Putting it back: a pod that was ready before its gate was set to false is ready again after
  the gate has been set to true, with the reason and message of the controller gone, and no other
  condition has changed.\<close>

theorem gate_round_trip:
  assumes "getCondition PodReady (pod_Conditions pod) = Some c" "pc_Status c = ConditionTrue"
    and "snd (applyCondition ConditionFalse t pod)"
    and "pod' = fst (applyCondition ConditionTrue t' (fst (applyCondition ConditionFalse t pod)))"
  shows "getCondition PodReady (pod_Conditions pod') =
      Some (c\<lparr>pc_LastTransitionTime := t', pc_Reason := '''', pc_Message := ''''\<rparr>) \<and>
    (\<exists>g. getCondition InPlaceUpdateReady (pod_Conditions pod') = Some g \<and> pc_Status g = ConditionTrue) \<and>
    (\<forall>k. k \<noteq> PodReady \<and> k \<noteq> InPlaceUpdateReady \<longrightarrow>
       getCondition k (pod_Conditions pod') = getCondition k (pod_Conditions pod))"
proof -
  let ?pod1 = "fst (applyCondition ConditionFalse t pod)"
  have need: "snd (applyCondition ConditionTrue t' ?pod1)"
    using applyCondition_gate [of ConditionFalse t pod] by (auto simp: applyCondition_needUpdate)
  have ready: "getCondition PodReady (pod_Conditions ?pod1) =
      Some (c\<lparr>pc_Status := ConditionFalse, pc_LastTransitionTime := t, pc_Reason := gateReason, pc_Message := gateMessage\<rparr>)"
    using applyCondition_other [OF gate_not_Ready(2), of ConditionFalse t pod] assms(1-3)
    by (simp add: clearReady_props)
  have "c\<lparr>pc_Status := ConditionTrue, pc_LastTransitionTime := t', pc_Reason := '''', pc_Message := ''''\<rparr> =
      c\<lparr>pc_LastTransitionTime := t', pc_Reason := '''', pc_Message := ''''\<rparr>"
    using assms(2) by (cases c) simp
  then have "getCondition PodReady (pod_Conditions pod') =
      Some (c\<lparr>pc_LastTransitionTime := t', pc_Reason := '''', pc_Message := ''''\<rparr>)"
    using applyCondition_other [OF gate_not_Ready(2), of ConditionTrue t' ?pod1] need ready assms(4)
    by (simp add: restoreReady_props)
  moreover have "\<exists>g. getCondition InPlaceUpdateReady (pod_Conditions pod') = Some g \<and> pc_Status g = ConditionTrue"
    unfolding assms(4) by (rule applyCondition_gate)
  moreover have "getCondition k (pod_Conditions pod') = getCondition k (pod_Conditions pod)"
    if "k \<noteq> PodReady" "k \<noteq> InPlaceUpdateReady" for k
    using applyCondition_other [OF that(2), of ConditionTrue t' ?pod1] applyCondition_other [OF that(2), of ConditionFalse t pod]
      need assms(3,4) that(1) by (simp add: clearReady_props restoreReady_props)
  ultimately show ?thesis by blast
qed

theorem gate_round_trip_witness:
  "isPodReady (fst (applyCondition ConditionTrue 9 (fst (applyCondition ConditionFalse 7 (samplePod ''0'')))))"
proof -
  let ?c = "\<lparr>pc_Type = PodReady, pc_Status = ConditionTrue, pc_LastTransitionTime = 0, pc_Reason = '''', pc_Message = ''''\<rparr>"
  have "snd (applyCondition ConditionFalse 7 (samplePod ''0''))"
    by (simp add: applyCondition_needUpdate sample_defs gate_not_Ready)
  moreover have "getCondition PodReady (pod_Conditions (samplePod ''0'')) = Some ?c" by (simp add: sample_defs)
  ultimately show ?thesis
    using gate_round_trip [of "samplePod ''0''" ?c 7 _ 9, OF _ _ _ refl] by (simp add: isPodReady_def)
qed

subsection \<open>Requests\<close>

definition countedPod :: "'w pod_request \<Rightarrow> (nat \<times> 'w) pod_request" where
  "countedPod request pod = (\<lambda>(n, w). case request pod w of (r, w') \<Rightarrow> (r, Suc n, w'))"

definition countedPodGet :: "'w pod_getter \<Rightarrow> (nat \<times> 'w) pod_getter" where
  "countedPodGet podGet ns name = (\<lambda>(_, w). podGet ns name w)"

lemma conditionLoop_counted:
  "fst (conditionLoop (countedPod us) (countedPodGet get) now status r pod (n, w)) \<le> n + r \<and>
   n \<le> fst (conditionLoop (countedPod us) (countedPodGet get) now status r pod (n, w))"
proof (induction r arbitrary: pod n w)
  case (Suc r)
  obtain pod1 need where a: "applyCondition status (now (n, w)) pod = (pod1, need)" by fastforce
  obtain res w1 where u: "us pod1 w = (res, w1)" by fastforce
  show ?case
  proof (cases "need \<and> (\<exists>err. res = Inl err \<and> IsConflict err)")
    case True
    then show ?thesis
      using Suc.IH [of _ "Suc n" w1]
      by (cases "get (pod_Namespace pod1) (pod_Name pod1) w1")
        (auto simp: a u countedPod_def countedPodGet_def intro: order_trans Suc_leD)
  next
    case False
    then show ?thesis by (cases res) (auto simp: a u countedPod_def)
  qed
qed simp

text \<open>A conflict after which the lister has no pod either is not retried: the next iteration finds its
  own change in the local copy and stops.\<close>

lemma conditionLoop_lister_fails:
  assumes "\<And>ns name w. \<exists>e. get ns name w = Inl e"
  shows "fst (conditionLoop (countedPod us) (countedPodGet get) now status r pod (n, w)) \<le> Suc n"
proof (cases r)
  case (Suc r')
  obtain pod1 need where a: "applyCondition status (now (n, w)) pod = (pod1, need)" by fastforce
  obtain res w1 where u: "us pod1 w = (res, w1)" by fastforce
  obtain e where e: "get (pod_Namespace pod1) (pod_Name pod1) w1 = Inl e" using assms by blast
  have settled: "\<not> snd (applyCondition status t pod1)" for t
    using applyCondition_gate [of status "now (n, w)" pod] a by (auto simp: applyCondition_needUpdate)
  have "conditionLoop (countedPod us) (countedPodGet get) now status r' pod1 (Suc n, w1) = (Suc n, w1)"
    using settled [of "now (Suc n, w1)"] by (cases r') (auto simp: Let_def case_prod_beta)
  then show ?thesis
    by (cases res) (auto simp: Suc a u e countedPod_def countedPodGet_def)
qed simp

text \<open>Setting the condition of a pod costs at most two requests, whatever the API server and the
  lister answer, and none if the gate already has the status; it always returns.\<close>

theorem setInPlaceUpdateCondition_bounded:
  assumes "setInPlaceUpdateCondition (Some (countedPod us)) (countedPodGet get) now pod status (0, w) = (pod', n, w')"
  shows "n \<le> 2 \<and> (\<not> snd (applyCondition status (now (0, w)) pod) \<longrightarrow> n = 0 \<and> pod' = pod) \<and>
    pod_Meta pod' = pod_Meta pod \<and> pod_Spec pod' = pod_Spec pod"
proof -
  have loop: "conditionLoop (countedPod us) (countedPodGet get) now status 2 pod (0, w) = (n, w')"
    and pod': "pod' = fst (applyCondition status (now (0, w)) pod)"
    using assms by (simp_all add: setInPlaceUpdateCondition_def statusUpdateRetries_def)
  have "n \<le> 2" using conditionLoop_counted [of us get now status 2 pod 0 w] loop by simp
  moreover have "n = 0" if "\<not> snd (applyCondition status (now (0, w)) pod)"
    using that loop by (auto simp: numeral_2_eq_2 split: prod.splits)
  moreover have "pod' = pod" if "\<not> snd (applyCondition status (now (0, w)) pod)"
  proof -
    obtain cs' found need where g: "setGateCondition status (now (0, w)) (pod_Conditions pod) = (cs', found, need)"
      by (metis prod_cases3)
    have "setGateCondition status t cs = (cs', found, False) \<Longrightarrow> cs' = cs \<and> found" for t cs cs' found
      by (induction cs arbitrary: cs') (auto split: if_splits prod.splits)
    moreover have "\<not> need" using that g by (simp add: applyCondition_def Let_def)
    ultimately have "cs' = pod_Conditions pod \<and> found" using g by (metis (full_types))
    with \<open>\<not> need\<close> g show ?thesis by (simp add: pod' applyCondition_def Let_def)
  qed
  ultimately show ?thesis by (simp add: pod')
qed

theorem setInPlaceUpdateCondition_bounded_witness:
  "\<exists>pod' n w'. setInPlaceUpdateCondition (Some (countedPod (\<lambda>_ w. (Inl Conflict, w)))) (countedPodGet (\<lambda>_ _ _. Inl NotFound))
      (\<lambda>_. 5) (samplePod ''0'') ConditionFalse (0, ()) = (pod', n, w') \<and> n \<le> 2 \<and> pod_Meta pod' = pod_Meta (samplePod ''0'')"
proof -
  obtain pod' n w' where r: "setInPlaceUpdateCondition (Some (countedPod (\<lambda>_ w. (Inl Conflict, w))))
      (countedPodGet (\<lambda>_ _ _. Inl NotFound)) (\<lambda>_. 5) (samplePod ''0'') ConditionFalse (0, ()) = (pod', n, w')"
    by (metis prod_cases3)
  from setInPlaceUpdateCondition_bounded [OF r] r show ?thesis by blast
qed

text \<open>The announced retry does not take place: after a conflict, when the lister cannot return the
  pod, the loop continues with the object it has already changed, finds nothing to update and returns.
  At most one request is ever sent then, and the condition stays unwritten.\<close>

theorem conflict_without_lister_not_retried:
  assumes "\<And>ns name w. \<exists>e. get ns name w = Inl e"
  shows "fst (snd (setInPlaceUpdateCondition (Some (countedPod us)) (countedPodGet get) now pod status (0, w))) \<le> 1"
  using conditionLoop_lister_fails [of get us now status statusUpdateRetries pod 0 w] assms
  by (simp add: setInPlaceUpdateCondition_def)

theorem conflict_without_lister_not_retried_witness:
  "fst (snd (setInPlaceUpdateCondition (Some (countedPod (\<lambda>_ w. (Inl Conflict, w)))) (countedPodGet (\<lambda>_ _ _. Inl NotFound))
      (\<lambda>_. 5) (samplePod ''0'') ConditionFalse (0, ()))) \<le> 1"
  by (rule conflict_without_lister_not_retried) simp

subsection \<open>All pods of a plan\<close>

lemma syncPodCondition_frame:
  "pod_Meta (fst (syncPodCondition kc podGet now notReady pod w)) = pod_Meta pod"
  by (simp add: syncPodCondition_def syncInPlaceUpdateCondition_def setInPlaceUpdateCondition_def Let_def split: option.split)

lemma syncPodConditions_nth:
  assumes "fold (\<lambda>i (pods, w). case step (pods ! i) w of (pod, w') \<Rightarrow> (pods[i := pod], w')) schedule (pods0, w) = (pods', w')"
    and "distinct schedule" "set schedule \<subseteq> {..<length pods0}"
  shows "length pods' = length pods0 \<and>
    (\<forall>i<length pods0. if i \<in> set schedule then \<exists>w1. pods' ! i = fst (step (pods0 ! i) w1) else pods' ! i = pods0 ! i)"
  using assms
proof (induction schedule arbitrary: pods0 w)
  case (Cons k ks)
  obtain pod1 w1 where step: "step (pods0 ! k) w = (pod1, w1)" by fastforce
  have "length pods' = length (pods0[k := pod1]) \<and> (\<forall>i<length (pods0[k := pod1]).
      if i \<in> set ks then \<exists>w1. pods' ! i = fst (step (pods0[k := pod1] ! i) w1) else pods' ! i = pods0[k := pod1] ! i)"
    using Cons.prems step by (intro Cons.IH) auto
  moreover have "pod1 = fst (step (pods0 ! k) w)" using step by simp
  ultimately show ?case using Cons.prems(2,3) by (auto simp: nth_list_update split: if_splits)
qed simp



end
