(* ===== verification/Instance_Client.thy ===== *)
theory Instance_Client
  imports Pod_Actions Sample_Objects
begin

text \<open>
  \<^verbatim>\<open>pkg/tapp/instance.go\<close>, second half: the interface \<^verbatim>\<open>InstanceClient\<close>, the
  \<^verbatim>\<open>InstanceSyncer\<close> that carries out a plan through it, and the client that talks to the API server.

  An operation of a client is a step on a world \<open>'w\<close>; it may panic. The interface is a record of its
  methods. The API server, the listers and the event recorder are the record \<open>kube\<close> of parameters.

  \<^verbatim>\<open>SyncInstances\<close> starts one goroutine per creation and deletion and waits for all of them. A
  goroutine reads the instance and then acts on it; the step relation \<open>go_step\<close> interleaves these
  two atomic steps of all goroutines freely. \<open>SyncInstances_runs\<close> are the complete runs.
\<close>

subsection \<open>The interface\<close>

record DeleteOptions =
  do_GracePeriodSeconds :: "int option"

definition NewDeleteOptions :: "int \<Rightarrow> DeleteOptions" where
  "NewDeleteOptions grace = \<lparr>do_GracePeriodSeconds = Some grace\<rparr>"

text \<open>\<^verbatim>\<open>Get\<close> returns an error, or whether the instance exists and what it is.\<close>

record 'w InstanceClient =
  ic_isDying :: "Pod \<Rightarrow> bool"
  ic_Delete :: "Instance \<Rightarrow> DeleteOptions option \<Rightarrow> 'w \<Rightarrow> (error option \<times> 'w) go"
  ic_Get :: "Instance \<Rightarrow> 'w \<Rightarrow> Instance option result"
  ic_Create :: "Instance \<Rightarrow> 'w \<Rightarrow> (error option \<times> 'w) go"
  ic_Update :: "Instance \<Rightarrow> Instance \<Rightarrow> 'w \<Rightarrow> (error option \<times> 'w) go"

definition defaultInstanceHealthChecker_isDying :: "Pod option \<Rightarrow> bool" where
  "defaultInstanceHealthChecker_isDying pod =
     (case pod of None \<Rightarrow> False | Some p \<Rightarrow> om_DeletionTimestamp (pod_Meta p) \<noteq> None)"

subsection \<open>The syncer\<close>

definition createInstance :: "'w InstanceClient \<Rightarrow> Instance option \<Rightarrow> 'w \<Rightarrow> (error option \<times> 'w) go" where
  "createInstance client ins0 w =
     (case ins0 of
        None \<Rightarrow> Inr (None, w)
      | Some ins \<Rightarrow>
          (case ic_Get client ins w of
             Inl err \<Rightarrow> Inr (Some err, w)
           | Inr (Some _) \<Rightarrow> Inr (Some (Errorf ''instance exits, should delete first''), w)
           | Inr None \<Rightarrow> ic_Create client (addInPlaceUpdateReadinessGate ins) w))"

definition deleteInstance :: "'w InstanceClient \<Rightarrow> Instance option \<Rightarrow> 'w \<Rightarrow> (error option \<times> 'w) go" where
  "deleteInstance client ins0 w =
     (case ins0 of
        None \<Rightarrow> Inr (None, w)
      | Some ins \<Rightarrow>
          (case ic_Get client ins w of
             Inl err \<Rightarrow> Inr (Some err, w)
           | Inr None \<Rightarrow> Inr (None, w)
           | Inr (Some current) \<Rightarrow>
               if \<not> ic_isDying client (ins_pod current) then ic_Delete client current None w
               else Inr (None, w)))"

definition forceDeleteInstance :: "'w InstanceClient \<Rightarrow> Instance option \<Rightarrow> 'w \<Rightarrow> (error option \<times> 'w) go" where
  "forceDeleteInstance client ins0 w =
     (case ins0 of
        None \<Rightarrow> Inr (None, w)
      | Some ins \<Rightarrow>
          (case ic_Get client ins w of
             Inl err \<Rightarrow> Inr (Some err, w)
           | Inr None \<Rightarrow> Inr (None, w)
           | Inr (Some current) \<Rightarrow> ic_Delete client current (Some (NewDeleteOptions 0)) w))"

definition updateInstance :: "'w InstanceClient \<Rightarrow> Instance \<Rightarrow> 'w \<Rightarrow> (error option \<times> 'w) go" where
  "updateInstance client ins w =
     (case ic_Get client ins w of
        Inl err \<Rightarrow> Inr (Some err, w)
      | Inr None \<Rightarrow> Inr (Some (Errorf (''instance:'' @ Instance_getName (Some (ins_parent ins)) (ins_id ins) @ '' not exist'')), w)
      | Inr (Some current) \<Rightarrow> ic_Update client current ins w)"

text \<open>The last loop of \<^verbatim>\<open>SyncInstances\<close>; errors are only logged.\<close>

definition updateInstances :: "'w InstanceClient \<Rightarrow> Instance list \<Rightarrow> 'w \<Rightarrow> 'w go" where
  "updateInstances client =
     go_fold (\<lambda>ins w. go_bind (updateInstance client ins w) (\<lambda>(_, w'). Inr w'))"

subsection \<open>Goroutines\<close>

datatype task = CreateTask Instance | DeleteTask Instance | ForceDeleteTask Instance

primrec task_instance :: "task \<Rightarrow> Instance" where
  "task_instance (CreateTask ins) = ins"
| "task_instance (DeleteTask ins) = ins"
| "task_instance (ForceDeleteTask ins) = ins"

abbreviation task_id :: "task \<Rightarrow> string" where
  "task_id t \<equiv> ins_id (task_instance t)"

definition run_task :: "'w InstanceClient \<Rightarrow> task \<Rightarrow> 'w \<Rightarrow> (error option \<times> 'w) go" where
  "run_task client t w =
     (case t of
        CreateTask ins \<Rightarrow> createInstance client (Some ins) w
      | DeleteTask ins \<Rightarrow> deleteInstance client (Some ins) w
      | ForceDeleteTask ins \<Rightarrow> forceDeleteInstance client (Some ins) w)"

text \<open>What a goroutine does after its \<^verbatim>\<open>Get\<close>: it is done, or performs one call.\<close>

datatype action = CreateAction Instance | DeleteAction Instance "DeleteOptions option"

datatype goroutine = Todo task | Ready action | Done "error option"

definition after_get :: "'w InstanceClient \<Rightarrow> task \<Rightarrow> Instance option result \<Rightarrow> goroutine" where
  "after_get client t r =
     (case r of
        Inl err \<Rightarrow> Done (Some err)
      | Inr found \<Rightarrow>
          (case t of
             CreateTask ins \<Rightarrow>
               (case found of
                  Some _ \<Rightarrow> Done (Some (Errorf ''instance exits, should delete first''))
                | None \<Rightarrow> Ready (CreateAction (addInPlaceUpdateReadinessGate ins)))
           | DeleteTask ins \<Rightarrow>
               (case found of
                  None \<Rightarrow> Done None
                | Some current \<Rightarrow>
                    if \<not> ic_isDying client (ins_pod current) then Ready (DeleteAction current None) else Done None)
           | ForceDeleteTask ins \<Rightarrow>
               (case found of
                  None \<Rightarrow> Done None
                | Some current \<Rightarrow> Ready (DeleteAction current (Some (NewDeleteOptions 0))))))"

definition perform :: "'w InstanceClient \<Rightarrow> action \<Rightarrow> 'w \<Rightarrow> (error option \<times> 'w) go" where
  "perform client a w =
     (case a of CreateAction ins \<Rightarrow> ic_Create client ins w | DeleteAction ins opts \<Rightarrow> ic_Delete client ins opts w)"

text \<open>Read and act in one go is the sequential code.\<close>

lemma run_task_phases:
  "run_task client t w =
     (case after_get client t (ic_Get client (task_instance t) w) of
        Ready a \<Rightarrow> perform client a w
      | Done e \<Rightarrow> Inr (e, w)
      | Todo t' \<Rightarrow> Inl NilDereference)"
  by (auto simp: run_task_def after_get_def perform_def createInstance_def deleteInstance_def
      forceDeleteInstance_def split: task.split sum.split option.split)

inductive go_step :: "'w InstanceClient \<Rightarrow> goroutine list \<times> 'w \<Rightarrow> goroutine list \<times> 'w \<Rightarrow> bool" for client where
  get: "i < length gs \<Longrightarrow> gs ! i = Todo t \<Longrightarrow>
    go_step client (gs, w) (gs[i := after_get client t (ic_Get client (task_instance t) w)], w)"
| act: "i < length gs \<Longrightarrow> gs ! i = Ready a \<Longrightarrow> perform client a w = Inr (e, w') \<Longrightarrow>
    go_step client (gs, w) (gs[i := Done e], w')"

inductive_cases go_stepE: "go_step client (gs, w) (gs', w')"

definition is_Done :: "goroutine \<Rightarrow> bool" where
  "is_Done g = (case g of Done _ \<Rightarrow> True | _ \<Rightarrow> False)"

definition sync_tasks :: "Instance list \<Rightarrow> Instance list \<Rightarrow> Instance list \<Rightarrow> task list" where
  "sync_tasks add del forceDel = map CreateTask add @ map DeleteTask del @ map ForceDeleteTask forceDel"

definition SyncInstances_runs ::
  "'w InstanceClient \<Rightarrow> Instance list \<Rightarrow> Instance list \<Rightarrow> Instance list \<Rightarrow> Instance list \<Rightarrow> 'w \<Rightarrow> 'w \<Rightarrow> bool" where
  "SyncInstances_runs client add del forceDel update w w' \<longleftrightarrow>
     (\<exists>gs w1. (go_step client)\<^sup>*\<^sup>* (map Todo (sync_tasks add del forceDel), w) (gs, w1) \<and>
        list_all is_Done gs \<and> updateInstances client update w1 = Inr w')"

text \<open>The run in which the goroutines are scheduled one after the other, in list order.\<close>

definition SyncInstances ::
  "'w InstanceClient \<Rightarrow> Instance list \<Rightarrow> Instance list \<Rightarrow> Instance list \<Rightarrow> Instance list \<Rightarrow> 'w \<Rightarrow> 'w go" where
  "SyncInstances client add del forceDel update w =
     go_bind (go_fold (\<lambda>t w. go_bind (run_task client t w) (\<lambda>(_, w'). Inr w')) (sync_tasks add del forceDel) w)
       (updateInstances client update)"

lemmas syncer_defs [model_defs] =
  NewDeleteOptions_def createInstance_def deleteInstance_def forceDeleteInstance_def updateInstance_def
  updateInstances_def run_task_def after_get_def perform_def is_Done_def sync_tasks_def SyncInstances_def

subsection \<open>Runs\<close>

lemma go_step_length: "go_step client (gs, w) (gs', w') \<Longrightarrow> length gs' = length gs"
  by (auto elim: go_stepE)

text \<open>Every run ends: the steps left, two for a goroutine that has not read, one for one that has.\<close>

primrec weight :: "goroutine \<Rightarrow> nat" where
  "weight (Todo _) = 2"
| "weight (Ready _) = 1"
| "weight (Done _) = 0"

definition steps_left :: "goroutine list \<Rightarrow> nat" where
  "steps_left gs = sum_list (map weight gs)"

lemma steps_left_update:
  "i < length gs \<Longrightarrow> steps_left (gs[i := g]) + weight (gs ! i) = steps_left gs + weight g"
proof (induction gs arbitrary: i)
  case (Cons x gs)
  then show ?case by (cases i) (force simp: steps_left_def)+
qed simp

lemma weight_after_get: "weight (after_get client t r) \<le> 1"
  by (auto simp: after_get_def split: sum.split task.split option.split)

lemma go_step_decreases: "go_step client (gs, w) (gs', w') \<Longrightarrow> steps_left gs' < steps_left gs"
proof (elim go_stepE)
  fix i t
  assume "i < length gs" "gs ! i = Todo t" "gs' = gs[i := after_get client t (ic_Get client (task_instance t) w)]"
  then show ?thesis
    using steps_left_update [of i gs "after_get client t (ic_Get client (task_instance t) w)"]
      weight_after_get [of client t "ic_Get client (task_instance t) w"] by simp
next
  fix i a e
  assume "i < length gs" "gs ! i = Ready a" "gs' = gs[i := Done e]"
  then show ?thesis using steps_left_update [of i gs "Done e"] by simp
qed

subsection \<open>A store of instances\<close>

text \<open>What the syncer promises of a client that keeps a map from identifiers to instances: the laws of
  the operations on the map. \<open>inv\<close> is the client's invariant, \<open>view\<close> the map it keeps, \<open>stored\<close> what
  becomes of a created instance, \<open>updated\<close> of an updated one.\<close>

locale instance_store =
  fixes client :: "'w InstanceClient"
    and inv :: "'w \<Rightarrow> bool"
    and view :: "'w \<Rightarrow> string \<Rightarrow> Instance option"
    and stored :: "Instance \<Rightarrow> Instance"
    and updated :: "Instance \<Rightarrow> Instance \<Rightarrow> Instance"
  assumes view_id: "inv w \<Longrightarrow> view w k = Some cur \<Longrightarrow> ins_id cur = k"
    and get_law: "inv w \<Longrightarrow> ic_Get client ins w = Inr (view w (ins_id ins))"
    and create_law: "inv w \<Longrightarrow> view w (ins_id ins) = None \<Longrightarrow>
      \<exists>w'. ic_Create client ins w = Inr (None, w') \<and> inv w' \<and> view w' = (view w)(ins_id ins \<mapsto> stored ins)"
    and delete_law: "inv w \<Longrightarrow> view w (ins_id ins) \<noteq> None \<Longrightarrow>
      \<exists>w'. ic_Delete client ins opts w = Inr (None, w') \<and> inv w' \<and> view w' = (view w)(ins_id ins := None)"
    and update_law: "inv w \<Longrightarrow> view w (ins_id ins) = Some cur \<Longrightarrow>
      \<exists>w'. ic_Update client cur ins w = Inr (None, w') \<and> inv w' \<and> view w' = (view w)(ins_id ins \<mapsto> updated cur ins)"
begin

text \<open>The effect of one goroutine on the entry of its instance.\<close>

definition effect :: "task \<Rightarrow> Instance option \<Rightarrow> Instance option" where
  "effect t old =
     (case t of
        CreateTask ins \<Rightarrow> (case old of None \<Rightarrow> Some (stored (addInPlaceUpdateReadinessGate ins)) | Some cur \<Rightarrow> Some cur)
      | DeleteTask ins \<Rightarrow> (case old of None \<Rightarrow> None | Some cur \<Rightarrow> if ic_isDying client (ins_pod cur) then Some cur else None)
      | ForceDeleteTask ins \<Rightarrow> None)"

text \<open>The whole effect of tasks on different instances.\<close>

definition effects :: "task list \<Rightarrow> (string \<Rightarrow> Instance option) \<Rightarrow> string \<Rightarrow> Instance option" where
  "effects ts v k = (case List.find (\<lambda>t. task_id t = k) ts of None \<Rightarrow> v k | Some t \<Rightarrow> effect t (v k))"

text \<open>The invariant of a run: every goroutine is at a state its own entry explains, and the world is
  the initial one with the effects of the goroutines that are done.\<close>

definition consistent :: "(string \<Rightarrow> Instance option) \<Rightarrow> task \<Rightarrow> goroutine \<Rightarrow> bool" where
  "consistent v t g \<longleftrightarrow>
     (case g of
        Todo t' \<Rightarrow> t' = t
      | Ready a \<Rightarrow> after_get client t (Inr (v (task_id t))) = Ready a
      | Done e \<Rightarrow> True)"

definition run_inv :: "task list \<Rightarrow> (string \<Rightarrow> Instance option) \<Rightarrow> goroutine list \<times> 'w \<Rightarrow> bool" where
  "run_inv ts v s \<longleftrightarrow>
     (case s of (gs, w) \<Rightarrow>
        inv w \<and> length gs = length ts \<and> (\<forall>i < length ts. consistent v (ts ! i) (gs ! i)) \<and>
        (\<forall>i < length ts. view w (task_id (ts ! i)) =
           (if is_Done (gs ! i) then effect (ts ! i) (v (task_id (ts ! i))) else v (task_id (ts ! i)))) \<and>
        (\<forall>k. k \<notin> task_id ` set ts \<longrightarrow> view w k = v k))"

lemma addGate_id [simp]: "ins_id (addInPlaceUpdateReadinessGate ins) = ins_id ins"
  by (simp add: addInPlaceUpdateReadinessGate_def Let_def)

lemma after_get_Done_effect:
  "after_get client t (Inr old) = Done e \<Longrightarrow> effect t old = old"
  by (auto simp: after_get_def effect_def split: task.splits option.splits if_splits)

text \<open>Acting on what was read performs the effect, on that entry only.\<close>

lemma perform_effect:
  assumes "inv w" "after_get client t (Inr (view w (task_id t))) = Ready a"
  shows "\<exists>w'. perform client a w = Inr (None, w') \<and> inv w' \<and>
    view w' = (view w)(task_id t := effect t (view w (task_id t)))"
proof (cases t)
  case (CreateTask ins)
  with assms create_law [OF assms(1), of "addInPlaceUpdateReadinessGate ins"] show ?thesis
    by (auto simp: after_get_def perform_def effect_def split: option.splits)
next
  case (DeleteTask ins)
  with assms obtain cur where cur: "view w (ins_id ins) = Some cur" "a = DeleteAction cur None"
    "\<not> ic_isDying client (ins_pod cur)"
    by (auto simp: after_get_def split: option.splits if_splits)
  moreover from cur(1) have "ins_id cur = ins_id ins" using view_id assms(1) by blast
  ultimately show ?thesis
    using DeleteTask delete_law [OF assms(1), of cur None] by (auto simp: perform_def effect_def)
next
  case (ForceDeleteTask ins)
  with assms obtain cur where cur: "view w (ins_id ins) = Some cur"
    "a = DeleteAction cur (Some (NewDeleteOptions 0))"
    by (auto simp: after_get_def split: option.splits)
  moreover from cur(1) have "ins_id cur = ins_id ins" using view_id assms(1) by blast
  ultimately show ?thesis
    using ForceDeleteTask delete_law [OF assms(1), of cur "Some (NewDeleteOptions 0)"]
    by (auto simp: perform_def effect_def)
qed

lemma run_inv_start: "inv w \<Longrightarrow> run_inv ts (view w) (map Todo ts, w)"
  by (simp add: run_inv_def consistent_def is_Done_def)

lemma run_inv_view:
  assumes "run_inv ts v (gs, w)" "i < length ts" "\<not> is_Done (gs ! i)"
  shows "view w (task_id (ts ! i)) = v (task_id (ts ! i))"
  using assms by (simp add: run_inv_def)

lemma run_inv_get:
  assumes run: "run_inv ts v (gs, w)" and i: "i < length ts" "gs ! i = Todo t"
  shows "run_inv ts v (gs[i := after_get client t (ic_Get client (task_instance t) w)], w)"
proof -
  have t: "ts ! i = t" using run i by (force simp: run_inv_def consistent_def)
  have same: "view w (task_id t) = v (task_id t)"
    using run_inv_view [OF run i(1)] i(2) t by (simp add: is_Done_def)
  have get: "ic_Get client (task_instance t) w = Inr (v (task_id t))"
    using get_law [of w "task_instance t"] run same by (simp add: run_inv_def)
  have "consistent v t (after_get client t (Inr (v (task_id t))))"
    by (cases "after_get client t (Inr (v (task_id t)))")
      (auto simp: consistent_def after_get_def split: task.splits option.splits if_splits)
  moreover have "is_Done (after_get client t (Inr (v (task_id t)))) \<Longrightarrow> effect t (v (task_id t)) = v (task_id t)"
    by (cases "after_get client t (Inr (v (task_id t)))") (auto simp: is_Done_def dest: after_get_Done_effect)
  ultimately show ?thesis
    using run i t same unfolding get run_inv_def by (auto simp: nth_list_update)
qed

lemma run_inv_act:
  assumes run: "run_inv ts v (gs, w)" and ids: "distinct (map task_id ts)"
    and i: "i < length ts" "gs ! i = Ready a"
    and act: "perform client a w = Inr (e, w')"
  shows "run_inv ts v (gs[i := Done e], w')"
proof -
  let ?t = "ts ! i"
  have same: "view w (task_id ?t) = v (task_id ?t)"
    using run_inv_view [OF run i(1)] i(2) by (simp add: is_Done_def)
  have ready: "after_get client ?t (Inr (view w (task_id ?t))) = Ready a"
    using run i same by (force simp: run_inv_def consistent_def)
  have inv: "inv w" using run by (simp add: run_inv_def)
  have w': "inv w'" "view w' = (view w)(task_id ?t := effect ?t (v (task_id ?t)))"
    using perform_effect [OF inv ready] act same by auto
  have other: "task_id (ts ! j) \<noteq> task_id ?t" if "j < length ts" "j \<noteq> i" for j
    using ids that i(1) by (auto simp: distinct_conv_nth)
  show ?thesis
    using run i w' other unfolding run_inv_def
    by (auto simp: nth_list_update consistent_def is_Done_def)
qed

lemma run_inv_steps:
  assumes "(go_step client)\<^sup>*\<^sup>* s s'" "run_inv ts v s" "distinct (map task_id ts)"
  shows "run_inv ts v s'"
  using assms
proof (induction rule: rtranclp_induct)
  case (step s1 s2)
  then have run: "run_inv ts v s1" by blast
  from step.hyps(2) show ?case
  proof cases
    case (get i gs t w)
    with run have "i < length ts" by (simp add: run_inv_def)
    with run get show ?thesis by (auto intro: run_inv_get)
  next
    case (act i gs a w e w')
    with run have "i < length ts" by (simp add: run_inv_def)
    with run act step.prems(2) show ?thesis by (auto intro: run_inv_act)
  qed
qed

text \<open>No goroutine ever blocks or panics: until all are done, some step is possible.\<close>

lemma run_inv_progress:
  assumes "run_inv ts v (gs, w)" "\<not> list_all is_Done gs"
  shows "\<exists>s'. go_step client (gs, w) s'"
proof -
  obtain i where i: "i < length gs" "\<not> is_Done (gs ! i)"
    using assms(2) by (auto simp: list_all_length)
  then have its: "i < length ts" using assms(1) by (simp add: run_inv_def)
  show ?thesis
  proof (cases "gs ! i")
    case (Todo t)
    then show ?thesis by (intro exI) (rule go_step.get [OF i(1) Todo])
  next
    case (Ready a)
    then have "after_get client (ts ! i) (Inr (view w (task_id (ts ! i)))) = Ready a"
      using assms(1) its run_inv_view [OF assms(1) its i(2)] by (force simp: run_inv_def consistent_def)
    then obtain w' where "perform client a w = Inr (None, w')"
      using perform_effect assms(1) by (force simp: run_inv_def)
    then show ?thesis by (intro exI) (rule go_step.act [OF i(1) Ready])
  qed (use i in \<open>simp add: is_Done_def\<close>)
qed

lemma run_inv_final:
  assumes "run_inv ts v (gs, w)" "list_all is_Done gs" "distinct (map task_id ts)"
  shows "inv w" "view w = effects ts v"
proof -
  show "inv w" using assms(1) by (simp add: run_inv_def)
  show "view w = effects ts v"
  proof
    fix k
    show "view w k = effects ts v k"
    proof (cases "List.find (\<lambda>t. task_id t = k) ts")
      case None
      then have "k \<notin> task_id ` set ts" by (auto simp: find_None_iff)
      with None show ?thesis using assms(1) by (simp add: effects_def run_inv_def)
    next
      case (Some t)
      then obtain i where "i < length ts" "ts ! i = t" "task_id t = k" by (auto simp: find_Some_iff)
      then show ?thesis using assms(1,2) Some by (auto simp: effects_def run_inv_def list_all_length)
    qed
  qed
qed

text \<open>The sequential loop of updates: existing instances are updated, missing ones skipped.\<close>

definition update_entry :: "Instance \<Rightarrow> (string \<Rightarrow> Instance option) \<Rightarrow> string \<Rightarrow> Instance option" where
  "update_entry ins v =
     (case v (ins_id ins) of None \<Rightarrow> v | Some cur \<Rightarrow> v(ins_id ins \<mapsto> updated cur ins))"

lemma updateInstance_law:
  assumes "inv w"
  shows "\<exists>e w'. updateInstance client ins w = Inr (e, w') \<and> inv w' \<and> view w' = update_entry ins (view w)"
proof (cases "view w (ins_id ins)")
  case None
  then show ?thesis using get_law [OF assms, of ins] assms by (simp add: updateInstance_def update_entry_def)
next
  case (Some cur)
  then show ?thesis
    using get_law [OF assms, of ins] update_law [OF assms Some] by (auto simp: updateInstance_def update_entry_def)
qed

lemma updateInstances_law:
  assumes "inv w"
  shows "\<exists>w'. updateInstances client us w = Inr w' \<and> inv w' \<and> view w' = fold update_entry us (view w)"
  using assms
proof (induction us arbitrary: w)
  case (Cons ins us)
  obtain e w1 where w1: "updateInstance client ins w = Inr (e, w1)" "inv w1" "view w1 = update_entry ins (view w)"
    using updateInstance_law [OF Cons.prems] by blast
  from Cons.IH [OF w1(2)] w1 show ?case by (auto simp: updateInstances_def)
qed (simp add: updateInstances_def)

text \<open>The outcome of a synchronisation does not depend on how the goroutines are interleaved.\<close>

definition outcome ::
  "Instance list \<Rightarrow> Instance list \<Rightarrow> Instance list \<Rightarrow> Instance list \<Rightarrow> (string \<Rightarrow> Instance option) \<Rightarrow> string \<Rightarrow> Instance option" where
  "outcome add del forceDel us v = fold update_entry us (effects (sync_tasks add del forceDel) v)"

lemma SyncInstances_outcome:
  assumes "SyncInstances_runs client add del forceDel us w w'" "inv w"
    and "distinct (map task_id (sync_tasks add del forceDel))"
  shows "inv w'" "view w' = outcome add del forceDel us (view w)"
proof -
  obtain gs w1 where run: "(go_step client)\<^sup>*\<^sup>* (map Todo (sync_tasks add del forceDel), w) (gs, w1)"
    "list_all is_Done gs" "updateInstances client us w1 = Inr w'"
    using assms(1) by (auto simp: SyncInstances_runs_def)
  have "run_inv (sync_tasks add del forceDel) (view w) (gs, w1)"
    by (rule run_inv_steps [OF run(1) run_inv_start [OF assms(2)] assms(3)])
  from run_inv_final [OF this run(2) assms(3)]
  have w1: "inv w1" "view w1 = effects (sync_tasks add del forceDel) (view w)" .
  from updateInstances_law [OF w1(1), of us] run(3) w1(2)
  show "inv w'" "view w' = outcome add del forceDel us (view w)" by (auto simp: outcome_def)
qed

text \<open>Every run can be completed: it never blocks, and its length is bounded.\<close>

lemma run_completes:
  assumes "run_inv ts v (gs, w)" "distinct (map task_id ts)"
  shows "\<exists>gs' w'. (go_step client)\<^sup>*\<^sup>* (gs, w) (gs', w') \<and> list_all is_Done gs'"
  using assms
proof (induction "steps_left gs" arbitrary: gs w rule: less_induct)
  case less
  show ?case
  proof (cases "list_all is_Done gs")
    case False
    obtain gs1 w1 where step: "go_step client (gs, w) (gs1, w1)"
      using run_inv_progress [OF less.prems(1) False] by auto
    have "run_inv ts v (gs1, w1)" by (rule run_inv_steps [OF _ less.prems]) (use step in blast)
    from less.hyps [OF go_step_decreases [OF step] this less.prems(2)] step show ?thesis
      by (meson converse_rtranclp_into_rtranclp)
  qed auto
qed

lemma SyncInstances_completes:
  assumes "inv w" "distinct (map task_id (sync_tasks add del forceDel))"
  shows "\<exists>w'. SyncInstances_runs client add del forceDel us w w'"
proof -
  obtain gs w1 where run: "(go_step client)\<^sup>*\<^sup>* (map Todo (sync_tasks add del forceDel), w) (gs, w1)" "list_all is_Done gs"
    using run_completes [OF run_inv_start [OF assms(1)] assms(2)] by blast
  have "run_inv (sync_tasks add del forceDel) (view w) (gs, w1)"
    by (rule run_inv_steps [OF run(1) run_inv_start [OF assms(1)] assms(2)])
  then have "inv w1" by (simp add: run_inv_def)
  from updateInstances_law [OF this, of us] run show ?thesis by (auto simp: SyncInstances_runs_def)
qed

end

subsection \<open>The list-order run is one of the runs\<close>

lemma run_task_steps:
  assumes "run_task client t w = Inr (e, w')" "i < length gs" "gs ! i = Todo t"
  shows "(go_step client)\<^sup>*\<^sup>* (gs, w) (gs[i := Done e], w')"
proof -
  let ?g = "after_get client t (ic_Get client (task_instance t) w)"
  have get: "go_step client (gs, w) (gs[i := ?g], w)" by (rule go_step.get [OF assms(2,3)])
  show ?thesis
  proof (cases ?g)
    case (Ready a)
    then have "perform client a w = Inr (e, w')" using assms(1) by (simp add: run_task_phases)
    then have "go_step client (gs[i := ?g], w) (gs[i := ?g, i := Done e], w')"
      using assms(2) Ready by (intro go_step.act) auto
    with get show ?thesis by (simp add: converse_rtranclp_into_rtranclp)
  next
    case (Done e')
    then show ?thesis using get assms(1) by (auto simp: run_task_phases)
  qed (use assms(1) in \<open>simp add: run_task_phases\<close>)
qed

lemma run_tasks_steps:
  assumes "go_fold (\<lambda>t w. go_bind (run_task client t w) (\<lambda>(_, w'). Inr w')) ts w = Inr w'"
    and "list_all is_Done ds"
  shows "\<exists>gs. (go_step client)\<^sup>*\<^sup>* (ds @ map Todo ts, w) (gs, w') \<and> list_all is_Done gs"
  using assms
proof (induction ts arbitrary: ds w)
  case (Cons t ts)
  then obtain e w1 where t: "run_task client t w = Inr (e, w1)"
    and ts: "go_fold (\<lambda>t w. go_bind (run_task client t w) (\<lambda>(_, w'). Inr w')) ts w1 = Inr w'"
    by (auto simp: go_bind_Inr_iff)
  have "(go_step client)\<^sup>*\<^sup>* (ds @ map Todo (t # ts), w) ((ds @ map Todo (t # ts))[length ds := Done e], w1)"
    by (rule run_task_steps [OF t]) auto
  moreover have "(ds @ map Todo (t # ts))[length ds := Done e] = (ds @ [Done e]) @ map Todo ts" by simp
  moreover have "list_all is_Done (ds @ [Done e])" using Cons.prems(2) by (simp add: is_Done_def [of "Done e"])
  from Cons.IH [OF ts this] obtain gs where
    "(go_step client)\<^sup>*\<^sup>* ((ds @ [Done e]) @ map Todo ts, w1) (gs, w')" "list_all is_Done gs" by blast
  ultimately show ?case by (metis (no_types, lifting) rtranclp_trans)
qed auto

lemma SyncInstances_is_run:
  "SyncInstances client add del forceDel us w = Inr w' \<Longrightarrow> SyncInstances_runs client add del forceDel us w w'"
  using run_tasks_steps [of client "sync_tasks add del forceDel" w _ "[]"]
  by (fastforce simp: SyncInstances_def SyncInstances_runs_def go_bind_Inr_iff)

end
