(* ===== verification/Fakes.thy ===== *)
theory Fakes
  imports Instance_Client
begin

text \<open>
  \<^verbatim>\<open>pkg/tapp/fakes.go\<close>: the in-memory implementation of \<^verbatim>\<open>InstanceClient\<close> the controller is
  tested with. Each method holds the mutex for its whole body, so it is one atomic step. Its recorder
  has no event channel and drops every event. The locale \<open>instance_store\<close> is interpreted on it
  (\<open>fake\<close>); the theorems on \<^verbatim>\<open>SyncInstances\<close> follow.
\<close>

subsection \<open>Definitions\<close>

record fakeInstanceClient =
  fk_Instances :: "Instance amap"
  fk_InstancesCreated :: int
  fk_InstancesDeleted :: int
  fk_InstanceForceDeleted :: int
  fk_InstancesUpdated :: int

definition newFakeInstanceClient :: fakeInstanceClient where
  "newFakeInstanceClient = \<lparr>fk_Instances = [], fk_InstancesCreated = 0, fk_InstancesDeleted = 0,
     fk_InstanceForceDeleted = 0, fk_InstancesUpdated = 0\<rparr>"

definition fake_Delete ::
  "Instance \<Rightarrow> DeleteOptions option \<Rightarrow> fakeInstanceClient \<Rightarrow> (error option \<times> fakeInstanceClient) go" where
  "fake_Delete p options f =
     (if map_of (fk_Instances f) (ins_id p) = None
      then Inr (Some (Errorf (''failed to delete: instance '' @ ins_id p @ '' doesn't exist'')), f)
      else let f1 = f\<lparr>fk_Instances := AList.delete (ins_id p) (fk_Instances f)\<rparr>
           in if options = None \<or> (do_GracePeriodSeconds (the options) \<noteq> None \<and>
                  the (do_GracePeriodSeconds (the options)) \<noteq> 0)
              then Inr (None, f1\<lparr>fk_InstancesDeleted := fk_InstancesDeleted f1 + 1\<rparr>)
              else Inr (None, f1\<lparr>fk_InstanceForceDeleted := fk_InstanceForceDeleted f1 + 1\<rparr>))"

definition fake_Get :: "Instance \<Rightarrow> fakeInstanceClient \<Rightarrow> Instance option result" where
  "fake_Get p f = Inr (map_of (fk_Instances f) (ins_id p))"

text \<open>A created pod is made running and ready at once.\<close>

definition start_pod :: "Instance \<Rightarrow> Instance" where
  "start_pod p = p\<lparr>ins_pod := (ins_pod p)\<lparr>pod_Status := (pod_Status (ins_pod p))
     \<lparr>pst_Phase := PodRunning,
      pst_Conditions := [\<lparr>pc_Type = PodReady, pc_Status = ConditionTrue, pc_LastTransitionTime = 0,
        pc_Reason = '''', pc_Message = ''''\<rparr>]\<rparr>\<rparr>\<rparr>"

definition fake_Create :: "Instance \<Rightarrow> fakeInstanceClient \<Rightarrow> (error option \<times> fakeInstanceClient) go" where
  "fake_Create p f =
     (if map_of (fk_Instances f) (ins_id p) \<noteq> None
      then Inr (Some (Errorf (''failedl to create: instance '' @ ins_id p @ '' already exists'')), f)
      else Inr (None, f\<lparr>fk_Instances := AList.update (ins_id p) (start_pod p) (fk_Instances f),
                       fk_InstancesCreated := fk_InstancesCreated f + 1\<rparr>))"

definition fake_Update :: "Instance \<Rightarrow> Instance \<Rightarrow> fakeInstanceClient \<Rightarrow> (error option \<times> fakeInstanceClient) go" where
  "fake_Update expected wanted f =
     (if map_of (fk_Instances f) (ins_id wanted) = None
      then Inr (Some (Errorf (''failed to update: Instance '' @ ins_id wanted @ '' not found'')), f)
      else Inr (None, f\<lparr>fk_Instances := AList.update (ins_id wanted) wanted (fk_Instances f),
                       fk_InstancesUpdated := fk_InstancesUpdated f + 1\<rparr>))"

definition fakeClient :: "fakeInstanceClient InstanceClient" where
  "fakeClient = \<lparr>ic_isDying = (\<lambda>pod. defaultInstanceHealthChecker_isDying (Some pod)),
     ic_Delete = fake_Delete, ic_Get = fake_Get, ic_Create = fake_Create, ic_Update = fake_Update\<rparr>"

definition getPodList :: "fakeInstanceClient \<Rightarrow> Pod list" where
  "getPodList f = map (\<lambda>(i, ins). ins_pod ins) (fk_Instances f)"

definition DeleteInstance :: "string \<Rightarrow> fakeInstanceClient \<Rightarrow> error option \<times> fakeInstanceClient" where
  "DeleteInstance iid f =
     (if map_of (fk_Instances f) iid = None
      then (Some (Errorf (''delete failed: instance '' @ iid @ '' doesn't exist'')), f)
      else (None, f\<lparr>fk_Instances := AList.delete iid (fk_Instances f)\<rparr>))"

text \<open>\<^verbatim>\<open>f.Instances[id].pod\<close> modified in place, shared by the three setters.\<close>

definition modify_pod :: "string \<Rightarrow> (Pod \<Rightarrow> Pod) \<Rightarrow> fakeInstanceClient \<Rightarrow> error option \<times> fakeInstanceClient" where
  "modify_pod iid g f =
     (case map_of (fk_Instances f) iid of
        None \<Rightarrow> (Some (Errorf (''instance '' @ iid @ '' not found'')), f)
      | Some ins \<Rightarrow>
          (None, f\<lparr>fk_Instances := AList.update iid (ins\<lparr>ins_pod := g (ins_pod ins)\<rparr>) (fk_Instances f)\<rparr>))"

definition setDeletionTimestamp :: "string \<Rightarrow> int \<Rightarrow> fakeInstanceClient \<Rightarrow> error option \<times> fakeInstanceClient" where
  "setDeletionTimestamp iid t =
     modify_pod iid (\<lambda>pod. pod\<lparr>pod_Meta := (pod_Meta pod)\<lparr>om_DeletionTimestamp := Some t\<rparr>\<rparr>)"

definition setPodStatus :: "string \<Rightarrow> PodPhase \<Rightarrow> fakeInstanceClient \<Rightarrow> error option \<times> fakeInstanceClient" where
  "setPodStatus iid status =
     modify_pod iid (\<lambda>pod. pod\<lparr>pod_Status := (pod_Status pod)\<lparr>pst_Phase := status\<rparr>\<rparr>)"

definition setPodReason :: "string \<Rightarrow> string \<Rightarrow> fakeInstanceClient \<Rightarrow> error option \<times> fakeInstanceClient" where
  "setPodReason iid reason =
     modify_pod iid (\<lambda>pod. pod\<lparr>pod_Status := (pod_Status pod)\<lparr>pst_Reason := reason\<rparr>\<rparr>)"

lemmas fake_defs [model_defs] =
  newFakeInstanceClient_def fake_Delete_def fake_Get_def start_pod_def fake_Create_def fake_Update_def fakeClient_def
  getPodList_def DeleteInstance_def modify_pod_def setDeletionTimestamp_def setPodStatus_def setPodReason_def
  defaultInstanceHealthChecker_isDying_def

subsection \<open>The invariant\<close>

definition fake_inv :: "fakeInstanceClient \<Rightarrow> bool" where
  "fake_inv f \<longleftrightarrow> distinct (map fst (fk_Instances f)) \<and> list_all (\<lambda>(k, ins). ins_id ins = k) (fk_Instances f)"

lemma fake_inv_new: "fake_inv newFakeInstanceClient"
  by (simp add: fake_inv_def newFakeInstanceClient_def)

lemma fake_inv_update:
  assumes "fake_inv f" "ins_id ins = k"
  shows "fake_inv (f\<lparr>fk_Instances := AList.update k ins (fk_Instances f)\<rparr>)"
  using assms by (auto simp: fake_inv_def distinct_update list_all_iff set_update_distinct)

lemma fake_inv_delete: "fake_inv f \<Longrightarrow> fake_inv (f\<lparr>fk_Instances := AList.delete k (fk_Instances f)\<rparr>)"
  by (auto simp: fake_inv_def list_all_iff AList.delete_eq intro: distinct_map_filter)

lemma fake_inv_counters [simp]:
  "fake_inv (f\<lparr>fk_InstancesCreated := a\<rparr>) = fake_inv f" "fake_inv (f\<lparr>fk_InstancesDeleted := a\<rparr>) = fake_inv f"
  "fake_inv (f\<lparr>fk_InstanceForceDeleted := a\<rparr>) = fake_inv f" "fake_inv (f\<lparr>fk_InstancesUpdated := a\<rparr>) = fake_inv f"
  by (simp_all add: fake_inv_def)

interpretation fake: instance_store fakeClient fake_inv "\<lambda>f. map_of (fk_Instances f)" start_pod "\<lambda>_ wanted. wanted"
proof
  fix f k cur assume "fake_inv f" "map_of (fk_Instances f) k = Some cur"
  then show "ins_id cur = k" by (auto simp: fake_inv_def list_all_iff dest: map_of_SomeD)
next
  fix f and ins :: Instance show "ic_Get fakeClient ins f = Inr (map_of (fk_Instances f) (ins_id ins))"
    by (simp add: fakeClient_def fake_Get_def)
next
  fix f and ins :: Instance assume "fake_inv f" "map_of (fk_Instances f) (ins_id ins) = None"
  then show "\<exists>f'. ic_Create fakeClient ins f = Inr (None, f') \<and> fake_inv f' \<and>
      map_of (fk_Instances f') = (map_of (fk_Instances f))(ins_id ins \<mapsto> start_pod ins)"
    using fake_inv_update [of f "start_pod ins" "ins_id ins"]
    by (simp add: fakeClient_def fake_Create_def update_conv' start_pod_def)
next
  fix f and ins :: Instance and opts assume "fake_inv f" "map_of (fk_Instances f) (ins_id ins) \<noteq> None"
  then show "\<exists>f'. ic_Delete fakeClient ins opts f = Inr (None, f') \<and> fake_inv f' \<and>
      map_of (fk_Instances f') = (map_of (fk_Instances f))(ins_id ins := None)"
    using fake_inv_delete [of f "ins_id ins"]
    by (simp add: fakeClient_def fake_Delete_def Let_def delete_conv')
next
  fix f and ins :: Instance and cur assume "fake_inv f" "map_of (fk_Instances f) (ins_id ins) = Some cur"
  then show "\<exists>f'. ic_Update fakeClient cur ins f = Inr (None, f') \<and> fake_inv f' \<and>
      map_of (fk_Instances f') = (map_of (fk_Instances f))(ins_id ins \<mapsto> ins)"
    using fake_inv_update [of f ins "ins_id ins"] by (simp add: fakeClient_def fake_Update_def update_conv')
qed

subsection \<open>Theorems\<close>

lemma task_ids_sync_tasks: "map task_id (sync_tasks add del forceDel) = map ins_id (add @ del @ forceDel)"
  by (simp add: sync_tasks_def comp_def)

lemma find_task:
  assumes "distinct (map task_id ts)" "t \<in> set ts"
  shows "List.find (\<lambda>t'. task_id t' = task_id t) ts = Some t"
  using assms
proof (induction ts)
  case (Cons a ts)
  then show ?case by (auto simp: image_iff)
qed simp

text \<open>Updates of different instances, entry by entry.\<close>

lemma fake_updates_lookup:
  assumes "distinct (map ins_id us)"
  shows "fold fake.update_entry us v k =
    (case List.find (\<lambda>u. ins_id u = k) us of None \<Rightarrow> v k | Some u \<Rightarrow> if v k = None then None else Some u)"
  using assms
proof (induction us arbitrary: v)
  case (Cons u us)
  have "ins_id u \<notin> ins_id ` set us" using Cons.prems by simp
  then have "List.find (\<lambda>x. ins_id x = ins_id u) us = None" unfolding find_None_iff by (metis imageI)
  then show ?case
    using Cons by (auto simp: fake.update_entry_def split: option.split)
qed simp

definition plan_result ::
  "Instance list \<Rightarrow> Instance list \<Rightarrow> Instance list \<Rightarrow> Instance list \<Rightarrow> (string \<Rightarrow> Instance option) \<Rightarrow> string \<Rightarrow> Instance option" where
  "plan_result add del forceDel us v k =
     (if k \<in> ins_id ` set add then
        (case v k of None \<Rightarrow> map_option (start_pod \<circ> addInPlaceUpdateReadinessGate) (List.find (\<lambda>a. ins_id a = k) add)
         | Some cur \<Rightarrow> Some cur)
      else if k \<in> ins_id ` set del then
        (case v k of None \<Rightarrow> None | Some cur \<Rightarrow> if isPodDying (Some (ins_pod cur)) then Some cur else None)
      else if k \<in> ins_id ` set forceDel then None
      else if k \<in> ins_id ` set us then (case v k of None \<Rightarrow> None | Some _ \<Rightarrow> List.find (\<lambda>u. ins_id u = k) us)
      else v k)"

lemma fake_isDying [simp]: "ic_isDying fakeClient pod = isPodDying (Some pod)"
  by (simp add: fakeClient_def defaultInstanceHealthChecker_isDying_def isPodDying_def)

lemma effects_plan_result:
  assumes "distinct (map ins_id (add @ del @ forceDel))"
  shows "fake.effects (sync_tasks add del forceDel) v k = plan_result add del forceDel [] v k"
proof -
  let ?ts = "sync_tasks add del forceDel"
  have d: "distinct (map task_id ?ts)" using assms by (simp add: task_ids_sync_tasks)
  have find: "List.find (\<lambda>t'. task_id t' = task_id t) ?ts = Some t" if "t \<in> set ?ts" for t
    using d that by (rule find_task)
  consider (add) a where "a \<in> set add" "ins_id a = k" | (del) x where "x \<in> set del" "ins_id x = k"
    | (force) x where "x \<in> set forceDel" "ins_id x = k" | (none) "k \<notin> ins_id ` set (add @ del @ forceDel)"
    by auto
  then show ?thesis
  proof cases
    case add
    then have "List.find (\<lambda>t. task_id t = k) ?ts = Some (CreateTask a)"
      using find [of "CreateTask a"] by (simp add: sync_tasks_def)
    moreover have "distinct (map ins_id add)" using assms by simp
    then have "List.find (\<lambda>a'. ins_id a' = k) add = Some a"
      using add by (induction add) (auto simp: image_iff)
    ultimately show ?thesis
      using add by (auto simp: fake.effects_def fake.effect_def plan_result_def split: option.split)
  next
    case del
    then have "List.find (\<lambda>t. task_id t = k) ?ts = Some (DeleteTask x)"
      using find [of "DeleteTask x"] by (simp add: sync_tasks_def)
    moreover have "k \<notin> ins_id ` set add" using assms del by auto
    ultimately show ?thesis
      using del by (auto simp: fake.effects_def fake.effect_def plan_result_def split: option.split)
  next
    case force
    then have "List.find (\<lambda>t. task_id t = k) ?ts = Some (ForceDeleteTask x)"
      using find [of "ForceDeleteTask x"] by (simp add: sync_tasks_def)
    moreover have "k \<notin> ins_id ` set add" "k \<notin> ins_id ` set del" using assms force by auto
    ultimately show ?thesis
      using force by (auto simp: fake.effects_def fake.effect_def plan_result_def)
  next
    case none
    then have "List.find (\<lambda>t. task_id t = k) ?ts = None"
      by (auto simp: find_None_iff sync_tasks_def)
    then show ?thesis using none by (simp add: fake.effects_def plan_result_def image_Un)
  qed
qed

lemma outcome_plan_result:
  assumes "distinct (map ins_id (add @ del @ forceDel @ us))"
  shows "fake.outcome add del forceDel us v k = plan_result add del forceDel us v k"
proof -
  let ?e = "fake.effects (sync_tasks add del forceDel) v k"
  have e: "?e = plan_result add del forceDel [] v k"
    by (rule effects_plan_result) (use assms in auto)
  have us: "distinct (map ins_id us)" using assms by simp
  have outcome: "fake.outcome add del forceDel us v k =
      (case List.find (\<lambda>u. ins_id u = k) us of None \<Rightarrow> ?e | Some u \<Rightarrow> if ?e = None then None else Some u)"
    unfolding fake.outcome_def by (rule fake_updates_lookup [OF us])
  show ?thesis
  proof (cases "List.find (\<lambda>u. ins_id u = k) us")
    case None
    then have "k \<notin> ins_id ` set us" by (force simp: find_None_iff)
    then show ?thesis unfolding outcome None by (simp add: e plan_result_def)
  next
    case (Some u)
    then have k: "k \<in> ins_id ` set us" by (auto simp: find_Some_iff)
    then have "k \<notin> ins_id ` set add" "k \<notin> ins_id ` set del" "k \<notin> ins_id ` set forceDel"
      using assms by auto
    with k show ?thesis unfolding outcome Some e by (simp add: plan_result_def Some split: option.split)
  qed
qed

text \<open>Every complete run ends with the same instances, and there is one.\<close>

lemma fake_runs:
  assumes "fake_inv f" "distinct (map ins_id (add @ del @ forceDel @ us))"
  shows "\<exists>f'. SyncInstances_runs fakeClient add del forceDel us f f'"
    and "SyncInstances_runs fakeClient add del forceDel us f f' \<Longrightarrow> fake_inv f'"
    and "SyncInstances_runs fakeClient add del forceDel us f f' \<Longrightarrow>
      map_of (fk_Instances f') = plan_result add del forceDel us (map_of (fk_Instances f))"
proof -
  have d: "distinct (map task_id (sync_tasks add del forceDel))"
    using assms(2) unfolding task_ids_sync_tasks by auto
  show "\<exists>f'. SyncInstances_runs fakeClient add del forceDel us f f'"
    by (rule fake.SyncInstances_completes [OF assms(1) d])
  assume run: "SyncInstances_runs fakeClient add del forceDel us f f'"
  show "fake_inv f'" by (rule fake.SyncInstances_outcome(1) [OF run assms(1) d])
  show "map_of (fk_Instances f') = plan_result add del forceDel us (map_of (fk_Instances f))"
    using fake.SyncInstances_outcome(2) [OF run assms(1) d] outcome_plan_result [OF assms(2)]
    by (simp add: fun_eq_iff)
qed


definition sampleInstance :: "string \<Rightarrow> Instance" where
  "sampleInstance iid = \<lparr>ins_pod = samplePod iid, ins_id = iid, ins_parent = sampleTApp 3\<rparr>"


end
