(* ===== verification/Sync.thy ===== *)
theory Sync
  imports Events Rollout_Theorems Conditions Fakes
begin

text \<open>
  \<^verbatim>\<open>Controller.Sync\<close> and \<^verbatim>\<open>Controller.syncTApp\<close>: one round of the controller for one TApp,
  composed of the other components. What the round reads and writes outside the controller is the
  record \<open>env\<close>; the three things Go leaves open (the orders in which the two loops over the action map
  visit it, and in which the goroutines for the pod conditions run) are the record \<open>choices\<close>.

  \<^verbatim>\<open>instanceToSync\<close> works on a copy of the TApp, so the hash labels it computes stay within the plan and the
  TApp whose status is updated afterwards does not carry them. The instances to delete share their pods with the list whose
  conditions are changed in between; a deletion only uses their names.
\<close>

subsection \<open>Definitions\<close>

record 'w env =
  env_caches :: "'w \<Rightarrow> informers"
  env_podStoreSynced :: "'w \<Rightarrow> bool"
  env_splitKey :: "string \<Rightarrow> (string \<times> string) result"
  env_updateTApp :: "'w tapp_request"
  env_updateStatus :: "'w tapp_request"
  env_updatePodStatus :: "'w pod_request option"
  env_podGet :: "'w pod_getter"
  env_now :: "'w \<Rightarrow> int"
  env_spew :: spew
  env_deletePodAfterAppFinish :: bool
  env_percent :: percent_getter
  env_node :: "'w \<Rightarrow> node_getter"
  env_client :: "'w InstanceClient"

record choices =
  ch_order1 :: "string list"
  ch_order2 :: "string list"
  ch_schedule :: "nat list"

definition env_listerGet :: "'w env \<Rightarrow> 'w tapp_getter" where
  "env_listerGet env ns name w = tAppNamespaceLister_Get (env_caches env w) ns name"

text \<open>The result is the pods as the caller sees them afterwards, with the world.\<close>

definition syncTApp :: "'w env \<Rightarrow> choices \<Rightarrow> TApp \<Rightarrow> Pod list \<Rightarrow> 'w \<Rightarrow> (Pod list \<times> 'w) go" where
  "syncTApp env ch tapp pods w =
     go_bind (instanceToSync (env_spew env) (env_deletePodAfterAppFinish env) (env_percent env) (env_node env w)
         (ch_order1 ch) (ch_order2 ch) tapp pods) (\<lambda>plan.
       case syncPodConditions (env_updatePodStatus env) (env_podGet env) (env_now env) (ch_schedule ch) pods
           (plan_del plan @ plan_update plan) w of
         (pods', w1) \<Rightarrow>
           go_bind (SyncInstances (env_client env) (plan_add plan) (plan_del plan) (plan_forceDel plan)
               (plan_update plan) w1) (\<lambda>w2. Inr (pods', w2)))"

definition Sync :: "'w env \<Rightarrow> choices \<Rightarrow> string \<Rightarrow> 'w \<Rightarrow> (error option \<times> 'w) go" where
  "Sync env ch key w =
     (if \<not> env_podStoreSynced env w then Inr (Some (Errorf ''waiting for pods controller to sync''), w)
      else case env_splitKey env key of
             Inl err \<Rightarrow> Inr (Some err, w)
           | Inr (ns, name) \<Rightarrow>
               (case env_listerGet env ns name w of
                  Inl err \<Rightarrow> if IsNotFound err then Inr (None, w) else Inl NilDereference
                | Inr curTapp \<Rightarrow>
                    (case preprocessTApp (inf_selectorOf (env_caches env w)) (env_updateTApp env) (env_updateStatus env) curTapp w of
                       (Inl err, w1) \<Rightarrow> Inr (Some err, w1)
                     | (Inr tapp, w1) \<Rightarrow>
                         (case getPodsForTApp (env_caches env w1) tapp of
                            Inl err \<Rightarrow> Inr (Some err, w1)
                          | Inr pods \<Rightarrow>
                              if isTAppFinished tapp \<and>
                                 om_Generation (tapp_Meta tapp) = st_ObservedGeneration (tapp_Status tapp) \<and>
                                 spec_Replicas (tapp_Spec tapp) = st_Replicas (tapp_Status tapp) \<and> length pods = 0
                              then Inr (None, w1)
                              else go_bind (syncTApp env ch tapp pods w1) (\<lambda>(pods', w2).
                                     Inr (updateTAppStatus (env_updateStatus env) (env_listerGet env) tapp pods' w2))))))"

lemmas sync_defs [model_defs] = env_listerGet_def syncTApp_def Sync_def

subsection \<open>Plans only touch owned pods\<close>

text \<open>Every instance of a plan that is deleted comes with a pod of the map, and every instance that is
  updated has one.\<close>

definition from_pods :: "Pod amap \<Rightarrow> sync_plan \<Rightarrow> bool" where
  "from_pods podMap plan \<longleftrightarrow>
     (\<forall>ins \<in> set (plan_del plan) \<union> set (plan_forceDel plan). map_of podMap (ins_id ins) = Some (ins_pod ins)) \<and>
     (\<forall>ins \<in> set (plan_update plan). map_of podMap (ins_id ins) \<noteq> None)"

lemma from_pods_empty: "from_pods podMap \<lparr>plan_add = [], plan_del = [], plan_forceDel = [], plan_update = []\<rparr>"
  by (simp add: from_pods_def)

context action_table
begin

lemma from_pods_delete_create:
  assumes "from_pods podMap (ro_plan s)" "delete_create_step nodeGet tapp podActions podMap p s = Inr s'"
  shows "from_pods podMap (ro_plan s')"
proof (cases "map_of podActions p = Some deletePod")
  case True
  then obtain pd where pd: "map_of podMap p = Some pd" using pod_present [OF True] by auto
  show ?thesis
  proof (cases "newInstanceWithPod tapp pd")
    case (Inr ins)
    then have "ins_id ins = p" "ins_pod ins = pd"
      using pod_index [OF pd] by (auto simp: newInstanceWithPod_simps)
    then show ?thesis
      using assms True pd Inr
      by (auto simp: delete_create_step_def from_pods_def plan_step_defs Let_def split: if_splits)
  qed (use assms True pd in \<open>simp add: delete_create_step_def\<close>)
next
  case False
  then show ?thesis
    using assms by (auto simp: delete_create_step_def from_pods_def plan_step_defs go_bind_result_Inr_iff Let_def
        split: option.splits PodAction.splits)
qed

lemma from_pods_do_update:
  assumes "from_pods podMap (ro_plan s)" "map_of podMap p \<noteq> None" "do_update tapp p s = Inr s'"
  shows "from_pods podMap (ro_plan s')"
  using assms newInstance_id [of tapp p]
  by (auto simp: do_update_def from_pods_def plan_step_defs go_bind_result_Inr_iff)

lemma from_pods_do_recreate:
  assumes "from_pods podMap (ro_plan s)" "do_recreate tapp (map_of podMap p) p s = Inr s'"
  shows "from_pods podMap (ro_plan s')"
proof (cases "map_of podMap p")
  case (Some pd)
  show ?thesis
  proof (cases "newInstanceWithPod tapp pd")
    case (Inr ins)
    then have "ins_id ins = p" "ins_pod ins = pd"
      using pod_index [OF Some] by (auto simp: newInstanceWithPod_simps)
    then show ?thesis using assms Some Inr by (auto simp: do_recreate_def from_pods_def plan_step_defs)
  qed (use assms Some in \<open>simp add: do_recreate_def\<close>)
qed (use assms in \<open>simp add: do_recreate_def\<close>)

lemma from_pods_force:
  assumes "from_pods podMap (ro_plan s)" "force_update_step tapp podActions podMap m p s = Inr s'"
  shows "from_pods podMap (ro_plan s')"
  using assms from_pods_do_update [of s p s'] from_pods_do_recreate [of s p s'] pod_present [of p updatePod]
  by (auto simp: force_update_step_def Let_def dest: skip_pod_Inr split: option.splits PodAction.splits if_splits)

lemma from_pods_rolling:
  assumes "from_pods podMap (ro_plan s)" "rolling_update_step tapp podActions podMap m p s = Inr s'"
  shows "from_pods podMap (ro_plan s')"
  using assms from_pods_do_update [of s p s'] from_pods_do_recreate [of s p s'] pod_present [of p updatePod]
  by (auto simp: rolling_update_step_def Let_def dest: skip_pod_Inr split: option.splits PodAction.splits if_splits)

lemma transform_from_pods:
  assumes "transformPodActions gv nodeGet order1 order2 tapp podActions podMap running = Inr plan"
  shows "from_pods podMap plan"
proof (rule transform_preserves [OF assms])
  show "from_pods podMap (ro_plan start)" by (simp add: from_pods_empty)
qed (fact from_pods_delete_create from_pods_force from_pods_rolling)+

end

text \<open>C9. The controller never takes down a pod it does not own: whatever pods are listed and whatever
  orders the maps are visited in, every instance a plan deletes, by force or not, carries a listed pod whose
  controller reference has the UID of the TApp, and every instance it updates in place has such a pod with
  its number.\<close>

theorem plan_touches_only_owned_pods:
  assumes "getPodsForTApp cx tapp = Inr pods"
    and "instanceToSync spew d gv nodeGet order1 order2 tapp pods = Inr plan"
  shows "(\<forall>ins \<in> set (plan_del plan) \<union> set (plan_forceDel plan).
      ins_pod ins \<in> set pods \<and> (\<exists>r. inf_controllerOf cx (ins_pod ins) = Some r \<and> or_UID r = tapp_UID tapp)) \<and>
    (\<forall>ins \<in> set (plan_update plan). \<exists>pod \<in> set pods. getPodIndex pod = Inr (ins_id ins) \<and>
      (\<exists>r. inf_controllerOf cx pod = Some r \<and> or_UID r = tapp_UID tapp))"
proof -
  have owned: "\<exists>r. inf_controllerOf cx pod = Some r \<and> or_UID r = tapp_UID tapp" if "pod \<in> set pods" for pod
    using assms(1) that by (elim getPodsForTApp_Inr) auto
  have from_pods: "from_pods (makePodMap pods) plan"
    using assms(2) planned.transform_from_pods unfolding instanceToSync_eq Let_def by blast
  have "pod \<in> set pods \<and> getPodIndex pod = Inr iid" if "map_of (makePodMap pods) iid = Some pod" for iid pod
    using map_of_makePodMap_index [OF that] .
  with from_pods owned show ?thesis unfolding from_pods_def by blast
qed

definition samplePodOf :: "TApp \<Rightarrow> string \<Rightarrow> Pod" where
  "samplePodOf tapp iid = (samplePod iid)\<lparr>pod_Meta := (pod_Meta (samplePod iid))
     \<lparr>om_OwnerReferences := [getControllerRef tapp]\<rparr>\<rparr>"

theorem plan_touches_only_owned_pods_witness:
  "\<exists>pods plan. getPodsForTApp (sampleCaches [samplePodOf (sampleTApp 1) ''0'', samplePod ''1'']) (sampleTApp 1) = Inr pods \<and>
     instanceToSync (\<lambda>_. '''') True (\<lambda>_ _ _. Inr 1) (\<lambda>_. Inl NotFound) [] [] (sampleTApp 1) pods = Inr plan \<and>
     ins_pod ` set (plan_del plan) \<subseteq> set pods"
proof -
  obtain pods where pods: "getPodsForTApp (sampleCaches [samplePodOf (sampleTApp 1) ''0'', samplePod ''1'']) (sampleTApp 1) = Inr pods"
    by (simp add: getPodsForTApp_def sampleCaches_def)
  obtain plan where plan: "instanceToSync (\<lambda>_. '''') True (\<lambda>_ _ _. Inr 1) (\<lambda>_. Inl NotFound) [] [] (sampleTApp 1) pods = Inr plan"
    by (rule instanceToSync_plan [OF sample_storage_ready])
  from plan_touches_only_owned_pods [OF pods plan] pods plan show ?thesis by blast
qed

subsection \<open>Rounds without effect\<close>

lemma no_action_steps:
  assumes "map_of podActions p = None"
  shows "delete_create_step nodeGet tapp podActions podMap p s = Inr s"
    "force_update_step tapp podActions podMap m p s = Inr s"
  using assms by (simp_all add: delete_create_step_def force_update_step_def Let_def)

lemma go_fold_skip: "(\<And>x s. f x s = Inr s) \<Longrightarrow> go_fold f xs s = Inr s"
  by (induction xs) auto

lemma transform_no_actions:
  "transformPodActions gv nodeGet order1 order2 tapp [] podMap running =
     Inr \<lparr>plan_add = [], plan_del = [], plan_forceDel = [], plan_update = []\<rparr>"
proof -
  have "go_fold (delete_create_step nodeGet tapp [] podMap) order1 s = Inr s"
    "go_fold (force_update_step tapp [] podMap m) order2 s = Inr s" for m s
    by (rule go_fold_skip, simp add: no_action_steps)+
  then show ?thesis by (simp add: transformPodActions_def rollingOrder_def Let_def split: sum.split)
qed

text \<open>A pod whose readiness gate already has the status the round would give it.\<close>

definition gateTarget :: "Pod \<Rightarrow> ConditionStatus" where
  "gateTarget pod = (if pod_Phase pod = PodRunning \<and> isUpdating pod then ConditionFalse else ConditionTrue)"

definition gate_settled :: "Pod \<Rightarrow> bool" where
  "gate_settled pod = (case getCondition InPlaceUpdateReady (pod_Conditions pod) of
     None \<Rightarrow> False | Some c \<Rightarrow> pc_Status c = gateTarget pod)"

lemma setGateCondition_settled:
  assumes "getCondition InPlaceUpdateReady cs = Some c" "pc_Status c = status"
  shows "setGateCondition status t cs = (cs, True, False)"
  using assms by (induction cs) (auto split: if_splits)

lemma applyCondition_settled:
  "gate_settled pod \<Longrightarrow> applyCondition (gateTarget pod) t pod = (pod, False)"
  by (auto simp: gate_settled_def applyCondition_def setGateCondition_settled Let_def split: option.splits)

lemma syncPodCondition_settled:
  assumes "gate_settled pod"
  shows "syncPodCondition kc podGet now {} pod w = (pod, w)"
proof -
  have "conditionLoop us podGet now (gateTarget pod) statusUpdateRetries pod w = w" for us
    by (simp add: statusUpdateRetries_def numeral_2_eq_2 applyCondition_settled [OF assms])
  then show ?thesis
    by (simp add: syncPodCondition_def syncInPlaceUpdateCondition_def setInPlaceUpdateCondition_def
        applyCondition_settled [OF assms] Let_def flip: gateTarget_def split: option.split)
qed

lemma syncPodConditions_settled:
  assumes "\<forall>pod \<in> set pods. gate_settled pod" "set schedule \<subseteq> {..<length pods}"
  shows "syncPodConditions kc podGet now schedule pods [] w = (pods, w)"
proof -
  have "fold (\<lambda>i (pods, w). case syncPodCondition kc podGet now {} (pods ! i) w of (pod, w') \<Rightarrow> (pods[i := pod], w'))
      schedule (pods, w) = (pods, w)"
    using assms(2) by (induction schedule) (use assms(1) in \<open>auto simp: syncPodCondition_settled\<close>)
  then show ?thesis by (simp add: syncPodConditions_def)
qed

lemma SyncInstances_nothing: "SyncInstances client [] [] [] [] w = Inr w"
  by (simp add: SyncInstances_def sync_tasks_def updateInstances_def)

text \<open>A TApp and its pods that ask for nothing.\<close>

definition quiescent :: "'w env \<Rightarrow> TApp \<Rightarrow> Pod list \<Rightarrow> bool" where
  "quiescent env tapp pods \<longleftrightarrow>
     nextActions (env_deletePodAfterAppFinish env) (updateTemplateHash (env_spew env) tapp) pods = [] \<and>
     (\<forall>pod \<in> set pods. gate_settled pod) \<and>
     \<not> shouldUpdateTAppStatus tapp pods"

lemma syncTApp_quiescent:
  assumes "quiescent env tapp pods" "set (ch_schedule ch) \<subseteq> {..<length pods}"
  shows "syncTApp env ch tapp pods w = Inr (pods, w)"
  using assms by (simp add: quiescent_def syncTApp_def instanceToSync_eq Let_def transform_no_actions
      syncPodConditions_settled SyncInstances_nothing)

text \<open>C11. A settled TApp costs nothing: when the lister's TApp is prepared, no pod needs an action, every
  readiness gate has its status and the recorded status is current, a round succeeds and leaves the world
  as it is: not one request of any kind is sent.\<close>

theorem Sync_quiescent:
  assumes "env_podStoreSynced env w" "env_splitKey env key = Inr (ns, name)"
    and "tAppNamespaceLister_Get (env_caches env w) ns name = Inr tapp"
    and "prepared (inf_selectorOf (env_caches env w)) tapp"
    and "spec_wf (tapp_Spec tapp)" "gm_wf (st_Statuses (tapp_Status tapp))"
    and "getPodsForTApp (env_caches env w) tapp = Inr pods"
    and "quiescent env tapp pods" "set (ch_schedule ch) \<subseteq> {..<length pods}"
  shows "Sync env ch key w = Inr (None, w)"
  using assms
  by (simp add: Sync_def env_listerGet_def prepared_no_request syncTApp_quiescent)
    (simp add: quiescent_def updateTAppStatus_def)

lemma map_of_None_Nil: "(\<And>k. map_of l k = None) \<Longrightarrow> l = []"
  by (metis list.set_intros(1) map_of_SomeD neq_Nil_conv option.distinct(1) surj_pair weak_map_of_SomeI)

text \<open>An environment for the witnesses: the given TApp in the caches, a server that stores what it is sent,
  the fake instance client as the world.\<close>

definition sampleEnv :: "TApp \<Rightarrow> fakeInstanceClient env" where
  "sampleEnv tapp = \<lparr>env_caches = \<lambda>w. (sampleCaches (getPodList w))\<lparr>inf_getTAppByKey := \<lambda>_. Inr (Some tapp)\<rparr>,
     env_podStoreSynced = \<lambda>_. True, env_splitKey = \<lambda>_. Inr (''ns'', ''web''),
     env_updateTApp = echo, env_updateStatus = echo, env_updatePodStatus = None, env_podGet = \<lambda>_ _ _. Inl NotFound,
     env_now = \<lambda>_. 0, env_spew = \<lambda>_. '''', env_deletePodAfterAppFinish = True, env_percent = \<lambda>_ _ _. Inr 1,
     env_node = \<lambda>_ _. Inl NotFound, env_client = fakeClient\<rparr>"

definition sampleSettled :: TApp where
  "sampleSettled = (sampleTApp 0)\<lparr>tapp_Spec := (sampleSpec 0)\<lparr>spec_Selector := Some (GenerateTAppSelector (Some [(''app'', ''web'')])),
       spec_UpdateStrategy := \<lparr>us_Template = ''default'', us_MaxUnavailable = Some (FromInt 1),
          us_ForceUpdate = \<lparr>fu_MaxUnavailable = Some (FromString ''100%'')\<rparr>\<rparr>\<rparr>,
     tapp_Status := (tapp_Status (sampleTApp 0))\<lparr>st_ScaleLabelSelector := ''app=web'', st_AppStatus := AppPending,
       st_Statuses := Some []\<rparr>\<rparr>"

lemma sampleSettled_ids: "replica_ids (updateTemplateHash spew sampleSettled) = []"
  by (simp add: replica_ids_def) (simp add: sampleSettled_def sampleTApp_def sampleSpec_def)

theorem Sync_quiescent_witness:
  "Sync (sampleEnv sampleSettled) \<lparr>ch_order1 = [], ch_order2 = [], ch_schedule = []\<rparr> ''ns/web'' newFakeInstanceClient =
     Inr (None, newFakeInstanceClient)"
proof (rule Sync_quiescent [where pods = "[]" and tapp = sampleSettled and ns = "''ns''" and name = "''web''"])
  let ?env = "sampleEnv sampleSettled" and ?t = "updateTemplateHash (\<lambda>_. '''') sampleSettled"
  show "prepared (inf_selectorOf (env_caches ?env newFakeInstanceClient)) sampleSettled"
    by (simp add: prepared_def defaulted_def removeUnusedTemplate_def sampleEnv_def sample_caches_defs sampleSettled_def
        sample_defs DefaultTemplateName_def)
  have "gm_wf (ls_MatchLabels (GenerateTAppSelector l))" for l
    unfolding GenerateTAppSelector_def Let_def by (simp add: gm_wf_delete)
  then show "spec_wf (tapp_Spec sampleSettled)"
    by (simp add: spec_wf_def meta_wf_def sampleSettled_def sample_defs) (simp add: gm_wf_def)
  have "replica_ids sampleSettled = []"
    by (simp add: replica_ids_def) (simp add: sampleSettled_def sampleTApp_def sampleSpec_def)
  then have "getInstanceStatus sampleSettled [] = []" by (simp add: getInstanceStatus_def)
  then have "\<not> shouldUpdateTAppStatus sampleSettled []"
    by (simp add: shouldUpdateTAppStatus_def genAppStatus_def sampleSettled_def sample_defs gm_DeepEqual_def gm_len_def)
  moreover have running: "desiredRunning True ?t = {}" using desired_props(4) [of True ?t] by (simp only: sampleSettled_ids) simp
  have "map_of (nextActions True ?t []) iid = None" for iid
    unfolding map_of_nextActions by (use running in \<open>simp add: next_action_def makePodMap_def\<close>)
  then have "nextActions True ?t [] = []" by (rule map_of_None_Nil)
  ultimately show "quiescent ?env sampleSettled []" by (simp add: quiescent_def sampleEnv_def)
qed (simp_all add: sampleEnv_def tAppNamespaceLister_Get_def getPodsForTApp_def sampleCaches_def getPodList_def
      newFakeInstanceClient_def sampleSettled_def sample_defs gm_wf_def)

subsection \<open>Rounds do not panic\<close>

definition client_total :: "'w InstanceClient \<Rightarrow> bool" where
  "client_total client \<longleftrightarrow>
     (\<forall>ins opts w. go_ok (ic_Delete client ins opts w)) \<and> (\<forall>ins w. go_ok (ic_Create client ins w)) \<and>
     (\<forall>cur ins w. go_ok (ic_Update client cur ins w))"

lemma run_task_total: "client_total client \<Longrightarrow> \<exists>e w'. run_task client t w = Inr (e, w')"
  by (auto simp: client_total_def run_task_phases perform_def go_ok_iff after_get_def
      split: goroutine.splits action.splits sum.splits task.splits option.splits if_splits)

lemma updateInstance_total: "client_total client \<Longrightarrow> \<exists>e w'. updateInstance client ins w = Inr (e, w')"
  by (auto simp: client_total_def updateInstance_def go_ok_iff split: sum.splits option.splits)

lemma SyncInstances_total:
  assumes "client_total client"
  shows "\<exists>w'. SyncInstances client add del forceDel us w = Inr w'"
proof -
  have tasks: "\<exists>w'. go_fold (\<lambda>t w. go_bind (run_task client t w) (\<lambda>(_, w'). Inr w')) ts w = Inr w'" for ts w
    using go_fold_invariant [of "\<lambda>_. True" w ts "\<lambda>t w. go_bind (run_task client t w) (\<lambda>(_, w'). Inr w')"]
      run_task_total [OF assms] by (fastforce simp: go_bind_Inr_iff)
  have updates: "\<exists>w'. updateInstances client us w = Inr w'" for w
    using go_fold_invariant [of "\<lambda>_. True" w us "\<lambda>ins w. go_bind (updateInstance client ins w) (\<lambda>(_, w'). Inr w')"]
      updateInstance_total [OF assms] by (fastforce simp: go_bind_Inr_iff updateInstances_def)
  obtain w1 where "go_fold (\<lambda>t w. go_bind (run_task client t w) (\<lambda>(_, w'). Inr w')) (sync_tasks add del forceDel) w = Inr w1"
    using tasks by blast
  with updates [of w1] show ?thesis by (auto simp: SyncInstances_def)
qed

lemma syncTApp_total:
  assumes "storage_ready tapp" "client_total (env_client env)"
  shows "\<exists>pods' w'. syncTApp env ch tapp pods w = Inr (pods', w')"
proof -
  obtain plan where plan: "instanceToSync (env_spew env) (env_deletePodAfterAppFinish env) (env_percent env) (env_node env w)
      (ch_order1 ch) (ch_order2 ch) tapp pods = Inr plan"
    by (rule instanceToSync_plan [OF assms(1)])
  obtain pods' w1 where conds: "syncPodConditions (env_updatePodStatus env) (env_podGet env) (env_now env) (ch_schedule ch) pods
      (plan_del plan @ plan_update plan) w = (pods', w1)" by fastforce
  obtain w2 where "SyncInstances (env_client env) (plan_add plan) (plan_del plan) (plan_forceDel plan) (plan_update plan) w1 = Inr w2"
    using SyncInstances_total [OF assms(2)] by blast
  with plan conds show ?thesis by (simp add: syncTApp_def)
qed

lemma go_bind_pair: "\<exists>x w. m = Inr (x, w) \<Longrightarrow> \<exists>e w'. go_bind m (\<lambda>(x, w). Inr (F x w)) = Inr (e, w')"
  by (auto intro: surj_pair)

text \<open>A server that never takes a selector away from a TApp.\<close>

definition keeps_selector :: "'w tapp_request \<Rightarrow> bool" where
  "keeps_selector req \<longleftrightarrow>
     (\<forall>t w t' w'. req t w = (Inr t', w') \<longrightarrow> spec_Selector (tapp_Spec t) \<noteq> None \<longrightarrow> spec_Selector (tapp_Spec t') \<noteq> None)"

lemma preprocessTApp_selector:
  assumes "preprocessTApp selectorOf updateTApp updateStatus tapp w = (Inr tapp', w')"
    and "keeps_selector updateTApp" "keeps_selector updateStatus"
  shows "spec_Selector (tapp_Spec tapp') \<noteq> None"
proof -
  define P where "P t \<longleftrightarrow> spec_Selector (tapp_Spec t) \<noteq> None" for t :: TApp
  have sel: "P t2" if "setLabelSelector t = Inr t1" "setScaleLabelSelector selectorOf t1 = Inr t2" for t t1 t2
    using that unfolding P_def
    by (auto simp: setLabelSelector_def setScaleLabelSelector_def Let_def split: sum.splits if_splits)
  have keep: "P t \<Longrightarrow> updateTApp t v = (Inr t', v') \<Longrightarrow> P t'" "P t \<Longrightarrow> updateStatus t v = (Inr t', v') \<Longrightarrow> P t'" for t t' v v'
    using assms(2,3) unfolding P_def keeps_selector_def by blast+
  have "P tapp'"
    using assms(1) unfolding preprocessTApp_def Let_def
    by (simp split: prod.splits sum.splits if_splits) (metis sel keep)+
  then show ?thesis by (simp add: P_def)
qed



lemma fake_total: "client_total fakeClient"
  by (simp add: client_total_def fakeClient_def fake_Delete_def fake_Create_def fake_Update_def Let_def)


end
