(* ===== verification/Convergence.thy ===== *)
theory Convergence
  imports Sync
begin

text \<open>
  Planner, instance factory, syncer and client together: starting with no pods, one plan, carried out
  under any interleaving of its goroutines, gives every desired instance a running pod, and the pods it
  created satisfy the planner: the next plan is empty.
\<close>

subsection \<open>Pods of a client\<close>

lemma makePodMap_getPodList:
  assumes "fake_inv f" "\<forall>(k, ins) \<in> set (fk_Instances f). getPodIndex (ins_pod ins) = Inr k"
  shows "map_of (makePodMap (getPodList f)) k = map_option ins_pod (map_of (fk_Instances f) k)"
proof -
  have "fold (\<lambda>pod podMap. case getPodIndex pod of Inl _ \<Rightarrow> podMap | Inr index \<Rightarrow> AList.update index pod podMap)
      (map (\<lambda>(i, ins). ins_pod ins) es) m = fold (\<lambda>(k, v). AList.update k v) (map (\<lambda>(k, ins). (k, ins_pod ins)) es) m"
    if "\<forall>(k, ins) \<in> set es. getPodIndex (ins_pod ins) = Inr k" for es m
    using that by (induction es arbitrary: m) auto
  from this [OF assms(2), of "[]"]
  have "makePodMap (getPodList f) = fold (\<lambda>(k, v). AList.update k v) (map (\<lambda>(k, ins). (k, ins_pod ins)) (fk_Instances f)) []"
    by (simp only: makePodMap_def getPodList_def)
  moreover have "distinct (map fst (map (\<lambda>(k, ins). (k, ins_pod ins)) (fk_Instances f)))"
    using assms(1) by (simp add: fake_inv_def case_prod_beta comp_def)
  ultimately show ?thesis
    by (simp add: map_of_fold_update map_of_rev_distinct map_of_map)
qed

subsection \<open>A created pod needs nothing\<close>

text \<open>A pod as the fake client runs it after a creation.\<close>

abbreviation launched :: "Instance \<Rightarrow> Instance" where
  "launched ins \<equiv> start_pod (addInPlaceUpdateReadinessGate ins)"

lemma launched_meta [simp]: "pod_Meta (ins_pod (launched ins)) = pod_Meta (ins_pod ins)"
  by (simp add: start_pod_def addInPlaceUpdateReadinessGate_def Let_def)

lemma launched_index [simp]: "getPodIndex (ins_pod (launched ins)) = getPodIndex (ins_pod ins)"
  by (simp only: getPodIndex_def launched_meta)

lemma launched_phase [simp]: "pod_Phase (ins_pod (launched ins)) = PodRunning"
  by (simp add: start_pod_def)

lemma hash_key_not_instance_key: "TemplateHashKey \<noteq> TAppInstanceKey"
  by (simp add: TemplateHashKey_def TAppInstanceKey_def)

lemma created_pod_current:
  assumes "getPodTemplate (tapp_Spec tapp) iid = Inr template" "gm_wf (pt_Labels template)"
    and "pod_of_template tapp template iid (ins_pod ins)"
  shows "\<not> isTemplateHashChanged tapp iid (ins_pod (launched ins))"
  using assms by (simp add: isTemplateHashChanged_def GetTemplateHash_def gm_get_def pod_of_template_def
      hash_key_not_instance_key Let_def)

lemma created_pod_no_action:
  assumes "getPodTemplate (tapp_Spec tapp) iid = Inr template" "gm_wf (pt_Labels template)"
    and "pod_of_template tapp template iid (ins_pod ins)" "map_of podMap iid = Some (ins_pod (launched ins))"
  shows "runningPodAction tapp podMap iid = None"
proof -
  have "\<not> isPodDying (Some (ins_pod (launched ins)))"
    using assms(3) by (simp add: isPodDying_def pod_of_template_def)
  moreover have "\<not> isPodCompleted (ins_pod (launched ins))" by (simp add: isPodCompleted_def)
  ultimately show ?thesis
    using created_pod_current [OF assms(1-3)] assms(4) by (simp add: runningPodAction_def)
qed

subsection \<open>The first plan\<close>

lemma no_pods_plan:
  assumes "instanceToSync spew d gv nodeGet order1 order2 tapp [] = Inr plan"
  shows "plan_del plan = []" "plan_forceDel plan = []" "plan_update plan = []"
proof -
  have "from_pods (makePodMap []) plan"
    using assms planned.transform_from_pods unfolding instanceToSync_eq Let_def by blast
  then have "\<not> ins \<in> set (plan_del plan)" "\<not> ins \<in> set (plan_forceDel plan)" "\<not> ins \<in> set (plan_update plan)" for ins
    by (auto simp: from_pods_def makePodMap_def)
  then show "plan_del plan = []" "plan_forceDel plan = []" "plan_update plan = []"
    by (metis list.set_intros(1) neq_Nil_conv)+
qed

text \<open>All templates the instances need exist and are ordinary maps.\<close>

definition templates_ok :: "bool \<Rightarrow> TApp \<Rightarrow> bool" where
  "templates_ok d tapp \<longleftrightarrow>
     (\<forall>iid \<in> desiredRunning d tapp. \<exists>template. getPodTemplate (tapp_Spec tapp) iid = Inr template \<and> gm_wf (pt_Labels template))"

lemma no_pods_creates:
  assumes "instanceToSync spew d gv nodeGet order1 order2 tapp0 [] = Inr plan" "storage_ready tapp0"
    and "tapp = updateTemplateHash spew tapp0" "range_order (nextActions d tapp []) order1"
  shows "ins \<in> set (plan_add plan) \<longleftrightarrow>
    ins_id ins \<in> desiredRunning d tapp \<and> newInstance tapp (ins_id ins) = Inr (Inr ins)"
proof -
  have ready: "storage_ready tapp" using assms(2,3) by simp
  have result: "transformPodActions gv nodeGet order1 order2 tapp (nextActions d tapp []) (makePodMap [])
      (desiredRunning d tapp) = Inr plan"
    using assms(1,3) by (simp add: instanceToSync_eq Let_def)
  have none: "map_of (makePodMap []) p = None" for p by (simp add: makePodMap_def)
  show ?thesis
    unfolding planned.transform_contents(1) [OF result ready] set_created nextActions_create none
    using range_order_Some [OF assms(4)] nextActions_create none by blast
qed

lemma plan_adds_distinct:
  assumes "instanceToSync spew d gv nodeGet order1 order2 tapp pods = Inr plan" "distinct order1" "distinct order2"
  shows "distinct (map ins_id (plan_add plan @ plan_del plan @ plan_forceDel plan @ plan_update plan))"
  using planned.transform_one_operation assms unfolding instanceToSync_eq Let_def by blast

lemma find_ins_id: "distinct (map ins_id xs) \<Longrightarrow> x \<in> set xs \<Longrightarrow> List.find (\<lambda>y. ins_id y = ins_id x) xs = Some x"
  by (induction xs) auto

text \<open>What the client holds after the first round: the launched instance of every desired number.\<close>

definition all_launched :: "bool \<Rightarrow> TApp \<Rightarrow> fakeInstanceClient \<Rightarrow> bool" where
  "all_launched d tapp f \<longleftrightarrow> fake_inv f \<and>
     (\<forall>k. map_of (fk_Instances f) k \<noteq> None \<longleftrightarrow> k \<in> desiredRunning d tapp) \<and>
     (\<forall>k cur. map_of (fk_Instances f) k = Some cur \<longrightarrow>
        (\<exists>ins. newInstance tapp k = Inr (Inr ins) \<and> cur = launched ins))"

lemma first_round:
  assumes plan: "instanceToSync spew d gv nodeGet order1 order2 tapp0 [] = Inr plan"
    and ready: "storage_ready tapp0" and tapp: "tapp = updateTemplateHash spew tapp0"
    and orders: "range_order (nextActions d tapp []) order1" "range_order (nextActions d tapp []) order2"
    and templates: "templates_ok d tapp"
    and run: "SyncInstances_runs fakeClient (plan_add plan) (plan_del plan) (plan_forceDel plan) (plan_update plan)
      newFakeInstanceClient f"
  shows "all_launched d tapp f"
proof -
  have d: "distinct order1" "distinct order2" using orders by (simp_all add: range_order_def)
  note dist = plan_adds_distinct [OF plan d]
  note adds = no_pods_creates [OF plan ready tapp orders(1)]
  have f: "fake_inv f" "map_of (fk_Instances f) k = plan_result (plan_add plan) [] [] [] (\<lambda>_. None) k" for k
    using fake_runs(2,3) [OF fake_inv_new dist run] no_pods_plan [OF plan] by (simp_all add: newFakeInstanceClient_def)
  have present: "map_of (fk_Instances f) (ins_id ins) = Some (launched ins)" if "ins \<in> set (plan_add plan)" for ins
    using that find_ins_id [of "plan_add plan" ins] dist by (simp add: f(2) plan_result_def)
  have made: "\<exists>ins \<in> set (plan_add plan). ins_id ins = k" if k: "k \<in> desiredRunning d tapp" for k
  proof -
    obtain ins where "newInstance tapp k = Inr (Inr ins)"
      using templates k newInstance_made_iff [of tapp k] ready tapp by (auto simp: templates_ok_def)
    then show ?thesis using adds [of ins] newInstance_id k by auto
  qed
  have absent: "map_of (fk_Instances f) k = None" if "k \<notin> desiredRunning d tapp" for k
    using that adds by (force simp: f(2) plan_result_def)
  show ?thesis
    unfolding all_launched_def
  proof (intro conjI allI impI f(1))
    fix k show "map_of (fk_Instances f) k \<noteq> None \<longleftrightarrow> k \<in> desiredRunning d tapp"
      using made present absent by (metis option.distinct(1))
  next
    fix k cur assume cur: "map_of (fk_Instances f) k = Some cur"
    then obtain ins where "ins \<in> set (plan_add plan)" "ins_id ins = k" using made absent by fastforce
    then show "\<exists>ins. newInstance tapp k = Inr (Inr ins) \<and> cur = launched ins" using present adds cur by auto
  qed
qed

lemma all_launched_no_action:
  assumes "all_launched d tapp f" "storage_ready tapp" "templates_ok d tapp"
  shows "nextActions d tapp (getPodList f) = []"
proof (rule map_of_None_Nil)
  fix k
  have made: "\<exists>template ins. getPodTemplate (tapp_Spec tapp) k = Inr template \<and> gm_wf (pt_Labels template) \<and>
      pod_of_template tapp template k (ins_pod ins) \<and> cur = launched ins" if cur: "map_of (fk_Instances f) k = Some cur" for k cur
  proof -
    have "k \<in> desiredRunning d tapp" using assms(1) cur by (auto simp: all_launched_def)
    then obtain template where t: "getPodTemplate (tapp_Spec tapp) k = Inr template" "gm_wf (pt_Labels template)"
      using assms(3) by (auto simp: templates_ok_def)
    obtain ins where "newInstance tapp k = Inr (Inr ins)" "cur = launched ins"
      using assms(1) cur unfolding all_launched_def by blast
    with t newInstance_ok [OF t(1) assms(2)] show ?thesis by (metis Inr_inject)
  qed
  have inv: "fake_inv f" using assms(1) by (simp add: all_launched_def)
  have "getPodIndex (ins_pod ins) = Inr k" if "(k, ins) \<in> set (fk_Instances f)" for k ins
  proof -
    have "map_of (fk_Instances f) k = Some ins" using inv that by (simp add: fake_inv_def)
    from made [OF this] show ?thesis by (auto simp: pod_of_template_def)
  qed
  then have pods: "map_of (makePodMap (getPodList f)) k = map_option ins_pod (map_of (fk_Instances f) k)"
    using makePodMap_getPodList [OF inv] by blast
  show "map_of (nextActions d tapp (getPodList f)) k = None"
  proof (cases "map_of (fk_Instances f) k")
    case None
    then have "k \<notin> desiredRunning d tapp" using assms(1) by (metis all_launched_def)
    with None pods show ?thesis unfolding map_of_nextActions by (simp add: next_action_def)
  next
    case (Some cur)
    then have k: "k \<in> desiredRunning d tapp" using assms(1) by (auto simp: all_launched_def)
    have "runningPodAction tapp (makePodMap (getPodList f)) k = None"
      using made [OF Some] pods Some created_pod_no_action by fastforce
    moreover have "k \<notin> desiredCompleted d tapp" "unwantedPodAction tapp k = None"
      using k desired_props(3,4) [of d tapp] wanted_not_unwanted by blast+
    ultimately show ?thesis unfolding map_of_nextActions using pods Some k by (simp add: next_action_def)
  qed
qed

text \<open>C3. Convergence: starting with no pods, the plan of one round, carried out on the in-memory client
  under any interleaving of its goroutines, leaves exactly one instance for every desired running number,
  each running and made from its template with the readiness gate added; the next round, over the pods
  created, plans nothing at all. Both hold for every visiting order of the maps.\<close>

theorem one_round_converges:
  assumes "instanceToSync spew d gv nodeGet order1 order2 tapp0 [] = Inr plan"
    and "storage_ready tapp0" "tapp = updateTemplateHash spew tapp0"
    and "range_order (nextActions d tapp []) order1" "range_order (nextActions d tapp []) order2"
    and "templates_ok d tapp"
    and "SyncInstances_runs fakeClient (plan_add plan) (plan_del plan) (plan_forceDel plan) (plan_update plan)
      newFakeInstanceClient f"
  shows "dom (map_of (fk_Instances f)) = desiredRunning d tapp \<and>
    (\<forall>cur \<in> ran (map_of (fk_Instances f)). pod_Phase (ins_pod cur) = PodRunning \<and>
       InPlaceUpdateReady \<in> set (ps_ReadinessGates (pod_Spec (ins_pod cur)))) \<and>
    instanceToSync spew d gv nodeGet order3 order4 tapp0 (getPodList f) =
      Inr \<lparr>plan_add = [], plan_del = [], plan_forceDel = [], plan_update = []\<rparr>"
proof -
  note all = first_round [OF assms]
  have ready: "storage_ready tapp" using assms(2,3) by simp
  have "nextActions d tapp (getPodList f) = []" by (rule all_launched_no_action [OF all ready assms(6)])
  then have "instanceToSync spew d gv nodeGet order3 order4 tapp0 (getPodList f) =
      Inr \<lparr>plan_add = [], plan_del = [], plan_forceDel = [], plan_update = []\<rparr>"
    unfolding instanceToSync_eq assms(3) Let_def by (simp only: transform_no_actions)
  moreover have "dom (map_of (fk_Instances f)) = desiredRunning d tapp"
    using all unfolding all_launched_def dom_def by blast
  moreover have "InPlaceUpdateReady \<in> set (ps_ReadinessGates (pod_Spec (ins_pod (launched ins))))" for ins
    by (auto simp: start_pod_def addInPlaceUpdateReadinessGate_def Let_def list_ex_iff)
  then have "\<forall>cur \<in> ran (map_of (fk_Instances f)). pod_Phase (ins_pod cur) = PodRunning \<and>
       InPlaceUpdateReady \<in> set (ps_ReadinessGates (pod_Spec (ins_pod cur)))"
    using all launched_phase unfolding all_launched_def ran_def by force
  ultimately show ?thesis by blast
qed

lemma replica_ids_updateTemplateHash [simp]: "replica_ids (updateTemplateHash spew tapp) = replica_ids tapp"
  by (simp add: replica_ids_def)

theorem one_round_converges_witness:
  "\<exists>plan f. instanceToSync (\<lambda>_. '''') True (\<lambda>_ _ _. Inr 1) (\<lambda>_. Inl NotFound) [''0'', ''1''] [''1'', ''0'']
       (sampleTApp 2) [] = Inr plan \<and>
     SyncInstances_runs fakeClient (plan_add plan) (plan_del plan) (plan_forceDel plan) (plan_update plan)
       newFakeInstanceClient f \<and>
     dom (map_of (fk_Instances f)) = {''0'', ''1''}"
proof -
  let ?t = "updateTemplateHash (\<lambda>_. '''') (sampleTApp 2)"
  obtain plan where plan: "instanceToSync (\<lambda>_. '''') True (\<lambda>_ _ _. Inr 1) (\<lambda>_. Inl NotFound) [''0'', ''1''] [''1'', ''0'']
       (sampleTApp 2) [] = Inr plan"
    by (rule instanceToSync_plan [OF sample_storage_ready])
  have running: "desiredRunning True ?t = {''0'', ''1''}" using sample_running(1) by simp
  have act: "map_of (nextActions True ?t []) p = (if p \<in> {''0'', ''1''} then Some createPod else None)" for p
    unfolding map_of_nextActions by (simp add: sample_running(1) next_action_def makePodMap_def)
  have "fst ` set (nextActions True ?t []) = dom (map_of (nextActions True ?t []))" by (rule dom_map_of_conv_image_fst [symmetric])
  also have "\<dots> = {''0'', ''1''}" unfolding dom_def act by auto
  finally have keys: "fst ` set (nextActions True ?t []) = {''0'', ''1''}" .
  have orders: "range_order (nextActions True ?t []) [''0'', ''1'']" "range_order (nextActions True ?t []) [''1'', ''0'']"
    unfolding range_order_def keys by auto
  obtain f where f: "SyncInstances_runs fakeClient (plan_add plan) (plan_del plan) (plan_forceDel plan) (plan_update plan)
      newFakeInstanceClient f"
    using fake_runs(1) [OF fake_inv_new plan_adds_distinct [OF plan]] by auto
  have "gm_wf (pt_Labels (updateHash (\<lambda>_. '''') (sampleTemplate ''web:1'')))"
    by (rule gm_wf_updateHash) (simp add: sample_defs gm_wf_def)
  then have "templates_ok True ?t"
    by (auto simp: templates_ok_def getPodTemplate_def getPodTemplateName_def updateTemplateHash_def Let_def sampleTApp_def sampleSpec_def)
  from one_round_converges [OF plan sample_storage_ready refl orders this f] plan f running show ?thesis by auto
qed

end
