(* ===== verification/Admission.thy ===== *)
theory Admission
  imports Convergence
begin

text \<open>
  The validating webhook, \<^verbatim>\<open>pkg/admission\<close>: validation of the update strategy
  (\<^verbatim>\<open>validation.go\<close>), the handler and the HTTP part of a request (\<^verbatim>\<open>admission.go\<close>,
  \<^verbatim>\<open>util.go\<close>).

  The record \<open>field_api\<close> holds what the code calls in \<^verbatim>\<open>k8s.io/apimachinery\<close>: field paths and
  errors, \<^verbatim>\<open>IsValidPercent\<close>, \<^verbatim>\<open>ValidateNonnegativeField\<close>, \<^verbatim>\<open>IntValue\<close> and \<^verbatim>\<open>ToAggregate\<close>;
  \<open>field_api_ok\<close> is their documented behaviour. The record \<open>json_api\<close> holds the JSON codec.
\<close>

subsection \<open>Validation\<close>

record ('p, 'e) field_api =
  fa_NewPath :: "string \<Rightarrow> 'p"
  fa_Child :: "'p \<Rightarrow> string \<Rightarrow> 'p"
  fa_Invalid :: "'p \<Rightarrow> IntOrString \<Rightarrow> string \<Rightarrow> 'e"
  fa_IsValidPercent :: "string \<Rightarrow> string list"
  fa_ValidateNonnegativeField :: "int \<Rightarrow> 'p \<Rightarrow> 'e list"
  fa_IntValue :: "IntOrString \<Rightarrow> int"
  fa_ToAggregate :: "'e list \<Rightarrow> error"

text \<open>The string that is cut passed \<^verbatim>\<open>IsValidPercent\<close> and is not empty.\<close>

definition getPercentValue :: "('p, 'e) field_api \<Rightarrow> IntOrString \<Rightarrow> int \<times> bool" where
  "getPercentValue fa intOrStringValue =
     (if ios_Type intOrStringValue \<noteq> IosString then (0, False)
      else if length (fa_IsValidPercent fa (ios_StrVal intOrStringValue)) \<noteq> 0 then (0, False)
      else (fst (Atoi (take (length (ios_StrVal intOrStringValue) - 1) (ios_StrVal intOrStringValue))), True))"

definition isNotZero :: "('p, 'e) field_api \<Rightarrow> IntOrString \<Rightarrow> 'p \<Rightarrow> 'e list" where
  "isNotZero fa intOrStringValue fldPath =
     (let (v, isPercent) = getPercentValue fa intOrStringValue
      in if (\<not> isPercent \<and> ios_IntVal intOrStringValue = 0) \<or> (isPercent \<and> v = 0)
         then [fa_Invalid fa fldPath intOrStringValue ''must not be zero''] else [])"

definition isNotMoreThan100Percent :: "('p, 'e) field_api \<Rightarrow> IntOrString \<Rightarrow> 'p \<Rightarrow> 'e list" where
  "isNotMoreThan100Percent fa intOrStringValue fldPath =
     (let (v, isPercent) = getPercentValue fa intOrStringValue
      in if \<not> isPercent \<or> v \<le> 100 then []
         else [fa_Invalid fa fldPath intOrStringValue ''must not be greater than 100%''])"

definition validatePositiveIntOrPercent :: "('p, 'e) field_api \<Rightarrow> IntOrString \<Rightarrow> 'p \<Rightarrow> 'e list" where
  "validatePositiveIntOrPercent fa intOrPercent fldPath =
     (case ios_Type intOrPercent of
        IosString \<Rightarrow> map (fa_Invalid fa fldPath intOrPercent) (fa_IsValidPercent fa (ios_StrVal intOrPercent))
      | IosInt \<Rightarrow> fa_ValidateNonnegativeField fa (fa_IntValue fa intOrPercent) fldPath
      | IosOther _ \<Rightarrow>
          [fa_Invalid fa fldPath intOrPercent
             (''must be an integer or percentage (e.g '' @ [CHR 0x27] @ ''5%'' @ [CHR 0x27] @ '')'')])"

definition validateIntOrPercent :: "('p, 'e) field_api \<Rightarrow> IntOrString \<Rightarrow> 'p \<Rightarrow> 'e list" where
  "validateIntOrPercent fa intOrPercent fldPath =
     validatePositiveIntOrPercent fa intOrPercent fldPath @ isNotMoreThan100Percent fa intOrPercent fldPath @
     isNotZero fa intOrPercent fldPath"

definition validateTAppUpdateStrategy :: "('p, 'e) field_api \<Rightarrow> TAppUpdateStrategy \<Rightarrow> 'p \<Rightarrow> 'e list" where
  "validateTAppUpdateStrategy fa strategy fldPath =
     (case us_MaxUnavailable strategy of
        None \<Rightarrow> [] | Some v \<Rightarrow> validateIntOrPercent fa v (fa_Child fa fldPath ''maxUnavailable'')) @
     (case fu_MaxUnavailable (us_ForceUpdate strategy) of
        None \<Rightarrow> []
      | Some v \<Rightarrow> validateIntOrPercent fa v (fa_Child fa (fa_Child fa fldPath ''forceUpdate'') ''maxUnavailable''))"

definition validateTAppSpec :: "('p, 'e) field_api \<Rightarrow> TAppSpec \<Rightarrow> 'p \<Rightarrow> 'e list" where
  "validateTAppSpec fa spec fldPath =
     validateTAppUpdateStrategy fa (spec_UpdateStrategy spec) (fa_Child fa fldPath ''updateStrategy'')"

definition validate :: "('p, 'e) field_api \<Rightarrow> TApp \<Rightarrow> error option" where
  "validate fa tapp =
     (let allErrs = validateTAppSpec fa (tapp_Spec tapp) (fa_NewPath fa ''spec'')
      in if length allErrs > 0 then Some (fa_ToAggregate fa allErrs) else None)"

subsection \<open>Requests\<close>

record AdmissionRequest =
  rq_UID :: string
  rq_Object_Raw :: string

text \<open>\<^verbatim>\<open>Result\<close> is a pointer to a status, of which the code sets the message.\<close>

record AdmissionResponse =
  rs_UID :: string
  rs_Allowed :: bool
  rs_Message :: "string option"

record AdmissionReview =
  rv_Request :: "AdmissionRequest option"
  rv_Response :: "AdmissionResponse option"

text \<open>\<^verbatim>\<open>json.Unmarshal\<close> returns what it stored in the zero value, and the error; \<^verbatim>\<open>err.Error()\<close> is
  \<open>js_errorText\<close>.\<close>

record json_api =
  js_UnmarshalReview :: "string \<Rightarrow> AdmissionReview \<times> error option"
  js_UnmarshalTApp :: "string \<Rightarrow> TApp \<times> error option"
  js_Marshal :: "AdmissionReview \<Rightarrow> string \<times> error option"
  js_errorText :: "error \<Rightarrow> string"

datatype http_answer = BadRequest | Wrote string

definition ToAdmissionResponse :: "json_api \<Rightarrow> error \<Rightarrow> AdmissionResponse" where
  "ToAdmissionResponse js err = \<lparr>rs_UID = '''', rs_Allowed = False, rs_Message = Some (js_errorText js err)\<rparr>"

definition validateHandler :: "('p, 'e) field_api \<Rightarrow> json_api \<Rightarrow> AdmissionReview \<Rightarrow> AdmissionResponse go" where
  "validateHandler fa js ar =
     (let reviewResponse = \<lparr>rs_UID = '''', rs_Allowed = True, rs_Message = None\<rparr>
      in case rv_Request ar of
           None \<Rightarrow> Inl NilDereference
         | Some request \<Rightarrow>
             (case js_UnmarshalTApp js (rq_Object_Raw request) of
                (tapp, Some err) \<Rightarrow> Inr (ToAdmissionResponse js err)
              | (tapp, None) \<Rightarrow>
                  (case validate fa tapp of
                     Some err \<Rightarrow> Inr (ToAdmissionResponse js err)
                   | None \<Rightarrow> Inr reviewResponse)))"

text \<open>The request body is nil, unreadable, or text.\<close>

definition Serve ::
  "json_api \<Rightarrow> (string result) option \<Rightarrow> string \<Rightarrow> (AdmissionReview \<Rightarrow> AdmissionResponse go) \<Rightarrow> http_answer go" where
  "Serve js rBody contentType admitter =
     (let body = (case rBody of Some (Inr data) \<Rightarrow> data | _ \<Rightarrow> '''')
      in if contentType \<noteq> ''application/json'' then Inr BadRequest
         else case js_UnmarshalReview js body of
                (requested, err) \<Rightarrow>
                  go_bind (case err of Some e \<Rightarrow> Inr (ToAdmissionResponse js e) | None \<Rightarrow> admitter requested)
                    (\<lambda>response.
                       case rv_Request requested of
                         None \<Rightarrow> Inl NilDereference
                       | Some request \<Rightarrow>
                           Inr (Wrote (fst (js_Marshal js \<lparr>rv_Request = None,
                             rv_Response = Some (response\<lparr>rs_UID := rq_UID request\<rparr>)\<rparr>)))))"

lemmas admission_defs [model_defs] =
  getPercentValue_def isNotZero_def isNotMoreThan100Percent_def validatePositiveIntOrPercent_def
  validateIntOrPercent_def validateTAppUpdateStrategy_def validateTAppSpec_def validate_def
  ToAdmissionResponse_def validateHandler_def Serve_def

subsection \<open>What is admitted\<close>

definition field_api_ok :: "('p, 'e) field_api \<Rightarrow> bool" where
  "field_api_ok fa \<longleftrightarrow>
     (\<forall>s. fa_IsValidPercent fa s = [] \<longleftrightarrow> (\<exists>ds. s = ds @ ''%'' \<and> ds \<noteq> '''' \<and> list_all is_digit ds)) \<and>
     (\<forall>v p. fa_ValidateNonnegativeField fa v p = [] \<longleftrightarrow> 0 \<le> v) \<and>
     (\<forall>x. ios_Type x = IosInt \<longrightarrow> fa_IntValue fa x = sint (ios_IntVal x))"

text \<open>A positive number, or a percentage from 1 to 100.\<close>

definition good_budget :: "IntOrString \<Rightarrow> bool" where
  "good_budget v =
     (case ios_Type v of
        IosInt \<Rightarrow> 1 \<le> sint (ios_IntVal v)
      | IosString \<Rightarrow> (\<exists>ds. ios_StrVal v = ds @ ''%'' \<and> ds \<noteq> '''' \<and> list_all is_digit ds \<and>
          1 \<le> fst (Atoi ds) \<and> fst (Atoi ds) \<le> 100)
      | IosOther _ \<Rightarrow> False)"

lemma Atoi_digits_nonneg:
  assumes "ds \<noteq> []" "list_all is_digit ds"
  shows "0 \<le> fst (Atoi ds)"
proof -
  have "is_digit (hd ds)" using assms hd_in_set [of ds] by (simp add: list_all_iff)
  then have "hd ds \<noteq> CHR ''-''" "hd ds \<noteq> CHR ''+''" by (auto simp: is_digit_def)
  then show ?thesis by (auto simp: Atoi_def Let_def split: sum.split strconv_error.split)
qed

lemma validateIntOrPercent_accepts:
  assumes "field_api_ok fa"
  shows "validateIntOrPercent fa v p = [] \<longleftrightarrow> good_budget v"
proof (cases "ios_Type v")
  case IosInt
  have "sint (ios_IntVal v) = 0 \<longleftrightarrow> ios_IntVal v = 0" by (rule signed_eq_0_iff)
  then have "0 \<le> sint (ios_IntVal v) \<and> ios_IntVal v \<noteq> 0 \<longleftrightarrow> 1 \<le> sint (ios_IntVal v)" by linarith
  moreover have "fa_ValidateNonnegativeField fa (fa_IntValue fa v) p = [] \<longleftrightarrow> 0 \<le> sint (ios_IntVal v)"
    using assms IosInt by (simp add: field_api_ok_def)
  ultimately show ?thesis
    using IosInt by (auto simp: validateIntOrPercent_def validatePositiveIntOrPercent_def isNotMoreThan100Percent_def
        isNotZero_def getPercentValue_def good_budget_def)
next
  case IosString
  show ?thesis
  proof (cases "fa_IsValidPercent fa (ios_StrVal v) = []")
    case True
    then obtain ds where "ios_StrVal v = ds @ ''%''" "ds \<noteq> ''''" "list_all is_digit ds"
      using assms by (auto simp: field_api_ok_def)
    then show ?thesis
      using IosString True Atoi_digits_nonneg [of ds]
      by (auto simp: validateIntOrPercent_def validatePositiveIntOrPercent_def isNotMoreThan100Percent_def
          isNotZero_def getPercentValue_def good_budget_def)
  next
    case False
    moreover have "\<not> good_budget v" using False IosString assms by (auto simp: good_budget_def field_api_ok_def)
    ultimately show ?thesis using IosString by (simp add: validateIntOrPercent_def validatePositiveIntOrPercent_def)
  qed
qed (simp add: validateIntOrPercent_def validatePositiveIntOrPercent_def good_budget_def)

lemma validate_accepts:
  assumes "field_api_ok fa"
  shows "validate fa tapp = None \<longleftrightarrow>
    (\<forall>v. us_MaxUnavailable (spec_UpdateStrategy (tapp_Spec tapp)) = Some v \<longrightarrow> good_budget v) \<and>
    (\<forall>v. fu_MaxUnavailable (us_ForceUpdate (spec_UpdateStrategy (tapp_Spec tapp))) = Some v \<longrightarrow> good_budget v)"
  by (simp add: validate_def validateTAppSpec_def validateTAppUpdateStrategy_def Let_def
      validateIntOrPercent_accepts [OF assms] split: option.split)

lemma good_percentage:
  assumes "0 \<le> n" "n < 2 ^ 63"
  shows "good_budget (FromString (Itoa n @ ''%'')) \<longleftrightarrow> 1 \<le> n \<and> n \<le> 100"
proof -
  have "list_all is_digit (Itoa n)" using assms(1) nat_string_digits by (auto simp: Itoa_def list_all_iff)
  moreover have "Itoa n \<noteq> ''''" using assms(1) by (simp add: Itoa_def)
  moreover have "Atoi (Itoa n) = (n, None)" using assms by (intro Atoi_Itoa) simp_all
  ultimately show ?thesis by (auto simp: good_budget_def FromString_def)
qed

lemma good_number:
  assumes "- (2 ^ 31) \<le> n" "n < 2 ^ 31"
  shows "good_budget (FromInt n) \<longleftrightarrow> 1 \<le> n"
proof -
  have "sint (word_of_int n :: 32 word) = n" using assms by (simp add: signed_take_bit_int_eq_self sint_sbintrunc')
  then show ?thesis by (simp add: good_budget_def FromInt_def)
qed

text \<open>C33. What the webhook admits: a TApp passes validation exactly when each of its two budgets that is set is
  a positive number or a percentage from 1 to 100. A printed percentage is admitted exactly in that range,
  leading to an error beyond it however large it is, and the defaults the controller fills in later never
  change the verdict.\<close>

theorem validate_accepts_iff:
  assumes "field_api_ok fa"
  shows "(validate fa tapp = None \<longleftrightarrow>
      (\<forall>v. us_MaxUnavailable (spec_UpdateStrategy (tapp_Spec tapp)) = Some v \<longrightarrow> good_budget v) \<and>
      (\<forall>v. fu_MaxUnavailable (us_ForceUpdate (spec_UpdateStrategy (tapp_Spec tapp))) = Some v \<longrightarrow> good_budget v)) \<and>
    (validate fa (setDefaultValue tapp) = None \<longleftrightarrow> validate fa tapp = None) \<and>
    (\<forall>n. 0 \<le> n \<and> n < 2 ^ 63 \<longrightarrow> (validateIntOrPercent fa (FromString (Itoa n @ ''%'')) p = [] \<longleftrightarrow> 1 \<le> n \<and> n \<le> 100))"
proof (intro conjI)
  have defaults: "good_budget (FromInt DefaultMaxUnavailable)" "good_budget (FromString DefaultMaxUnavailableForceUpdate)"
  proof -
    show "good_budget (FromInt DefaultMaxUnavailable)"
      using good_number [of 1] by (simp add: DefaultMaxUnavailable_def)
    have "Itoa 100 = ''100''"
      by (simp add: Itoa_def nat_string.simps digit_char_examples)
    then show "good_budget (FromString DefaultMaxUnavailableForceUpdate)"
      using good_percentage [of 100] by (simp add: DefaultMaxUnavailableForceUpdate_def)
  qed
  show "validate fa (setDefaultValue tapp) = None \<longleftrightarrow> validate fa tapp = None"
    using defaults by (auto simp: validate_accepts [OF assms] setDefaultValue_def Let_def)
qed (simp_all add: validate_accepts [OF assms] validateIntOrPercent_accepts [OF assms] good_percentage)

definition sampleFieldApi :: "(string list, string) field_api" where
  "sampleFieldApi = \<lparr>fa_NewPath = \<lambda>s. [s], fa_Child = \<lambda>p s. p @ [s], fa_Invalid = \<lambda>p v msg. msg,
     fa_IsValidPercent = \<lambda>s. if s \<noteq> '''' \<and> List.last s = CHR ''%'' \<and> butlast s \<noteq> '''' \<and> list_all is_digit (butlast s)
       then [] else [''a valid percent string must be a numeric string followed by an ending percent''],
     fa_ValidateNonnegativeField = \<lambda>v p. if v < 0 then [''must be greater than or equal to 0''] else [],
     fa_IntValue = \<lambda>x. sint (ios_IntVal x), fa_ToAggregate = \<lambda>errs. Errorf (hd errs)\<rparr>"

lemma sampleFieldApi_ok: "field_api_ok sampleFieldApi"
proof -
  have "s \<noteq> [] \<and> List.last s = CHR ''%'' \<and> butlast s \<noteq> [] \<and> list_all is_digit (butlast s) \<longleftrightarrow>
      (\<exists>ds. s = ds @ ''%'' \<and> ds \<noteq> [] \<and> list_all is_digit ds)" for s :: string
    by (metis append_butlast_last_id append_is_Nil_conv butlast_snoc last_snoc not_Cons_self)
  then show ?thesis by (simp add: field_api_ok_def sampleFieldApi_def)
qed

theorem validate_accepts_iff_witness: "validate sampleFieldApi (sampleTApp 3) = None"
  using validate_accepts_iff [OF sampleFieldApi_ok, of "sampleTApp 3"] by (simp add: sample_defs)

subsection \<open>The answer to a request\<close>

text \<open>C34. The webhook answers: a JSON request that decodes to a review with a request gets an answer with the
  request's UID, allowed exactly when the object decodes to a TApp that passes validation; otherwise the
  message is that of the error. The handler never panics on it.\<close>

theorem Serve_answers:
  assumes "js_UnmarshalReview js body = (review, None)" "rv_Request review = Some request"
    and "js_UnmarshalTApp js (rq_Object_Raw request) = (tapp, err)"
  shows "\<exists>response. Serve js (Some (Inr body)) ''application/json'' (validateHandler fa js) =
      Inr (Wrote (fst (js_Marshal js \<lparr>rv_Request = None, rv_Response = Some response\<rparr>))) \<and>
    rs_UID response = rq_UID request \<and>
    (rs_Allowed response \<longleftrightarrow> err = None \<and> validate fa tapp = None) \<and>
    (rs_Allowed response \<longleftrightarrow> rs_Message response = None) \<and>
    (\<forall>e. err = Some e \<or> err = None \<and> validate fa tapp = Some e \<longrightarrow> rs_Message response = Some (js_errorText js e))"
  using assms
  by (cases err; cases "validate fa tapp") (auto simp: Serve_def validateHandler_def ToAdmissionResponse_def)

definition sampleJson :: json_api where
  "sampleJson = \<lparr>js_UnmarshalReview = \<lambda>body. if body = '''' then (\<lparr>rv_Request = None, rv_Response = None\<rparr>, Some (Errorf ''unexpected end of JSON input''))
       else (\<lparr>rv_Request = Some \<lparr>rq_UID = ''u1'', rq_Object_Raw = body\<rparr>, rv_Response = None\<rparr>, None),
     js_UnmarshalTApp = \<lambda>_. (sampleTApp 3, None),
     js_Marshal = \<lambda>r. (case rv_Response r of None \<Rightarrow> '''' | Some resp \<Rightarrow> rs_UID resp @ (if rs_Allowed resp then ''+'' else ''-''), None),
     js_errorText = \<lambda>_. ''error''\<rparr>"

theorem Serve_answers_witness:
  "Serve sampleJson (Some (Inr ''{}'')) ''application/json'' (validateHandler sampleFieldApi sampleJson) = Inr (Wrote ''u1+'')"
proof -
  have "validate sampleFieldApi (sampleTApp 3) = None" using validate_accepts [OF sampleFieldApi_ok] by (simp add: sample_defs)
  with Serve_answers [of sampleJson "''{}''" "\<lparr>rv_Request = Some \<lparr>rq_UID = ''u1'', rq_Object_Raw = ''{}''\<rparr>, rv_Response = None\<rparr>"
      "\<lparr>rq_UID = ''u1'', rq_Object_Raw = ''{}''\<rparr>" "sampleTApp 3" None sampleFieldApi]
  show ?thesis by (auto simp: sampleJson_def)
qed

text \<open>A malformed request is never answered: when decoding leaves the review without a request, as it does
  for a body that is not JSON, empty, or unreadable, the handler panics at the UID before it can send the
  error response it has built, whatever the error was and whatever the admission function does with such a
  review.\<close>

theorem Serve_malformed_panics:
  assumes "js_UnmarshalReview js (case rBody of Some (Inr data) \<Rightarrow> data | _ \<Rightarrow> '''') = (review, err)" "rv_Request review = None"
  shows "Serve js rBody ''application/json'' (validateHandler fa js) = Inl NilDereference"
  using assms by (cases err) (simp_all add: Serve_def validateHandler_def Let_def)

theorem Serve_malformed_panics_witness:
  "Serve sampleJson None ''application/json'' (validateHandler sampleFieldApi sampleJson) = Inl NilDereference"
  using Serve_malformed_panics [of sampleJson None "\<lparr>rv_Request = None, rv_Response = None\<rparr>" "Some (Errorf ''unexpected end of JSON input'')"]
  by (simp add: sampleJson_def)

subsection \<open>Admitted TApps make progress\<close>

text \<open>\<^verbatim>\<open>intstr.GetValueFromIntOrPercent\<close> with rounding up: a number is itself, a percentage its share of the
  total, rounded up.\<close>

definition percent_getter_ok :: "percent_getter \<Rightarrow> bool" where
  "percent_getter_ok gv \<longleftrightarrow>
     (\<forall>v total. ios_Type v = IosInt \<longrightarrow> gv v total True = Inr (sint (ios_IntVal v))) \<and>
     (\<forall>v total ds. ios_Type v = IosString \<longrightarrow> ios_StrVal v = ds @ ''%'' \<longrightarrow> ds \<noteq> '''' \<longrightarrow> list_all is_digit ds \<longrightarrow>
        gv v total True = Inr ((fst (Atoi ds) * total + 99) div 100))"

lemma good_budget_value:
  assumes "percent_getter_ok gv" "good_budget v" "1 \<le> n"
  shows "\<exists>k. gv v n True = Inr k \<and> 1 \<le> k"
proof (cases "ios_Type v")
  case IosString
  then obtain ds where ds: "ios_StrVal v = ds @ ''%''" "ds \<noteq> ''''" "list_all is_digit ds" "1 \<le> fst (Atoi ds)"
    using assms(2) by (auto simp: good_budget_def)
  then have "gv v n True = Inr ((fst (Atoi ds) * n + 99) div 100)" using assms(1) IosString by (auto simp: percent_getter_ok_def)
  moreover have "1 * 1 \<le> fst (Atoi ds) * n" using ds(4) assms(3) by (intro mult_mono) auto
  then have "1 \<le> (fst (Atoi ds) * n + 99) div 100" by simp
  ultimately show ?thesis by blast
qed (use assms in \<open>auto simp: good_budget_def percent_getter_ok_def\<close>)

lemma admitted_budgets:
  assumes "field_api_ok fa" "percent_getter_ok gv" "validate fa tapp = None" "1 \<le> n"
  obtains vForce vRolling where "gv (forceMaxUnavailable tapp) n True = Inr vForce"
    "rollingMaxUnavailable gv tapp n = Inr vRolling" "1 \<le> vForce" "1 \<le> vRolling"
proof -
  have good: "good_budget (FromString DefaultMaxUnavailableForceUpdate)"
    using good_percentage [of 100]
    by (simp add: DefaultMaxUnavailableForceUpdate_def Itoa_def nat_string.simps digit_char_examples)
  note ok = assms(3) [unfolded validate_accepts [OF assms(1)]]
  have "good_budget (forceMaxUnavailable tapp)"
    using ok good by (auto simp: forceMaxUnavailable_def split: option.split)
  moreover have "\<exists>k. rollingMaxUnavailable gv tapp n = Inr k \<and> 1 \<le> k"
    using ok good_budget_value [OF assms(2) _ assms(4)]
    by (auto simp: rollingMaxUnavailable_def DefaultMaxUnavailable_def split: option.split)
  ultimately show thesis using that good_budget_value [OF assms(2) _ assms(4)] by metis
qed

text \<open>Admission and rollout fit together: for an admitted TApp without pending force updates, a rolling
  update never stalls by itself. As long as some pod is left to update, and either all desired pods are
  available or one of those left is not, the next plan updates at least one of them, for every visiting
  order of the maps.\<close>

theorem admitted_rolling_update_progresses:
  assumes "field_api_ok fa" "percent_getter_ok gv" "validate fa tapp0 = None"
    and "instanceToSync spew d gv nodeGet order1 order2 tapp0 pods = Inr plan"
    and "storage_ready tapp0" "tapp = updateTemplateHash spew tapp0"
    and "range_order (nextActions d tapp pods) order2"
    and "force_pods tapp (nextActions d tapp pods) = {}"
    and "p \<in> update_pods (nextActions d tapp pods)"
    and "availablePods d tapp pods = desiredRunning d tapp \<or> p \<notin> availablePods d tapp pods"
  shows "touched plan \<inter> update_pods (nextActions d tapp pods) \<noteq> {}"
proof -
  let ?A = "nextActions d tapp pods" and ?av = "availablePods d tapp pods"
  define n where "n = int (card (desiredRunning d tapp))"
  have run: "p \<in> desiredRunning d tapp" using assms(9) planned.update_running by (auto simp: update_pods_def)
  have "card (desiredRunning d tapp) \<noteq> 0" unfolding card_eq_0_iff using run desired_props(1) by blast
  then have n: "1 \<le> n" unfolding n_def by linarith
  have "validate fa tapp = None" using assms(1,3,6) by (simp add: validate_accepts)
  then obtain vF vR where v: "gv (forceMaxUnavailable tapp) n True = Inr vF" "rollingMaxUnavailable gv tapp n = Inr vR" "1 \<le> vR"
    using admitted_budgets [OF assms(1,2) _ n] by metis
  note exact = rolling_update_exact [OF assms(4-7) n_def v(1,2) assms(8)]
  show ?thesis
  proof (cases "p \<in> ?av")
    case False
    then show ?thesis unfolding exact using assms(9) by blast
  next
    case True
    then have all: "?av = desiredRunning d tapp" using assms(10) by blast
    have "p \<in> set (rolling_list tapp ?A)"
      using assms(8,9) planned.set_rolling_list(1) by (auto simp: update_kind_defs)
    then have "filter (\<lambda>p. p \<in> ?av) (rolling_list tapp ?A) \<noteq> []" using True by (auto simp: filter_empty_conv)
    moreover have "nat (int (card ?av) - (n - vR)) \<noteq> 0" using v(3) by (simp add: all n_def)
    ultimately have "set (take (nat (int (card ?av) - (n - vR))) (filter (\<lambda>p. p \<in> ?av) (rolling_list tapp ?A))) \<noteq> {}"
      unfolding set_empty take_eq_Nil by blast
    then show ?thesis unfolding exact Un_empty by (rule contrapos_nn [OF _ conjunct2])
  qed
qed

definition samplePercent :: percent_getter where
  "samplePercent v n roundUp =
     (case ios_Type v of
        IosInt \<Rightarrow> Inr (sint (ios_IntVal v))
      | IosString \<Rightarrow> if roundUp then Inr ((fst (Atoi (butlast (ios_StrVal v))) * n + 99) div 100)
          else Inr (fst (Atoi (butlast (ios_StrVal v))) * n div 100)
      | IosOther _ \<Rightarrow> Inl (Errorf ''invalid type: neither int nor percentage''))"

theorem admitted_rolling_update_progresses_witness:
  "let tapp = updateTemplateHash (\<lambda>_. '''') (sampleTApp 2); pods = [samplePod ''0'', samplePod ''1''];
       actions = nextActions True tapp pods; order = map fst actions
   in \<exists>plan. instanceToSync (\<lambda>_. '''') True samplePercent (\<lambda>_. Inl NotFound) order order (sampleTApp 2) pods = Inr plan \<and>
     touched plan \<inter> update_pods actions \<noteq> {}"
proof -
  let ?tapp = "updateTemplateHash (\<lambda>_. '''') (sampleTApp 2)" and ?pods = "[samplePod ''0'', samplePod ''1'']"
  let ?A = "nextActions True ?tapp ?pods"
  let ?order = "map fst ?A"
  obtain plan where plan: "instanceToSync (\<lambda>_. '''') True samplePercent (\<lambda>_. Inl NotFound) ?order ?order
      (sampleTApp 2) ?pods = Inr plan"
    by (rule instanceToSync_plan [OF sample_storage_ready])
  have gv: "percent_getter_ok samplePercent" by (simp add: percent_getter_ok_def samplePercent_def)
  have valid: "validate sampleFieldApi (sampleTApp 2) = None" using validate_accepts [OF sampleFieldApi_ok] by (simp add: sample_defs)
  have force: "force_pods ?tapp ?A = {}"
    by (simp add: force_pods_def isInRollingUpdate_def getRollingTemplateKey_def getPodTemplateName_def Let_def)
      (simp add: sample_defs)
  have p: "''0'' \<in> update_pods ?A" using sample_recreated(1) by (simp add: update_pods_def)
  have avail: "isPodAvailable (samplePod i)" for i
    by (simp add: isPodAvailable_def isPodInActive_def isPodDying_def isUpdating_def sample_defs)
  have "makePodMap ?pods = [(''0'', samplePod ''0''), (''1'', samplePod ''1'')]"
    by (simp add: makePodMap_def getPodIndex_def sample_defs)
  then have all: "availablePods True ?tapp ?pods = desiredRunning True ?tapp"
    unfolding set_getAvailablePods [OF desired_props(1)] using avail by (auto simp: sample_running)
  from admitted_rolling_update_progresses [OF sampleFieldApi_ok gv valid plan sample_storage_ready refl
      range_order_nextActions force p disjI1 [OF all]] plan
  show ?thesis unfolding Let_def by blast
qed

end
