(* ===== verification/Rollout_Liveness.thy ===== *)
theory Rollout_Liveness
  imports Convergence
begin

text \<open>
  A rolling update over many rounds. One round lists the pods of the in-memory client, plans, and carries
  the plan out under some interleaving of its goroutines; then the cluster makes the pods of the
  wanted instances available and changes no metadata. A TApp that does not change meanwhile reaches its
  desired state after a number of rounds bounded by twice the number of its outdated pods.

  The measure is \<open>rollout_work\<close>: two for every outdated pod (one round to take it down, one to create
  it again), one more while an instance is missing.
\<close>

subsection \<open>What a plan says of its instances\<close>

definition plan_kinds :: "TApp \<Rightarrow> PodAction amap \<Rightarrow> sync_plan \<Rightarrow> bool" where
  "plan_kinds tapp podActions plan \<longleftrightarrow>
     (\<forall>ins \<in> set (plan_del plan) \<union> set (plan_forceDel plan).
        map_of podActions (ins_id ins) \<in> {Some deletePod, Some recreatePod}) \<and>
     (\<forall>ins \<in> set (plan_update plan). map_of podActions (ins_id ins) = Some updatePod \<and>
        (\<exists>base. newInstance tapp (ins_id ins) = Inr (Inr base) \<and> ins = setInPlaceUpdateAnnotation base))"

lemma plan_kinds_add [simp]:
  "plan_kinds tapp podActions (ro_plan (not_available p s)) = plan_kinds tapp podActions (ro_plan s)"
  "plan_kinds tapp podActions (ro_plan (add_instance ins s)) = plan_kinds tapp podActions (ro_plan s)"
  "plan_kinds tapp podActions (ro_plan (del_instance ins s)) \<longleftrightarrow>
     plan_kinds tapp podActions (ro_plan s) \<and> map_of podActions (ins_id ins) \<in> {Some deletePod, Some recreatePod}"
  "plan_kinds tapp podActions (ro_plan (forceDel_instance ins s)) \<longleftrightarrow>
     plan_kinds tapp podActions (ro_plan s) \<and> map_of podActions (ins_id ins) \<in> {Some deletePod, Some recreatePod}"
  "plan_kinds tapp podActions (ro_plan (update_instance ins s)) \<longleftrightarrow>
     plan_kinds tapp podActions (ro_plan s) \<and> map_of podActions (ins_id ins) = Some updatePod \<and>
     (\<exists>base. newInstance tapp (ins_id ins) = Inr (Inr base) \<and> ins = setInPlaceUpdateAnnotation base)"
  by (auto simp: plan_kinds_def plan_step_defs)

lemma do_update_kinds:
  assumes "map_of podActions p = Some updatePod" "plan_kinds tapp podActions (ro_plan s)" "do_update tapp p s = Inr s'"
  shows "plan_kinds tapp podActions (ro_plan s')"
  using assms newInstance_id [of tapp p] by (auto simp: do_update_def go_bind_result_Inr_iff)

context action_table
begin

lemma do_recreate_kinds:
  assumes "map_of podActions p = Some recreatePod" "plan_kinds tapp podActions (ro_plan s)"
    and "do_recreate tapp (map_of podMap p) p s = Inr s'"
  shows "plan_kinds tapp podActions (ro_plan s')"
  by (rule delete_instance_made [OF assms(1)]) (use assms in \<open>auto simp: do_recreate_def\<close>)

lemma delete_create_kinds:
  assumes "plan_kinds tapp podActions (ro_plan s)" "delete_create_step nodeGet tapp podActions podMap p s = Inr s'"
  shows "plan_kinds tapp podActions (ro_plan s')"
proof (cases "map_of podActions p = Some deletePod")
  case True
  show ?thesis
    by (rule delete_instance_made [OF True]) (use assms True in \<open>auto simp: delete_create_step_def Let_def split: if_splits\<close>)
next
  case False
  then show ?thesis
    using assms by (auto simp: delete_create_step_def go_bind_result_Inr_iff Let_def split: option.splits PodAction.splits)
qed

lemma transform_kinds:
  assumes "transformPodActions gv nodeGet order1 order2 tapp podActions podMap running = Inr plan"
  shows "plan_kinds tapp podActions plan"
proof (rule transform_preserves [OF assms])
  show "plan_kinds tapp podActions (ro_plan start)" by (simp add: plan_kinds_def)
next
  fix m p s s' assume "plan_kinds tapp podActions (ro_plan s)" "force_update_step tapp podActions podMap m p s = Inr s'"
  then show "plan_kinds tapp podActions (ro_plan s')"
    using do_update_kinds [of podActions p tapp s s'] do_recreate_kinds [of p s s']
    by (auto simp: force_update_step_def Let_def dest: skip_pod_Inr split: option.splits PodAction.splits if_splits)
next
  fix m p s s' assume "plan_kinds tapp podActions (ro_plan s)" "rolling_update_step tapp podActions podMap m p s = Inr s'"
  then show "plan_kinds tapp podActions (ro_plan s')"
    using do_update_kinds [of podActions p tapp s s'] do_recreate_kinds [of p s s']
    by (auto simp: rolling_update_step_def Let_def dest: skip_pod_Inr split: option.splits PodAction.splits if_splits)
qed (rule delete_create_kinds)

text \<open>With every wanted instance available and both budgets positive, some pod is updated as long as one
  is outdated.\<close>

lemma transform_progress:
  assumes "transformPodActions gv nodeGet order1 order2 tapp podActions podMap running = Inr plan"
    and "storage_ready tapp" "range_order podActions order2"
    and "gv (forceMaxUnavailable tapp) (int (card running)) True = Inr vF" "1 \<le> vF"
    and "rollingMaxUnavailable gv tapp (int (card running)) = Inr vR" "1 \<le> vR"
    and "avail = running" "p \<in> update_pods podActions"
  shows "touched plan \<inter> update_pods podActions \<noteq> {}"
proof -
  let ?n = "int (card running)" and ?fs = "filter (\<lambda>p. p \<in> force_pods tapp podActions) order2"
  let ?forced = "set (force_chosen (?n - vF) avail ?fs)"
  note exact = transform_touched [OF assms(1-4,6) refl]
  have order: "q \<in> set order2" if "q \<in> update_pods podActions" for q
    using that assms(3) by (force simp: range_order_def update_pods_def dest: map_of_SomeD)
  show ?thesis
  proof (cases ?fs)
    case (Cons q qs)
    then have "q \<in> ?forced" using assms(5,8) by auto
    moreover have "q \<in> set ?fs" unfolding Cons by simp
    ultimately show ?thesis using exact by (auto simp: update_kind_defs)
  next
    case Nil
    then have "p \<notin> force_pods tapp podActions" using order [OF assms(9)] by (simp add: filter_empty_conv)
    then have "p \<in> set (rolling_list tapp podActions)"
      using assms(9) unfolding set_rolling_list(1) by (auto simp: update_kind_defs)
    then obtain q qs where q: "rolling_list tapp podActions = q # qs" by (cases "rolling_list tapp podActions") auto
    then have "q \<in> update_pods podActions" using set_rolling_list(1) by (auto simp: update_kind_defs)
    moreover have "q \<in> touched plan" unfolding exact using q Nil assms(7,8) by auto
    ultimately show ?thesis by blast
  qed
qed

end

subsection \<open>States and rounds\<close>

text \<open>An instance follows its template when it carries the template's hash.\<close>

definition up_to_date :: "TApp \<Rightarrow> string \<Rightarrow> Instance \<Rightarrow> bool" where
  "up_to_date tapp k cur \<longleftrightarrow> (\<exists>template. getPodTemplate (tapp_Spec tapp) k = Inr template \<and>
     gm_get [] (pod_Labels (ins_pod cur)) TemplateHashKey = gm_get [] (pt_Labels template) TemplateHashKey)"

definition outdated :: "bool \<Rightarrow> TApp \<Rightarrow> fakeInstanceClient \<Rightarrow> string set" where
  "outdated d tapp f = {k \<in> desiredRunning d tapp. \<exists>cur. map_of (fk_Instances f) k = Some cur \<and> \<not> up_to_date tapp k cur}"

definition missing :: "bool \<Rightarrow> TApp \<Rightarrow> fakeInstanceClient \<Rightarrow> string set" where
  "missing d tapp f = {k \<in> desiredRunning d tapp. map_of (fk_Instances f) k = None}"

definition rollout_work :: "bool \<Rightarrow> TApp \<Rightarrow> fakeInstanceClient \<Rightarrow> nat" where
  "rollout_work d tapp f = 2 * card (outdated d tapp f) + (if missing d tapp f = {} then 0 else 1)"

text \<open>A settled client: one pod per number, none dying, those of the wanted instances available.\<close>

definition settled :: "bool \<Rightarrow> TApp \<Rightarrow> fakeInstanceClient \<Rightarrow> bool" where
  "settled d tapp f \<longleftrightarrow> fake_inv f \<and>
     (\<forall>k cur. map_of (fk_Instances f) k = Some cur \<longrightarrow> getPodIndex (ins_pod cur) = Inr k \<and>
        \<not> isPodDying (Some (ins_pod cur)) \<and> (k \<in> desiredRunning d tapp \<longrightarrow> isPodAvailable (ins_pod cur)))"

text \<open>The cluster runs the pods: it writes their status and nothing else.\<close>

definition status_changed :: "Instance \<Rightarrow> Instance \<Rightarrow> bool" where
  "status_changed cur cur' \<longleftrightarrow> (\<exists>st. cur' = cur\<lparr>ins_pod := (ins_pod cur)\<lparr>pod_Status := st\<rparr>\<rparr>)"

definition settles :: "bool \<Rightarrow> TApp \<Rightarrow> fakeInstanceClient \<Rightarrow> fakeInstanceClient \<Rightarrow> bool" where
  "settles d tapp f f' \<longleftrightarrow> settled d tapp f' \<and>
     (\<forall>k. rel_option status_changed (map_of (fk_Instances f) k) (map_of (fk_Instances f') k))"

inductive sync_round ::
  "spew \<Rightarrow> bool \<Rightarrow> percent_getter \<Rightarrow> node_getter \<Rightarrow> TApp \<Rightarrow> fakeInstanceClient \<Rightarrow> fakeInstanceClient \<Rightarrow> bool"
  for spew d gv nodeGet tapp0 where
  round: "instanceToSync spew d gv nodeGet order1 order2 tapp0 (getPodList f) = Inr plan \<Longrightarrow>
    range_order (nextActions d (updateTemplateHash spew tapp0) (getPodList f)) order1 \<Longrightarrow>
    range_order (nextActions d (updateTemplateHash spew tapp0) (getPodList f)) order2 \<Longrightarrow>
    SyncInstances_runs fakeClient (plan_add plan) (plan_del plan) (plan_forceDel plan) (plan_update plan) f f1 \<Longrightarrow>
    settles d tapp0 f1 f' \<Longrightarrow> sync_round spew d gv nodeGet tapp0 f f'"

lemma settled_simps:
  assumes "settled d tapp f"
  shows "fake_inv f" "map_of (makePodMap (getPodList f)) k = map_option ins_pod (map_of (fk_Instances f) k)"
    and "availablePods d tapp (getPodList f) = desiredRunning d tapp - missing d tapp f"
proof -
  show inv: "fake_inv f" using assms by (simp add: settled_def)
  have "getPodIndex (ins_pod ins) = Inr k" if "(k, ins) \<in> set (fk_Instances f)" for k ins
    using assms inv that by (simp add: settled_def fake_inv_def)
  then show pods: "map_of (makePodMap (getPodList f)) k = map_option ins_pod (map_of (fk_Instances f) k)" for k
    using makePodMap_getPodList [OF inv] by blast
  show "availablePods d tapp (getPodList f) = desiredRunning d tapp - missing d tapp f"
    using assms by (auto simp: set_getAvailablePods [OF desired_props(1)] pods settled_def missing_def)
qed

text \<open>What the plan of a settled client decides.\<close>

lemma settled_actions:
  assumes "settled d tapp f" "templates_ok d tapp"
  shows "k \<in> missing d tapp f \<Longrightarrow> map_of (nextActions d tapp (getPodList f)) k = Some createPod"
    and "update_pods (nextActions d tapp (getPodList f)) = outdated d tapp f"
    and "map_of (nextActions d tapp (getPodList f)) k = Some deletePod \<longleftrightarrow>
      map_of (fk_Instances f) k \<noteq> None \<and> (k \<in> desiredCompleted d tapp \<or> unwantedPodAction tapp k = Some deletePod)"
    and "map_of (nextActions d tapp (getPodList f)) k = Some createPod \<longleftrightarrow> k \<in> missing d tapp f"
proof -
  let ?A = "nextActions d tapp (getPodList f)"
  note pods = settled_simps(2) [OF assms(1)]
  have running: "map_of ?A k = (if up_to_date tapp k cur then None
        else if isUniqHashChanged tapp k (ins_pod cur) then Some recreatePod else Some updatePod)"
    if k: "k \<in> desiredRunning d tapp" and cur: "map_of (fk_Instances f) k = Some cur" for k cur
  proof -
    obtain template where t: "getPodTemplate (tapp_Spec tapp) k = Inr template"
      using assms(2) k by (auto simp: templates_ok_def)
    have "\<not> isPodDying (Some (ins_pod cur))" "\<not> isPodCompleted (ins_pod cur)"
      using assms(1) k cur by (auto simp: settled_def isPodAvailable_def isPodInActive_def isPodCompleted_def)
    moreover have "isTemplateHashChanged tapp k (ins_pod cur) \<longleftrightarrow> \<not> up_to_date tapp k cur"
      by (simp add: isTemplateHashChanged_def up_to_date_def GetTemplateHash_def t Let_def)
    moreover have "k \<notin> desiredCompleted d tapp" "unwantedPodAction tapp k = None"
      using k desired_props(3,4) [of d tapp] wanted_not_unwanted by blast+
    ultimately show ?thesis
      using k cur pods [of k] by (simp add: map_of_nextActions next_action_def runningPodAction_def)
  qed
  show create: "map_of ?A k = Some createPod \<longleftrightarrow> k \<in> missing d tapp f" for k
    unfolding nextActions_create by (simp add: pods missing_def)
  then show "k \<in> missing d tapp f \<Longrightarrow> map_of ?A k = Some createPod" by blast
  have upd: "map_of ?A k \<in> {Some updatePod, Some recreatePod} \<longleftrightarrow> k \<in> outdated d tapp f" for k
  proof
    assume *: "map_of ?A k \<in> {Some updatePod, Some recreatePod}"
    then have k: "k \<in> desiredRunning d tapp" using planned.update_running by blast
    moreover obtain cur where "map_of (fk_Instances f) k = Some cur"
      using * planned.pod_present [of tapp d "getPodList f" k] pods by fastforce
    ultimately show "k \<in> outdated d tapp f" using * running by (auto simp: outdated_def)
  next
    assume "k \<in> outdated d tapp f"
    then show "map_of ?A k \<in> {Some updatePod, Some recreatePod}" using running by (auto simp: outdated_def)
  qed
  show "update_pods ?A = outdated d tapp f" using upd by (auto simp: update_pods_def)
  show "map_of ?A k = Some deletePod \<longleftrightarrow>
      map_of (fk_Instances f) k \<noteq> None \<and> (k \<in> desiredCompleted d tapp \<or> unwantedPodAction tapp k = Some deletePod)"
  proof (cases "k \<in> desiredRunning d tapp")
    case True
    then have "k \<notin> desiredCompleted d tapp" "unwantedPodAction tapp k = None"
      using desired_props(3,4) [of d tapp] wanted_not_unwanted by blast+
    with True running create [of k] show ?thesis by (cases "map_of (fk_Instances f) k") (auto simp: missing_def)
  next
    case False
    then show ?thesis unfolding map_of_nextActions next_action_def pods by (auto split: option.split)
  qed
qed

subsection \<open>One round\<close>

lemma settled_updateTemplateHash [simp]: "settled d (updateTemplateHash spew tapp) f = settled d tapp f"
  by (simp add: settled_def)

lemma plan_result_cases:
  assumes "distinct (map ins_id (add @ del @ forceDel @ us))"
  shows "ins \<in> set add \<Longrightarrow> v (ins_id ins) = None \<Longrightarrow> plan_result add del forceDel us v (ins_id ins) = Some (launched ins)"
    and "ins \<in> set us \<Longrightarrow> v (ins_id ins) \<noteq> None \<Longrightarrow> plan_result add del forceDel us v (ins_id ins) = Some ins"
    and "k \<in> ins_id ` (set del \<union> set forceDel) \<Longrightarrow> v k = Some cur \<Longrightarrow> \<not> isPodDying (Some (ins_pod cur)) \<Longrightarrow>
      plan_result add del forceDel us v k = None"
    and "k \<notin> ins_id ` (set add \<union> set del \<union> set forceDel \<union> set us) \<Longrightarrow> plan_result add del forceDel us v k = v k"
proof -
  show "plan_result add del forceDel us v (ins_id ins) = Some (launched ins)" if "ins \<in> set add" "v (ins_id ins) = None"
    using that find_ins_id [of add ins] assms by (simp add: plan_result_def)
  show "plan_result add del forceDel us v (ins_id ins) = Some ins" if "ins \<in> set us" "v (ins_id ins) \<noteq> None"
  proof -
    have "ins_id ins \<notin> ins_id ` set add" "ins_id ins \<notin> ins_id ` set del" "ins_id ins \<notin> ins_id ` set forceDel"
      using assms that(1) by auto
    then show ?thesis using that find_ins_id [of us ins] assms by (auto simp: plan_result_def)
  qed
  show "plan_result add del forceDel us v k = None"
    if "k \<in> ins_id ` (set del \<union> set forceDel)" "v k = Some cur" "\<not> isPodDying (Some (ins_pod cur))"
  proof -
    have "k \<notin> ins_id ` set add" using assms that(1) by auto
    then show ?thesis using that by (auto simp: plan_result_def)
  qed
qed (auto simp: plan_result_def)

lemma plan_creates_missing:
  assumes "instanceToSync spew d gv nodeGet order1 order2 tapp0 (getPodList f) = Inr plan"
    and "storage_ready tapp0" "tapp = updateTemplateHash spew tapp0" "settled d tapp f" "templates_ok d tapp"
    and "range_order (nextActions d tapp (getPodList f)) order1"
  shows "ins \<in> set (plan_add plan) \<longleftrightarrow> ins_id ins \<in> missing d tapp f \<and> newInstance tapp (ins_id ins) = Inr (Inr ins)"
    and "ins_id ` set (plan_add plan) = missing d tapp f"
proof -
  have result: "transformPodActions gv nodeGet order1 order2 tapp (nextActions d tapp (getPodList f))
      (makePodMap (getPodList f)) (desiredRunning d tapp) = Inr plan"
    and ready: "storage_ready tapp"
    using assms(1-3) by (simp_all add: instanceToSync_eq Let_def)
  show adds: "ins \<in> set (plan_add plan) \<longleftrightarrow> ins_id ins \<in> missing d tapp f \<and> newInstance tapp (ins_id ins) = Inr (Inr ins)" for ins
    unfolding planned.transform_contents(1) [OF result ready] set_created settled_actions(4) [OF assms(4,5)]
    using range_order_Some [OF assms(6)] settled_actions(4) [OF assms(4,5)] by blast
  have "\<exists>ins. newInstance tapp k = Inr (Inr ins)" if "k \<in> missing d tapp f" for k
    unfolding newInstance_made_iff [OF ready] using that assms(5) by (auto simp: templates_ok_def missing_def)
  then have "k \<in> ins_id ` set (plan_add plan)" if "k \<in> missing d tapp f" for k
    using that adds newInstance_id by (metis imageI)
  moreover have "ins_id ins \<in> missing d tapp f" if "ins \<in> set (plan_add plan)" for ins
    using that adds by simp
  ultimately show "ins_id ` set (plan_add plan) = missing d tapp f" by auto
qed

text \<open>What the plan of a settled client makes of every instance.\<close>

lemma round_effect:
  assumes plan: "instanceToSync spew d gv nodeGet order1 order2 tapp0 (getPodList f) = Inr plan"
    and ready0: "storage_ready tapp0" and tapp: "tapp = updateTemplateHash spew tapp0"
    and settled: "settled d tapp f" and templates: "templates_ok d tapp"
    and order1: "range_order (nextActions d tapp (getPodList f)) order1"
    and order2: "range_order (nextActions d tapp (getPodList f)) order2"
    and run: "SyncInstances_runs fakeClient (plan_add plan) (plan_del plan) (plan_forceDel plan) (plan_update plan) f f1"
  shows "fake_inv f1"
    and "k \<in> missing d tapp f \<Longrightarrow> \<exists>ins. newInstance tapp k = Inr (Inr ins) \<and> map_of (fk_Instances f1) k = Some (launched ins)"
    and "k \<in> outdated d tapp f \<Longrightarrow> k \<in> touched plan \<Longrightarrow> map_of (fk_Instances f1) k = None \<or>
      (\<exists>ins. newInstance tapp k = Inr (Inr ins) \<and> map_of (fk_Instances f1) k = Some (setInPlaceUpdateAnnotation ins))"
    and "k \<in> desiredCompleted d tapp \<or> unwantedPodAction tapp k = Some deletePod \<Longrightarrow> map_of (fk_Instances f1) k = None"
    and "k \<notin> missing d tapp f \<Longrightarrow> \<not> (k \<in> outdated d tapp f \<and> k \<in> touched plan) \<Longrightarrow>
      \<not> (k \<in> desiredCompleted d tapp \<or> unwantedPodAction tapp k = Some deletePod) \<Longrightarrow>
      map_of (fk_Instances f1) k = map_of (fk_Instances f) k"
proof -
  let ?A = "nextActions d tapp (getPodList f)" and ?v = "map_of (fk_Instances f)"
  have result: "transformPodActions gv nodeGet order1 order2 tapp ?A (makePodMap (getPodList f)) (desiredRunning d tapp) = Inr plan"
    and ready: "storage_ready tapp"
    using plan ready0 tapp by (simp_all add: instanceToSync_eq Let_def)
  have dist: "distinct (map ins_id (plan_add plan @ plan_del plan @ plan_forceDel plan @ plan_update plan))"
    by (rule plan_adds_distinct [OF plan]) (use order1 order2 in \<open>auto simp: range_order_def\<close>)
  note inv = settled_simps(1) [OF settled] and acts = settled_actions [OF settled templates]
  note adds = plan_creates_missing [OF plan ready0 tapp settled templates order1]
  show "fake_inv f1" by (rule fake_runs(2) [OF inv dist run])
  note f1 = fake_runs(3) [OF inv dist run] and cases' = plan_result_cases [OF dist, where v = ?v]
  have kinds: "plan_kinds tapp ?A plan" by (rule planned.transform_kinds [OF result])
  have alive: "\<not> isPodDying (Some (ins_pod cur))" if "?v k = Some cur" for k cur
    using settled that by (auto simp: settled_def)
  show "\<exists>ins. newInstance tapp k = Inr (Inr ins) \<and> map_of (fk_Instances f1) k = Some (launched ins)" if k: "k \<in> missing d tapp f"
  proof -
    obtain ins where "ins \<in> set (plan_add plan)" "ins_id ins = k" using k adds(2) by force
    then show ?thesis unfolding f1 using cases'(1) [of ins] k adds(1) [of ins] by (auto simp: missing_def)
  qed
  show "map_of (fk_Instances f1) k = None \<or>
      (\<exists>ins. newInstance tapp k = Inr (Inr ins) \<and> map_of (fk_Instances f1) k = Some (setInPlaceUpdateAnnotation ins))"
    if k: "k \<in> outdated d tapp f" "k \<in> touched plan"
  proof (cases "k \<in> ins_id ` set (plan_update plan)")
    case True
    then obtain ins where ins: "ins \<in> set (plan_update plan)" "ins_id ins = k" by blast
    then obtain base where "newInstance tapp k = Inr (Inr base)" "ins = setInPlaceUpdateAnnotation base"
      using kinds by (auto simp: plan_kinds_def)
    with ins k(1) cases'(2) [of ins] show ?thesis unfolding f1 by (auto simp: outdated_def)
  next
    case False
    then have "k \<in> ins_id ` (set (plan_del plan) \<union> set (plan_forceDel plan))" using k(2) by (auto simp: touched_def)
    with k(1) cases'(3) [of k] alive show ?thesis unfolding f1 by (auto simp: outdated_def)
  qed
  show "map_of (fk_Instances f1) k = None" if k: "k \<in> desiredCompleted d tapp \<or> unwantedPodAction tapp k = Some deletePod"
  proof (cases "?v k")
    case None
    have "k \<notin> desiredRunning d tapp" using k desired_props(3,4) [of d tapp] wanted_not_unwanted by fastforce
    then have "k \<notin> ins_id ` set (plan_add plan)" unfolding adds(2) by (simp add: missing_def)
    then show ?thesis unfolding f1 plan_result_def using None by simp
  next
    case (Some cur)
    then have del: "map_of ?A k = Some deletePod" using acts(3) k by blast
    have "removable nodeGet tapp ?A (makePodMap (getPodList f)) k"
      using del Some alive [OF Some] settled_simps(2) [OF settled, of k] by (simp add: removable_def)
    then have "k \<in> touched plan"
      using planned.transform_contents(2) [OF result ready] range_order_Some [OF order1 del] by auto
    moreover have "k \<notin> ins_id ` set (plan_update plan)" using del kinds by (auto simp: plan_kinds_def)
    ultimately have "k \<in> ins_id ` (set (plan_del plan) \<union> set (plan_forceDel plan))" by (auto simp: touched_def)
    then show ?thesis unfolding f1 using Some alive [OF Some] by (rule cases'(3))
  qed
  show "map_of (fk_Instances f1) k = ?v k"
    if k: "k \<notin> missing d tapp f" "\<not> (k \<in> outdated d tapp f \<and> k \<in> touched plan)"
      "\<not> (k \<in> desiredCompleted d tapp \<or> unwantedPodAction tapp k = Some deletePod)"
  proof -
    have "k \<notin> touched plan"
    proof
      assume t: "k \<in> touched plan"
      then have "map_of ?A k \<in> {Some deletePod, Some recreatePod, Some updatePod}"
        using kinds by (auto simp: touched_def plan_kinds_def)
      then show False using k t acts(3) [of k] acts(2) by (auto simp: update_pods_def)
    qed
    then have "k \<notin> ins_id ` (set (plan_add plan) \<union> set (plan_del plan) \<union> set (plan_forceDel plan) \<union> set (plan_update plan))"
      using k(1) adds(2) by (auto simp: touched_def)
    then show ?thesis unfolding f1 by (rule cases'(4))
  qed
qed

lemma up_to_date_cong: "pod_Labels (ins_pod a) = pod_Labels (ins_pod b) \<Longrightarrow> up_to_date tapp k a = up_to_date tapp k b"
  by (simp add: up_to_date_def)

lemma status_changed_meta: "status_changed cur cur' \<Longrightarrow> pod_Meta (ins_pod cur') = pod_Meta (ins_pod cur)"
  by (auto simp: status_changed_def)

lemma updated_meta [simp]:
  "pod_Labels (ins_pod (setInPlaceUpdateAnnotation ins)) = pod_Labels (ins_pod ins)"
  "pod_Name (ins_pod (setInPlaceUpdateAnnotation ins)) = pod_Name (ins_pod ins)"
  "om_DeletionTimestamp (pod_Meta (ins_pod (setInPlaceUpdateAnnotation ins))) = om_DeletionTimestamp (pod_Meta (ins_pod ins))"
  by (simp_all add: setInPlaceUpdateAnnotation_def)

text \<open>An instance built from the present template follows it, created or updated.\<close>

lemma made_up_to_date:
  assumes "newInstance tapp k = Inr (Inr ins)" "storage_ready tapp" "templates_ok d tapp" "k \<in> desiredRunning d tapp"
  shows "up_to_date tapp k ins" "getPodIndex (ins_pod ins) = Inr k" "om_DeletionTimestamp (pod_Meta (ins_pod ins)) = None"
proof -
  obtain template where t: "getPodTemplate (tapp_Spec tapp) k = Inr template" "gm_wf (pt_Labels template)"
    using assms(3,4) by (auto simp: templates_ok_def)
  have "pod_of_template tapp template k (ins_pod ins)" using newInstance_ok [OF t(1) assms(2)] assms(1) by (metis Inr_inject)
  then show "up_to_date tapp k ins" "getPodIndex (ins_pod ins) = Inr k" "om_DeletionTimestamp (pod_Meta (ins_pod ins)) = None"
    using t by (simp_all add: up_to_date_def pod_of_template_def gm_get_def hash_key_not_instance_key)
qed

lemma settles_lookup:
  assumes "settles d tapp f1 f'"
  shows "map_of (fk_Instances f') k = None \<longleftrightarrow> map_of (fk_Instances f1) k = None"
    and "map_of (fk_Instances f') k = Some cur' \<Longrightarrow>
      \<exists>cur. map_of (fk_Instances f1) k = Some cur \<and> up_to_date tapp' k cur' = up_to_date tapp' k cur"
proof -
  have rel: "rel_option status_changed (map_of (fk_Instances f1) k) (map_of (fk_Instances f') k)"
    using assms by (simp add: settles_def)
  then show "map_of (fk_Instances f') k = None \<longleftrightarrow> map_of (fk_Instances f1) k = None" by (auto elim: option.rel_cases)
  assume "map_of (fk_Instances f') k = Some cur'"
  with rel obtain cur where "map_of (fk_Instances f1) k = Some cur" "status_changed cur cur'"
    by (auto elim: option.rel_cases)
  then show "\<exists>cur. map_of (fk_Instances f1) k = Some cur \<and> up_to_date tapp' k cur' = up_to_date tapp' k cur"
    using status_changed_meta up_to_date_cong by metis
qed

text \<open>Instances that are neither wanted nor to be removed carry a name the controller did not give.\<close>

definition no_surplus :: "bool \<Rightarrow> TApp \<Rightarrow> fakeInstanceClient \<Rightarrow> bool" where
  "no_surplus d tapp f \<longleftrightarrow> (\<forall>k. k \<in> desiredCompleted d tapp \<or> unwantedPodAction tapp k = Some deletePod \<longrightarrow>
     map_of (fk_Instances f) k = None)"

lemma round_work:
  assumes plan: "instanceToSync spew d gv nodeGet order1 order2 tapp0 (getPodList f) = Inr plan"
    and "storage_ready tapp0" "tapp = updateTemplateHash spew tapp0" "settled d tapp f" "templates_ok d tapp"
    and "range_order (nextActions d tapp (getPodList f)) order1" "range_order (nextActions d tapp (getPodList f)) order2"
    and "SyncInstances_runs fakeClient (plan_add plan) (plan_del plan) (plan_forceDel plan) (plan_update plan) f f1"
    and settles: "settles d tapp0 f1 f'"
  shows "outdated d tapp f' \<subseteq> outdated d tapp f - touched plan"
    and "missing d tapp f' \<subseteq> outdated d tapp f \<inter> touched plan" and "no_surplus d tapp f'"
proof -
  note effect = round_effect [OF assms(1-8)] and look = settles_lookup [OF settles]
  have ready: "storage_ready tapp" using assms(2,3) by simp
  note made = made_up_to_date(1) [OF _ ready assms(5)]
  have wanted: "\<not> (k \<in> desiredCompleted d tapp \<or> unwantedPodAction tapp k = Some deletePod)" if "k \<in> desiredRunning d tapp" for k
    using that desired_props(3,4) [of d tapp] wanted_not_unwanted by fastforce
  show "no_surplus d tapp f'" using effect(4) look(1) by (auto simp: no_surplus_def)
  show "missing d tapp f' \<subseteq> outdated d tapp f \<inter> touched plan"
  proof
    fix k assume "k \<in> missing d tapp f'"
    then have k: "k \<in> desiredRunning d tapp" "map_of (fk_Instances f1) k = None" using look(1) by (auto simp: missing_def)
    then have "k \<notin> missing d tapp f" using effect(2) by fastforce
    moreover from this have "map_of (fk_Instances f) k \<noteq> None" using k(1) by (simp add: missing_def)
    ultimately show "k \<in> outdated d tapp f \<inter> touched plan" using effect(5) wanted k by fastforce
  qed
  show "outdated d tapp f' \<subseteq> outdated d tapp f - touched plan"
  proof
    fix k assume "k \<in> outdated d tapp f'"
    then obtain cur' where k: "k \<in> desiredRunning d tapp" "map_of (fk_Instances f') k = Some cur'" "\<not> up_to_date tapp k cur'"
      by (auto simp: outdated_def)
    then obtain cur where cur: "map_of (fk_Instances f1) k = Some cur" "\<not> up_to_date tapp k cur" using look(2) by metis
    have new: "up_to_date tapp k (launched ins)" "up_to_date tapp k (setInPlaceUpdateAnnotation ins)"
      if "newInstance tapp k = Inr (Inr ins)" for ins
      using made [OF that k(1)] up_to_date_cong [of "launched ins" ins] up_to_date_cong [of "setInPlaceUpdateAnnotation ins" ins]
      by simp_all
    have "k \<notin> missing d tapp f" using effect(2) [of k] cur new(1) by auto
    moreover have "\<not> (k \<in> outdated d tapp f \<and> k \<in> touched plan)" using effect(3) [of k] cur new(2) by auto
    ultimately have "map_of (fk_Instances f) k = Some cur" using effect(5) wanted k(1) cur(1) by metis
    then have "k \<in> outdated d tapp f" using k(1) cur(2) by (auto simp: outdated_def)
    with \<open>\<not> (k \<in> outdated d tapp f \<and> k \<in> touched plan)\<close> show "k \<in> outdated d tapp f - touched plan" by blast
  qed
qed

lemma finite_outdated: "finite (outdated d tapp f)"
  using desired_props(1) [of d tapp] by (simp add: outdated_def)

text \<open>Both unavailability budgets are at least one.\<close>

definition positive_budgets :: "percent_getter \<Rightarrow> TApp \<Rightarrow> int \<Rightarrow> bool" where
  "positive_budgets gv tapp n \<longleftrightarrow> (\<exists>vForce vRolling. gv (forceMaxUnavailable tapp) n True = Inr vForce \<and> 1 \<le> vForce \<and>
     rollingMaxUnavailable gv tapp n = Inr vRolling \<and> 1 \<le> vRolling)"

lemma sync_round_progress:
  assumes round: "sync_round spew d gv nodeGet tapp0 f f'"
    and ready0: "storage_ready tapp0" and tapp: "tapp = updateTemplateHash spew tapp0"
    and settled: "settled d tapp f" and templates: "templates_ok d tapp"
    and budgets: "desiredRunning d tapp \<noteq> {} \<Longrightarrow> positive_budgets gv tapp (int (card (desiredRunning d tapp)))"
  shows "settled d tapp f'" "no_surplus d tapp f'" "rollout_work d tapp f' \<le> rollout_work d tapp f - 1"
proof -
  from round obtain order1 order2 plan f1 where
    plan: "instanceToSync spew d gv nodeGet order1 order2 tapp0 (getPodList f) = Inr plan"
    and orders: "range_order (nextActions d tapp (getPodList f)) order1" "range_order (nextActions d tapp (getPodList f)) order2"
    and run: "SyncInstances_runs fakeClient (plan_add plan) (plan_del plan) (plan_forceDel plan) (plan_update plan) f f1"
    and settles: "settles d tapp0 f1 f'"
    unfolding tapp sync_round.simps by blast
  note work = round_work [OF plan ready0 tapp settled templates orders run settles]
  show "no_surplus d tapp f'" by (rule work(3))
  show "settled d tapp f'" using settles tapp by (simp add: settles_def)
  let ?X = "outdated d tapp f \<inter> touched plan"
  have "card (outdated d tapp f') \<le> card (outdated d tapp f - ?X)"
    by (rule card_mono) (use work(1) finite_outdated [of d tapp f] in auto)
  also have "\<dots> = card (outdated d tapp f) - card ?X" by (rule card_Diff_subset) (use finite_outdated [of d tapp f] in auto)
  finally have less: "card (outdated d tapp f') \<le> card (outdated d tapp f) - card ?X" .
  have X: "card ?X \<le> card (outdated d tapp f)" "?X \<noteq> {} \<Longrightarrow> 1 \<le> card ?X"
    using finite_outdated [of d tapp f] by (auto intro: card_mono simp: Suc_le_eq card_gt_0_iff)
  have stuck: "outdated d tapp f = {}" if "?X = {}" "missing d tapp f = {}"
  proof (rule ccontr)
    assume "outdated d tapp f \<noteq> {}"
    moreover from this have "desiredRunning d tapp \<noteq> {}" by (auto simp: outdated_def)
    then obtain vForce vRolling where
      force: "gv (forceMaxUnavailable tapp) (int (card (desiredRunning d tapp))) True = Inr vForce" "1 \<le> vForce" and
      rolling: "rollingMaxUnavailable gv tapp (int (card (desiredRunning d tapp))) = Inr vRolling" "1 \<le> vRolling"
      using budgets unfolding positive_budgets_def by blast
    ultimately obtain p where p: "p \<in> update_pods (nextActions d tapp (getPodList f))"
      unfolding settled_actions(2) [OF settled templates] by blast
    have result: "transformPodActions gv nodeGet order1 order2 tapp (nextActions d tapp (getPodList f))
        (makePodMap (getPodList f)) (desiredRunning d tapp) = Inr plan"
      and ready: "storage_ready tapp"
      using plan ready0 tapp by (simp_all add: instanceToSync_eq Let_def)
    have "availablePods d tapp (getPodList f) = desiredRunning d tapp"
      using settled_simps(3) [OF settled] that(2) by simp
    from planned.transform_progress [OF result ready orders(2) force rolling this p] that(1)
    show False unfolding settled_actions(2) [OF settled templates] by blast
  qed
  show "rollout_work d tapp f' \<le> rollout_work d tapp f - 1"
  proof (cases "?X = {}")
    case True
    then have "missing d tapp f' = {}" using work(2) by blast
    with less stuck [OF True] True show ?thesis by (auto simp: rollout_work_def)
  next
    case False
    with less X show ?thesis by (auto simp: rollout_work_def)
  qed
qed

subsection \<open>Rounds exist\<close>

text \<open>One way for the cluster to settle: every pod runs, reports ready and no container yet.\<close>

definition run_pods :: "fakeInstanceClient \<Rightarrow> fakeInstanceClient" where
  "run_pods f = f\<lparr>fk_Instances := map (\<lambda>(k, ins).
     (k, start_pod (ins\<lparr>ins_pod := (ins_pod ins)\<lparr>pod_Status := zeroPodStatus\<rparr>\<rparr>))) (fk_Instances f)\<rparr>"

lemma run_pods_lookup:
  "map_of (fk_Instances (run_pods f)) k =
     map_option (\<lambda>ins. start_pod (ins\<lparr>ins_pod := (ins_pod ins)\<lparr>pod_Status := zeroPodStatus\<rparr>\<rparr>)) (map_of (fk_Instances f) k)"
  by (simp add: run_pods_def map_of_map)

lemma run_pods_settles:
  assumes "fake_inv f" "\<And>k cur. map_of (fk_Instances f) k = Some cur \<Longrightarrow>
    getPodIndex (ins_pod cur) = Inr k \<and> om_DeletionTimestamp (pod_Meta (ins_pod cur)) = None"
  shows "settles d tapp f (run_pods f)"
proof -
  let ?run = "\<lambda>ins. start_pod (ins\<lparr>ins_pod := (ins_pod ins)\<lparr>pod_Status := zeroPodStatus\<rparr>\<rparr>)"
  have meta: "pod_Meta (ins_pod (?run ins)) = pod_Meta (ins_pod ins)" for ins by (simp add: start_pod_def)
  then have index: "getPodIndex (ins_pod (?run ins)) = getPodIndex (ins_pod ins)" for ins by (simp only: getPodIndex_def)
  have inv: "fake_inv (run_pods f)"
    using assms(1) by (auto simp: fake_inv_def run_pods_def list_all_iff case_prod_beta comp_def start_pod_def)
  have available: "isPodAvailable (ins_pod (?run ins))" if "om_DeletionTimestamp (pod_Meta (ins_pod ins)) = None" for ins
    using that by (simp add: isPodAvailable_def isPodInActive_def isPodDying_def isUpdating_def Let_def meta)
      (simp add: start_pod_def GetPodCondition_def zeroPodStatus_def)
  have "status_changed ins (?run ins)" for ins by (auto simp: status_changed_def start_pod_def)
  then have "rel_option status_changed (map_of (fk_Instances f) k) (map_of (fk_Instances (run_pods f)) k)" for k
    by (cases "map_of (fk_Instances f) k") (simp_all add: run_pods_lookup)
  moreover have "settled d tapp (run_pods f)"
    unfolding settled_def
  proof (intro conjI allI impI inv)
    fix k cur assume "map_of (fk_Instances (run_pods f)) k = Some cur"
    then obtain ins where "map_of (fk_Instances f) k = Some ins" "cur = ?run ins" by (auto simp: run_pods_lookup)
    with assms(2) [of k ins] available [of ins] index [of ins] meta [of ins]
    show "getPodIndex (ins_pod cur) = Inr k" "\<not> isPodDying (Some (ins_pod cur))" "isPodAvailable (ins_pod cur)"
      by (simp_all add: isPodDying_def)
  qed
  ultimately show ?thesis by (simp add: settles_def)
qed

lemma sync_round_exists:
  assumes ready0: "storage_ready tapp0" and tapp: "tapp = updateTemplateHash spew tapp0"
    and settled: "settled d tapp f" and templates: "templates_ok d tapp"
  shows "\<exists>f'. sync_round spew d gv nodeGet tapp0 f f'"
proof -
  let ?order = "map fst (nextActions d tapp (getPodList f))"
  have order: "range_order (nextActions d tapp (getPodList f)) ?order" by (rule range_order_nextActions)
  obtain plan where plan: "instanceToSync spew d gv nodeGet ?order ?order tapp0 (getPodList f) = Inr plan"
    by (rule instanceToSync_plan [OF ready0])
  have "distinct (map ins_id (plan_add plan @ plan_del plan @ plan_forceDel plan @ plan_update plan))"
    by (rule plan_adds_distinct [OF plan]) (simp_all add: getNextActionsForPods_distinct)
  then obtain f1 where run: "SyncInstances_runs fakeClient (plan_add plan) (plan_del plan) (plan_forceDel plan) (plan_update plan) f f1"
    using fake_runs(1) settled_simps(1) [OF settled] by blast
  note effect = round_effect [OF plan ready0 tapp settled templates order order run]
  have ready: "storage_ready tapp" using ready0 tapp by simp
  have "getPodIndex (ins_pod cur) = Inr k \<and> om_DeletionTimestamp (pod_Meta (ins_pod cur)) = None"
    if cur: "map_of (fk_Instances f1) k = Some cur" for k cur
  proof -
    have new: "getPodIndex (ins_pod ins) = Inr k \<and> om_DeletionTimestamp (pod_Meta (ins_pod ins)) = None"
      if "newInstance tapp k = Inr (Inr ins)" "k \<in> desiredRunning d tapp" for ins
      using made_up_to_date(2,3) [OF that(1) ready templates that(2)] by simp
    have label: "getPodIndex (ins_pod (setInPlaceUpdateAnnotation ins)) = getPodIndex (ins_pod ins)" for ins
      by (simp add: getPodIndex_def split: option.split)
    consider "k \<in> missing d tapp f" | "k \<in> outdated d tapp f" "k \<in> touched plan" | "map_of (fk_Instances f) k = Some cur"
      using effect(4,5) [of k] cur by (metis option.distinct(1))
    then show ?thesis
    proof cases
      case 1
      then show ?thesis using effect(2) [OF 1] cur new by (auto simp: missing_def)
    next
      case 2
      then show ?thesis using effect(3) [OF 2] cur new by (auto simp: outdated_def label)
    next
      case 3
      then show ?thesis using settled by (auto simp: settled_def isPodDying_def)
    qed
  qed
  from run_pods_settles [OF effect(1) this] have "settles d tapp0 f1 (run_pods f1)" by blast
  with plan order run show ?thesis unfolding sync_round.simps tapp by blast
qed

subsection \<open>Many rounds\<close>

lemma rounds_progress:
  assumes "(sync_round spew d gv nodeGet tapp0 ^^ m) f f'"
    and "storage_ready tapp0" "tapp = updateTemplateHash spew tapp0" "settled d tapp f" "templates_ok d tapp"
    and "desiredRunning d tapp \<noteq> {} \<Longrightarrow> positive_budgets gv tapp (int (card (desiredRunning d tapp)))"
  shows "settled d tapp f' \<and> rollout_work d tapp f' \<le> rollout_work d tapp f - m \<and> (0 < m \<longrightarrow> no_surplus d tapp f')"
  using assms(1)
proof (induction m arbitrary: f')
  case 0
  then show ?case using assms(4) by simp
next
  case (Suc m)
  from Suc.prems obtain g where g: "(sync_round spew d gv nodeGet tapp0 ^^ m) f g" "sync_round spew d gv nodeGet tapp0 g f'"
    by (rule relpowp_Suc_E)
  have IH: "settled d tapp g" "rollout_work d tapp g \<le> rollout_work d tapp f - m" using Suc.IH [OF g(1)] by auto
  note step = sync_round_progress [OF g(2) assms(2,3) IH(1) assms(5,6)]
  with IH(2) show ?case by linarith
qed

lemma rounds_exist:
  assumes "storage_ready tapp0" "tapp = updateTemplateHash spew tapp0" "settled d tapp f" "templates_ok d tapp"
  shows "\<exists>f'. (sync_round spew d gv nodeGet tapp0 ^^ m) f f' \<and> settled d tapp f'"
proof (induction m)
  case 0
  then show ?case using assms(3) by auto
next
  case (Suc m)
  then obtain g where g: "(sync_round spew d gv nodeGet tapp0 ^^ m) f g" "settled d tapp g" by blast
  obtain f' where f': "sync_round spew d gv nodeGet tapp0 g f'" using sync_round_exists [OF assms(1,2) g(2) assms(4)] by blast
  then have "settled d tapp f'" using assms(2) by (auto simp: sync_round.simps settles_def)
  with g(1) f' show ?case by (meson relpowp_Suc_I)
qed

lemma no_work_no_action:
  assumes "settled d tapp f" "templates_ok d tapp" "rollout_work d tapp f = 0" "no_surplus d tapp f"
  shows "nextActions d tapp (getPodList f) = []"
proof (rule map_of_None_Nil)
  fix k
  note acts = settled_actions [OF assms(1,2)]
  have "outdated d tapp f = {}" "missing d tapp f = {}"
    using assms(3) finite_outdated [of d tapp f] by (auto simp: rollout_work_def split: if_splits)
  then have "map_of (nextActions d tapp (getPodList f)) k \<notin> {Some createPod, Some updatePod, Some recreatePod}"
    using acts(2) acts(4) [of k] by (auto simp: update_pods_def)
  moreover have "map_of (nextActions d tapp (getPodList f)) k \<noteq> Some deletePod"
    using acts(3) [of k] assms(4) by (auto simp: no_surplus_def)
  ultimately show "map_of (nextActions d tapp (getPodList f)) k = None"
    by (cases "map_of (nextActions d tapp (getPodList f)) k") (auto intro: PodAction.exhaust)
qed

lemma rollout_end:
  assumes "(sync_round spew d gv nodeGet tapp0 ^^ m) f f'"
    and "storage_ready tapp0" "tapp = updateTemplateHash spew tapp0" "settled d tapp f" "templates_ok d tapp"
    and "desiredRunning d tapp \<noteq> {} \<Longrightarrow> positive_budgets gv tapp (int (card (desiredRunning d tapp)))"
    and "2 * card (outdated d tapp f) + 1 \<le> m"
  shows "k \<in> desiredRunning d tapp \<Longrightarrow>
      \<exists>cur. map_of (fk_Instances f') k = Some cur \<and> up_to_date tapp k cur \<and> isPodAvailable (ins_pod cur)"
    and "no_surplus d tapp f'"
    and "instanceToSync spew d gv nodeGet order1 order2 tapp0 (getPodList f') =
      Inr \<lparr>plan_add = [], plan_del = [], plan_forceDel = [], plan_update = []\<rparr>"
proof -
  note end_state = rounds_progress [OF assms(1-6)]
  have "rollout_work d tapp f \<le> m" using assms(7) by (simp add: rollout_work_def)
  then have work: "rollout_work d tapp f' = 0" and settled: "settled d tapp f'" and clean: "no_surplus d tapp f'"
    using end_state assms(7) by simp_all
  show "no_surplus d tapp f'" by (rule clean)
  have "outdated d tapp f' = {}" "missing d tapp f' = {}"
    using work finite_outdated [of d tapp f'] by (auto simp: rollout_work_def split: if_splits)
  then show "\<exists>cur. map_of (fk_Instances f') k = Some cur \<and> up_to_date tapp k cur \<and> isPodAvailable (ins_pod cur)"
    if "k \<in> desiredRunning d tapp"
    using settled that by (cases "map_of (fk_Instances f') k") (auto simp: outdated_def missing_def settled_def)
  show "instanceToSync spew d gv nodeGet order1 order2 tapp0 (getPodList f') =
      Inr \<lparr>plan_add = [], plan_del = [], plan_forceDel = [], plan_update = []\<rparr>"
    using no_work_no_action [OF settled assms(5) work clean]
    unfolding instanceToSync_eq assms(3) Let_def by (simp only: transform_no_actions)
qed

text \<open>C1. A rolling update completes. Start with any settled set of pods, of whatever revisions, and repeat: plan, carry
  the plan out under any interleaving and any map order, let the cluster run the pods. When every wanted instance has a template
  and both unavailability budgets are at least one, then after twice the number of outdated pods plus one rounds, and ever
  after, every wanted instance has an available pod that carries its template's hash, no finished or surplus
  instance is left, and the next plan is empty. No such sequence of rounds can block.\<close>

theorem rollout_completes:
  assumes "storage_ready tapp0" "tapp = updateTemplateHash spew tapp0" "settled d tapp f" "templates_ok d tapp"
    and "n = int (card (desiredRunning d tapp))"
    and "gv (forceMaxUnavailable tapp) n True = Inr vForce" "1 \<le> vForce"
    and "rollingMaxUnavailable gv tapp n = Inr vRolling" "1 \<le> vRolling"
    and "2 * card (outdated d tapp f) + 1 \<le> m"
  shows "(\<exists>f'. (sync_round spew d gv nodeGet tapp0 ^^ m) f f') \<and>
    (\<forall>f'. (sync_round spew d gv nodeGet tapp0 ^^ m) f f' \<longrightarrow>
       (\<forall>k \<in> desiredRunning d tapp. \<exists>cur. map_of (fk_Instances f') k = Some cur \<and> up_to_date tapp k cur \<and> isPodAvailable (ins_pod cur)) \<and>
       no_surplus d tapp f' \<and>
       instanceToSync spew d gv nodeGet order1 order2 tapp0 (getPodList f') =
         Inr \<lparr>plan_add = [], plan_del = [], plan_forceDel = [], plan_update = []\<rparr>)"
proof (intro conjI allI impI ballI)
  show "\<exists>f'. (sync_round spew d gv nodeGet tapp0 ^^ m) f f'" using rounds_exist [OF assms(1-4)] by blast
  have "positive_budgets gv tapp (int (card (desiredRunning d tapp)))" using assms(5-9) unfolding positive_budgets_def by blast
  note end_state = rollout_end [OF _ assms(1-4) this assms(10)]
  fix f' assume run: "(sync_round spew d gv nodeGet tapp0 ^^ m) f f'"
  show "\<exists>cur. map_of (fk_Instances f') k = Some cur \<and> up_to_date tapp k cur \<and> isPodAvailable (ins_pod cur)"
    if "k \<in> desiredRunning d tapp" for k by (rule end_state(1) [OF run that])
  show "no_surplus d tapp f'" by (rule end_state(2) [OF run])
  show "instanceToSync spew d gv nodeGet order1 order2 tapp0 (getPodList f') =
      Inr \<lparr>plan_add = [], plan_del = [], plan_forceDel = [], plan_update = []\<rparr>" by (rule end_state(3) [OF run])
qed

definition outdatedClient :: fakeInstanceClient where
  "outdatedClient = newFakeInstanceClient\<lparr>fk_Instances := [(''0'', sampleInstance ''0''), (''1'', sampleInstance ''1'')]\<rparr>"

lemma sample_hashed_running: "desiredRunning True (updateTemplateHash spew (sampleTApp 2)) = {''0'', ''1''}"
  using sample_running(1) by simp

lemma outdatedClient_settled: "settled True (updateTemplateHash spew (sampleTApp 2)) outdatedClient"
proof -
  have "getPodIndex (samplePod i) = Inr i" "\<not> isPodDying (Some (samplePod i))" "isPodAvailable (samplePod i)" for i
    by (simp_all add: getPodIndex_def isPodAvailable_def isPodInActive_def isPodDying_def isUpdating_def GetPodCondition_def sample_defs)
  then show ?thesis
    by (auto simp: settled_def outdatedClient_def fake_inv_def sampleInstance_def split: if_splits)
qed

lemma sample_templates_ok: "templates_ok True (updateTemplateHash spew (sampleTApp 2))"
proof -
  have "gm_wf (pt_Labels (updateHash spew (sampleTemplate ''web:1'')))"
    by (rule gm_wf_updateHash) (simp add: sample_defs gm_wf_def)
  then show ?thesis
    by (auto simp: templates_ok_def getPodTemplate_def getPodTemplateName_def updateTemplateHash_def Let_def sampleTApp_def sampleSpec_def)
qed

lemma outdatedClient_rounds: "2 * card (outdated True (updateTemplateHash spew (sampleTApp 2)) outdatedClient) + 1 \<le> 5"
proof -
  have "card (outdated True (updateTemplateHash spew (sampleTApp 2)) outdatedClient) \<le> card {''0'', ''1''}"
    by (rule card_mono) (use sample_hashed_running [of spew] in \<open>auto simp: outdated_def\<close>)
  then show ?thesis by simp
qed

theorem rollout_completes_witness:
  "\<exists>f'. (sync_round (\<lambda>_. '''') True (\<lambda>_ _ _. Inr 1) (\<lambda>_. Inl NotFound) (sampleTApp 2) ^^ 5) outdatedClient f' \<and>
     (\<exists>cur. map_of (fk_Instances f') ''1'' = Some cur \<and> isPodAvailable (ins_pod cur)) \<and>
     instanceToSync (\<lambda>_. '''') True (\<lambda>_ _ _. Inr 1) (\<lambda>_. Inl NotFound) [] [] (sampleTApp 2) (getPodList f') =
       Inr \<lparr>plan_add = [], plan_del = [], plan_forceDel = [], plan_update = []\<rparr>"
proof -
  let ?t = "updateTemplateHash (\<lambda>_. '''') (sampleTApp 2)"
  have roll: "rollingMaxUnavailable (\<lambda>_ _ _. Inr 1) ?t 2 = Inr 1"
    by (simp add: rollingMaxUnavailable_def sample_defs DefaultMaxUnavailable_def)
  have two: "2 = int (card (desiredRunning True ?t))" unfolding sample_hashed_running by simp
  from rollout_completes [OF sample_storage_ready refl outdatedClient_settled sample_templates_ok two refl order_refl roll order_refl
      outdatedClient_rounds]
  show ?thesis unfolding sample_hashed_running by blast
qed

end
