(* ===== verification/Registration.thy ===== *)
theory Registration
  imports Kube_Types Sample_Objects
begin

text \<open>
  What the controller registers with the API server before it starts: the custom resource definition
  (\<^verbatim>\<open>pkg/tapp/crd.go\<close>) and the validating webhook (\<^verbatim>\<open>Register\<close> of
  \<^verbatim>\<open>pkg/admission/admission.go\<close>). Both are called again and again until they return true; the error
  result is always nil and left out.

  Parameters: the three requests on the objects (get, update, create) on a world \<open>'w\<close>, and
  \<^verbatim>\<open>ioutil.ReadFile\<close>. The definition of the CRD is a global variable through a pointer: an update
  writes the resource version of the present object into it, so it is part of the state.
\<close>

subsection \<open>Requests\<close>

record ('o, 'w) object_client =
  oc_Get :: "string \<Rightarrow> 'w \<Rightarrow> 'o result"
  oc_Update :: "'o \<Rightarrow> 'w \<Rightarrow> 'o result \<times> 'w"
  oc_Create :: "'o \<Rightarrow> 'w \<Rightarrow> 'o result \<times> 'w"

definition GroupName :: string where
  "GroupName = ''apps.tkestack.io''"

subsection \<open>The custom resource definition\<close>

record CustomResourceDefinitionNames =
  crn_Plural :: string
  crn_Singular :: string
  crn_Kind :: string
  crn_ListKind :: string

record CustomResourceSubresourceScale =
  crs_SpecReplicasPath :: string
  crs_StatusReplicasPath :: string
  crs_LabelSelectorPath :: "string option"

text \<open>The status subresource is an empty struct behind a pointer: present or not.\<close>

record CustomResourceDefinitionSpec =
  crds_Group :: string
  crds_Version :: string
  crds_Scope :: string
  crds_Names :: CustomResourceDefinitionNames
  crds_Status :: bool
  crds_Scale :: "CustomResourceSubresourceScale option"

record CustomResourceDefinition =
  crd_Name :: string
  crd_ResourceVersion :: string
  crd_Kind :: string
  crd_APIVersion :: string
  crd_Spec :: CustomResourceDefinitionSpec

definition scaleLabelSelector :: string where
  "scaleLabelSelector = ''.status.scaleLabelSelector''"

definition CRD :: CustomResourceDefinition where
  "CRD = \<lparr>crd_Name = ''tapps.'' @ GroupName, crd_ResourceVersion = '''', crd_Kind = ''CustomResourceDefinition'',
     crd_APIVersion = ''apiextensions.k8s.io/v1beta1'',
     crd_Spec = \<lparr>crds_Group = GroupName, crds_Version = ''v1'', crds_Scope = ''Namespaced'',
       crds_Names = \<lparr>crn_Plural = ''tapps'', crn_Singular = ''tapp'', crn_Kind = ''TApp'', crn_ListKind = ''TAppList''\<rparr>,
       crds_Status = True,
       crds_Scale = Some \<lparr>crs_SpecReplicasPath = ''.spec.replicas'', crs_StatusReplicasPath = ''.status.replicas'',
         crs_LabelSelectorPath = Some scaleLabelSelector\<rparr>\<rparr>\<rparr>"

text \<open>The result is \<^verbatim>\<open>created\<close>, the global afterwards, and the world.\<close>

definition EnsureCRDCreated ::
  "(CustomResourceDefinition, 'w) object_client \<Rightarrow> CustomResourceDefinition \<Rightarrow> 'w \<Rightarrow> bool \<times> CustomResourceDefinition \<times> 'w" where
  "EnsureCRDCreated crdClient crd w =
     (case oc_Get crdClient (crd_Name crd) w of
        Inr presetCRD \<Rightarrow>
          if crd_Spec presetCRD = crd_Spec crd then (True, crd, w)
          else let newCRD = crd\<lparr>crd_ResourceVersion := crd_ResourceVersion presetCRD\<rparr>
               in (case oc_Update crdClient newCRD w of
                     (Inl err, w1) \<Rightarrow> (False, newCRD, w1)
                   | (Inr _, w1) \<Rightarrow> (True, newCRD, w1))
      | Inl err \<Rightarrow>
          (case oc_Create crdClient crd w of
             (Inl err, w1) \<Rightarrow> (False, crd, w1)
           | (Inr _, w1) \<Rightarrow> (True, crd, w1)))"

subsection \<open>The webhook\<close>

record Webhook =
  wh_Name :: string
  wh_Operations :: "string list"
  wh_APIGroups :: "string list"
  wh_APIVersions :: "string list"
  wh_Resources :: "string list"
  wh_FailurePolicy :: "string option"
  wh_ServiceNamespace :: string
  wh_ServiceName :: string
  wh_ServicePath :: "string option"
  wh_CABundle :: string

record ValidatingWebhookConfiguration =
  wc_Name :: string
  wc_ResourceVersion :: string
  wc_Webhooks :: "Webhook list"

definition validatingWebhookConfiguration :: string where
  "validatingWebhookConfiguration = ''tapp-admission''"

definition validatePath :: string where
  "validatePath = ''/validate/tapp''"

definition failPolicy :: string where
  "failPolicy = ''Fail''"

definition webhookConfig :: "string \<Rightarrow> string \<Rightarrow> ValidatingWebhookConfiguration" where
  "webhookConfig namespace caCert = \<lparr>wc_Name = validatingWebhookConfiguration, wc_ResourceVersion = '''',
     wc_Webhooks = [\<lparr>wh_Name = ''tapp-controller.'' @ namespace @ ''.svc'', wh_Operations = [''CREATE'', ''UPDATE''],
       wh_APIGroups = [GroupName], wh_APIVersions = [''v1''], wh_Resources = [''tapps''],
       wh_FailurePolicy = Some failPolicy, wh_ServiceNamespace = namespace, wh_ServiceName = ''tapp-controller'',
       wh_ServicePath = Some validatePath, wh_CABundle = caCert\<rparr>]\<rparr>"

definition Register ::
  "(string \<Rightarrow> string result) \<Rightarrow> (ValidatingWebhookConfiguration, 'w) object_client \<Rightarrow> string \<Rightarrow> string \<Rightarrow> 'w \<Rightarrow> bool \<times> 'w" where
  "Register readFile client namespace caFile w =
     (case readFile caFile of
        Inl err \<Rightarrow> (False, w)
      | Inr caCert \<Rightarrow>
          let config = webhookConfig namespace caCert
          in case oc_Get client validatingWebhookConfiguration w of
               Inr present \<Rightarrow>
                 if wc_Webhooks present \<noteq> wc_Webhooks config
                 then (case oc_Update client (config\<lparr>wc_ResourceVersion := wc_ResourceVersion present\<rparr>) w of
                         (Inl err, w1) \<Rightarrow> (False, w1)
                       | (Inr _, w1) \<Rightarrow> (True, w1))
                 else (True, w)
             | Inl err \<Rightarrow>
                 (case oc_Create client config w of
                    (Inl err, w1) \<Rightarrow> (False, w1)
                  | (Inr _, w1) \<Rightarrow> (True, w1)))"

lemmas registration_defs [model_defs] =
  GroupName_def CRD_def EnsureCRDCreated_def webhookConfig_def Register_def validatingWebhookConfiguration_def
  validatePath_def failPolicy_def scaleLabelSelector_def

subsection \<open>Both settle\<close>

text \<open>A server that keeps what a successful request stored, as far as \<open>content\<close> sees it.\<close>

definition stores :: "('o, 'w) object_client \<Rightarrow> string \<Rightarrow> ('o \<Rightarrow> 'c) \<Rightarrow> bool" where
  "stores client name content \<longleftrightarrow>
     (\<forall>obj w r w'. oc_Update client obj w = (Inr r, w') \<or> oc_Create client obj w = (Inr r, w') \<longrightarrow>
        (\<exists>obj'. oc_Get client name w' = Inr obj' \<and> content obj' = content obj))"

lemma storesD:
  assumes "stores client name content"
  shows "oc_Update client obj w = (Inr r, w') \<Longrightarrow> \<exists>obj'. oc_Get client name w' = Inr obj' \<and> content obj' = content obj"
    and "oc_Create client obj w = (Inr r, w') \<Longrightarrow> \<exists>obj'. oc_Get client name w' = Inr obj' \<and> content obj' = content obj"
  using assms by (auto simp: stores_def)

lemma EnsureCRDCreated_true:
  assumes "EnsureCRDCreated client crd w = (True, crd', w')" "stores client (crd_Name crd) crd_Spec"
  shows "\<exists>obj. oc_Get client (crd_Name crd) w' = Inr obj \<and> crd_Spec obj = crd_Spec crd" "crd_Spec crd' = crd_Spec crd"
    "crd_Name crd' = crd_Name crd"
  using assms storesD [OF assms(2)]
  by (auto simp: EnsureCRDCreated_def Let_def split: sum.splits if_splits prod.splits) (metis CustomResourceDefinition.select_convs(5)
      CustomResourceDefinition.surjective CustomResourceDefinition.update_convs(2))

lemma Register_true:
  assumes "Register readFile client namespace caFile w = (True, w')"
    and "stores client validatingWebhookConfiguration wc_Webhooks"
  shows "\<exists>caCert obj. readFile caFile = Inr caCert \<and> oc_Get client validatingWebhookConfiguration w' = Inr obj \<and>
    wc_Webhooks obj = wc_Webhooks (webhookConfig namespace caCert)"
  using assms storesD [OF assms(2)]
  by (auto simp: Register_def Let_def split: sum.splits if_splits prod.splits) fastforce+


text \<open>A server with one object of each kind, for the witness.\<close>

definition memoryClient :: "('o, 'o option) object_client" where
  "memoryClient = \<lparr>oc_Get = \<lambda>_ w. case w of None \<Rightarrow> Inl NotFound | Some obj \<Rightarrow> Inr obj,
     oc_Update = \<lambda>obj w. case w of None \<Rightarrow> (Inl NotFound, w) | Some _ \<Rightarrow> (Inr obj, Some obj),
     oc_Create = \<lambda>obj w. case w of None \<Rightarrow> (Inr obj, Some obj) | Some _ \<Rightarrow> (Inl AlreadyExists, w)\<rparr>"

lemma memoryClient_stores: "stores memoryClient name content"
  by (auto simp: stores_def memoryClient_def split: option.splits)


text \<open>The global keeps the resource version of an object that is gone: after an update that failed, when the
  object is deleted meanwhile and the server, as the API server does, refuses to create objects that carry
  a version, no later call succeeds and the polling never ends.\<close>

fun poll_crd ::
  "(CustomResourceDefinition, 'w) object_client \<Rightarrow> nat \<Rightarrow> CustomResourceDefinition \<Rightarrow> 'w \<Rightarrow> bool" where
  "poll_crd client 0 crd w = False"
| "poll_crd client (Suc n) crd w =
     (case EnsureCRDCreated client crd w of (created, crd', w') \<Rightarrow> created \<or> poll_crd client n crd' w')"

theorem stale_version_never_created:
  assumes "crd_ResourceVersion crd \<noteq> ''''" "\<And>w. oc_Get client (crd_Name crd) w = Inl NotFound"
    and "\<And>obj w. crd_ResourceVersion obj \<noteq> '''' \<Longrightarrow> \<exists>w'. oc_Create client obj w = (Inl (OtherApiError ''resourceVersion''), w')"
  shows "\<not> poll_crd client n crd w"
proof (induction n arbitrary: w)
  case (Suc n)
  obtain w' where "oc_Create client crd w = (Inl (OtherApiError ''resourceVersion''), w')" using assms(1,3) by blast
  then have "EnsureCRDCreated client crd w = (False, crd, w')" using assms(2) by (simp add: EnsureCRDCreated_def)
  with Suc show ?case by simp
qed simp

theorem failed_update_leaves_version:
  assumes "oc_Get client (crd_Name crd) w = Inr present" "crd_Spec present \<noteq> crd_Spec crd"
    and "oc_Update client (crd\<lparr>crd_ResourceVersion := crd_ResourceVersion present\<rparr>) w = (Inl err, w')"
  shows "EnsureCRDCreated client crd w = (False, crd\<lparr>crd_ResourceVersion := crd_ResourceVersion present\<rparr>, w')"
  using assms by (simp add: EnsureCRDCreated_def)

end
