(* ===== verification/Api_Client.thy ===== *)
theory Api_Client
  imports Instance_Client
begin

text \<open>
  \<^verbatim>\<open>ApiServerInstanceClient\<close> of \<^verbatim>\<open>pkg/tapp/instance.go\<close>: the client that works against the
  Kubernetes API. The API server, the listers, the event recorder and the text of an error are the
  record \<open>kube\<close>, a parameter: its requests are arbitrary steps on a world \<open>'w\<close>, its listers read
  that world.

  The map of claims is visited in the order it was built in.
\<close>

subsection \<open>Definitions\<close>

datatype EventType = EventTypeNormal | EventTypeWarning

record 'w kube =
  k_podGet :: "string \<Rightarrow> string \<Rightarrow> 'w \<Rightarrow> Pod result"
  k_podCreate :: "string \<Rightarrow> Pod \<Rightarrow> 'w \<Rightarrow> Pod result \<times> 'w"
  k_podUpdate :: "string \<Rightarrow> Pod \<Rightarrow> 'w \<Rightarrow> Pod result \<times> 'w"
  k_podDelete :: "string \<Rightarrow> string \<Rightarrow> DeleteOptions option \<Rightarrow> 'w \<Rightarrow> error option \<times> 'w"
  k_pvcGet :: "string \<Rightarrow> string \<Rightarrow> 'w \<Rightarrow> PersistentVolumeClaim result"
  k_pvcCreate :: "string \<Rightarrow> PersistentVolumeClaim \<Rightarrow> 'w \<Rightarrow> PersistentVolumeClaim result \<times> 'w"
  k_event :: "TApp \<Rightarrow> EventType \<Rightarrow> string \<Rightarrow> string \<Rightarrow> 'w \<Rightarrow> 'w"
  k_errorText :: "error \<Rightarrow> string"
  k_aggregateText :: "string list \<Rightarrow> string"

text \<open>\<^verbatim>\<open>errorutils.NewAggregate\<close>: no error for an empty list.\<close>

definition NewAggregate :: "'w kube \<Rightarrow> string list \<Rightarrow> error option" where
  "NewAggregate k errs = (if errs = [] then None else Some (Errorf (k_aggregateText k errs)))"

definition api_event :: "'w kube \<Rightarrow> TApp \<Rightarrow> string \<Rightarrow> string \<Rightarrow> error option \<Rightarrow> 'w \<Rightarrow> 'w" where
  "api_event k obj reason msg err w =
     (case err of
        Some e \<Rightarrow> k_event k obj EventTypeWarning (''Failed'' @ reason) (msg @ '', error: '' @ k_errorText k e) w
      | None \<Rightarrow> k_event k obj EventTypeNormal (''Successful'' @ reason) msg w)"

text \<open>\<^verbatim>\<open>strings.Title\<close> and \<^verbatim>\<open>strings.ToLower\<close> on ASCII words.\<close>

definition upper_char :: "char \<Rightarrow> char" where
  "upper_char c = (let n = of_char c :: nat in if 97 \<le> n \<and> n \<le> 122 then char_of (n - 32) else c)"

definition lower_char :: "char \<Rightarrow> char" where
  "lower_char c = (let n = of_char c :: nat in if 65 \<le> n \<and> n \<le> 90 then char_of (n + 32) else c)"

definition Title :: "string \<Rightarrow> string" where
  "Title s = (case s of [] \<Rightarrow> [] | c # cs \<Rightarrow> upper_char c # cs)"

definition ToLower :: "string \<Rightarrow> string" where
  "ToLower = map lower_char"

definition recordClaimEvent ::
  "'w kube \<Rightarrow> string \<Rightarrow> Instance \<Rightarrow> PersistentVolumeClaim \<Rightarrow> error option \<Rightarrow> 'w \<Rightarrow> 'w" where
  "recordClaimEvent k verb ins claim err w =
     (case err of
        None \<Rightarrow> k_event k (ins_parent ins) EventTypeNormal (''Successful'' @ Title verb)
          (ToLower verb @ '' Claim '' @ om_Name (pvc_Meta claim) @ '' Pod '' @ pod_Name (ins_pod ins) @
           '' in TApp '' @ tapp_Name (ins_parent ins) @ '' success'') w
      | Some e \<Rightarrow> k_event k (ins_parent ins) EventTypeWarning (''Failed'' @ Title verb)
          (ToLower verb @ '' Claim '' @ om_Name (pvc_Meta claim) @ '' for Pod '' @ pod_Name (ins_pod ins) @
           '' in TApp '' @ tapp_Name (ins_parent ins) @ '' failed error: '' @ k_errorText k e) w)"

definition api_Get :: "'w kube \<Rightarrow> Instance \<Rightarrow> 'w \<Rightarrow> Instance option result" where
  "api_Get k ins w =
     (let ns = tapp_Namespace (ins_parent ins)
      in case k_podGet k ns (pod_Name (ins_pod ins)) w of
           Inl err \<Rightarrow> if IsNotFound err then Inr None else Inl err
         | Inr pod \<Rightarrow> Inr (Some (ins\<lparr>ins_pod := pod\<rparr>)))"

definition api_Delete ::
  "'w kube \<Rightarrow> Instance \<Rightarrow> DeleteOptions option \<Rightarrow> 'w \<Rightarrow> (error option \<times> 'w) go" where
  "api_Delete k ins options w =
     (let (err0, w1) = k_podDelete k (tapp_Namespace (ins_parent ins)) (pod_Name (ins_pod ins)) options w;
          err = (case err0 of Some e \<Rightarrow> if IsNotFound e then None else Some e | None \<Rightarrow> None)
      in Inr (err, api_event k (ins_parent ins) ''Delete'' (''instance: '' @ pod_Name (ins_pod ins)) err w1))"

text \<open>One claim: the errors so far and the world.\<close>

definition ensure_claim ::
  "'w kube \<Rightarrow> Instance \<Rightarrow> PersistentVolumeClaim \<Rightarrow> string list \<times> 'w \<Rightarrow> string list \<times> 'w" where
  "ensure_claim k ins claim s =
     (case s of (errs, w) \<Rightarrow>
        let ns = om_Namespace (pvc_Meta claim); name = om_Name (pvc_Meta claim)
        in case k_pvcGet k ns name w of
             Inr _ \<Rightarrow> (errs, w)
           | Inl err \<Rightarrow>
               if IsNotFound err then
                 (case k_pvcCreate k ns claim w of
                    (Inr _, w1) \<Rightarrow> (errs, recordClaimEvent k ''create'' ins claim None w1)
                  | (Inl createErr, w1) \<Rightarrow>
                      (errs @ [''failed to create PVC '' @ name @ '': '' @ k_errorText k createErr],
                       if IsAlreadyExists createErr then w1
                       else recordClaimEvent k ''create'' ins claim (Some createErr) w1))
               else (errs @ [''failed to retrieve PVC '' @ name @ '': '' @ k_errorText k err],
                     recordClaimEvent k ''create'' ins claim (Some err) w))"

definition createPersistentVolumeClaims :: "'w kube \<Rightarrow> Instance \<Rightarrow> 'w \<Rightarrow> (error option \<times> 'w) go" where
  "createPersistentVolumeClaims k ins w =
     go_bind (getPersistentVolumeClaims ins) (\<lambda>claims.
       let (errs, w1) = fold (\<lambda>(_, claim). ensure_claim k ins claim) claims ([], w)
       in Inr (NewAggregate k errs, w1))"

definition api_Create :: "'w kube \<Rightarrow> Instance \<Rightarrow> 'w \<Rightarrow> (error option \<times> 'w) go" where
  "api_Create k ins w =
     go_bind (createPersistentVolumeClaims k ins w) (\<lambda>(err, w1).
       case err of
         Some e \<Rightarrow> Inr (Some e, w1)
       | None \<Rightarrow>
           (let (r, w2) = k_podCreate k (tapp_Namespace (ins_parent ins)) (ins_pod ins) w1;
                err = (case r of Inl e \<Rightarrow> Some e | Inr _ \<Rightarrow> None)
            in Inr (err, api_event k (ins_parent ins) ''Create'' (''Instance: '' @ pod_Name (ins_pod ins)) err w2)))"

text \<open>The retry loop of \<^verbatim>\<open>Update\<close>, from iteration \<open>i\<close> with the pod \<open>cp\<close> read last. The wanted pod is
  passed on because merging changes its annotations.\<close>

function updateLoop ::
  "'w kube \<Rightarrow> string \<Rightarrow> string \<Rightarrow> nat \<Rightarrow> Pod \<Rightarrow> Pod \<Rightarrow> 'w \<Rightarrow> (error option \<times> 'w) go" where
  "updateLoop k ns name i cp wanted w =
     go_bind (mergePod cp wanted) (\<lambda>(cpCopy, wanted').
       case k_podUpdate k ns cpCopy w of
         (Inr _, w1) \<Rightarrow> Inr (None, w1)
       | (Inl err, w1) \<Rightarrow>
           (case k_podGet k ns name w1 of
              Inl e \<Rightarrow> Inr (Some err, w1)
            | Inr cp' \<Rightarrow>
                if i < updateRetries then updateLoop k ns name (Suc i) cp' wanted' w1 else Inr (Some err, w1)))"
  by pat_completeness auto
termination
  by (relation "measure (\<lambda>(_, _, _, i, _, _, _). Suc updateRetries - i)") auto

declare updateLoop.simps [simp del]

definition api_Update :: "'w kube \<Rightarrow> Instance \<Rightarrow> Instance \<Rightarrow> 'w \<Rightarrow> (error option \<times> 'w) go" where
  "api_Update k current expected w =
     go_bind (updateLoop k (tapp_Namespace (ins_parent expected)) (pod_Name (ins_pod current)) 0
         (ins_pod current) (ins_pod expected) w) (\<lambda>(err, w1).
       Inr (err, api_event k (ins_parent current) ''Update'' (''Instance: '' @ pod_Name (ins_pod current)) err w1))"

definition apiServerClient :: "'w kube \<Rightarrow> 'w InstanceClient" where
  "apiServerClient k = \<lparr>ic_isDying = (\<lambda>pod. defaultInstanceHealthChecker_isDying (Some pod)),
     ic_Delete = api_Delete k, ic_Get = api_Get k, ic_Create = api_Create k, ic_Update = api_Update k\<rparr>"

lemmas api_defs [model_defs] =
  NewAggregate_def api_event_def upper_char_def lower_char_def Title_def ToLower_def recordClaimEvent_def
  api_Get_def api_Delete_def ensure_claim_def createPersistentVolumeClaims_def api_Create_def api_Update_def
  apiServerClient_def

subsection \<open>A recording API server\<close>

text \<open>Any API server, with a log of the pods and claims sent to it. It answers as the given one does.\<close>

datatype request = PodCreated Pod | PodUpdated Pod | PodDeleted string string "DeleteOptions option"
  | ClaimCreated PersistentVolumeClaim

definition logged :: "'w kube \<Rightarrow> (request list \<times> 'w) kube" where
  "logged k = \<lparr>
     k_podGet = (\<lambda>ns name (_, w). k_podGet k ns name w),
     k_podCreate = (\<lambda>ns p (l, w). case k_podCreate k ns p w of (r, w') \<Rightarrow> (r, l @ [PodCreated p], w')),
     k_podUpdate = (\<lambda>ns p (l, w). case k_podUpdate k ns p w of (r, w') \<Rightarrow> (r, l @ [PodUpdated p], w')),
     k_podDelete = (\<lambda>ns n opts (l, w). case k_podDelete k ns n opts w of (r, w') \<Rightarrow> (r, l @ [PodDeleted ns n opts], w')),
     k_pvcGet = (\<lambda>ns name (_, w). k_pvcGet k ns name w),
     k_pvcCreate = (\<lambda>ns c (l, w). case k_pvcCreate k ns c w of (r, w') \<Rightarrow> (r, l @ [ClaimCreated c], w')),
     k_event = (\<lambda>t ty r m (l, w). (l, k_event k t ty r m w)),
     k_errorText = k_errorText k, k_aggregateText = k_aggregateText k\<rparr>"

lemma api_event_log [simp]: "fst (api_event (logged k) obj reason msg err (l, w)) = l"
  by (simp add: api_event_def logged_def split: option.split)

lemma recordClaimEvent_log [simp]: "fst (recordClaimEvent (logged k) verb ins claim err (l, w)) = l"
  by (simp add: recordClaimEvent_def logged_def split: option.split)

subsection \<open>In-place updates\<close>

text \<open>A pod that carries the images and labels of the wanted one.\<close>

definition carries :: "Pod \<Rightarrow> Pod \<Rightarrow> bool" where
  "carries wanted p \<longleftrightarrow>
     (\<forall>j. j < length (ps_Containers (pod_Spec p)) \<and> j < length (ps_Containers (pod_Spec wanted)) \<longrightarrow>
        c_Image (ps_Containers (pod_Spec p) ! j) = c_Image (ps_Containers (pod_Spec wanted) ! j)) \<and>
     (\<forall>k v. gm_lookup (pod_Labels wanted) k = Some v \<longrightarrow> gm_lookup (pod_Labels p) k = Some v)"

lemma mergePod_carries:
  assumes "mergePod cp wanted = Inr (p, wanted')" "gm_wf (pod_Labels wanted)"
  shows "carries wanted p" "pod_Spec wanted' = pod_Spec wanted" "pod_Labels wanted' = pod_Labels wanted"
proof -
  note m = mergePod_Inr [OF assms]
  show "carries wanted p"
    using m(1,3) by (auto simp: carries_def nth_merge_containers map_add_def)
  show "pod_Spec wanted' = pod_Spec wanted" "pod_Labels wanted' = pod_Labels wanted"
    using assms(1) by (auto simp: mergePod_def go_bind_Inr_iff Let_def)
qed

lemma updateLoop_log:
  assumes "updateLoop (logged k) ns name i cp wanted (l, w) = Inr (e, l', w')"
    and "gm_wf (pod_Labels wanted)" "i \<le> updateRetries"
  shows "\<exists>us. l' = l @ map PodUpdated us \<and> us \<noteq> [] \<and> length us \<le> Suc updateRetries - i \<and>
    (\<forall>p \<in> set us. carries wanted p)"
  using assms
proof (induction "updateRetries - i" arbitrary: i cp wanted l w)
  case 0
  obtain p wanted' where m: "mergePod cp wanted = Inr (p, wanted')"
    using "0.prems"(1) by (subst (asm) updateLoop.simps) (auto simp: go_bind_Inr_iff)
  have "l' = l @ map PodUpdated [p]"
    using "0.prems"(1) "0.hyps" m
    by (subst (asm) updateLoop.simps) (auto simp: logged_def split: prod.splits sum.splits)
  then show ?case using mergePod_carries(1) [OF m "0.prems"(2)] "0.prems"(3)
    by (intro exI [of _ "[p]"]) auto
next
  case (Suc n)
  obtain p wanted' where m: "mergePod cp wanted = Inr (p, wanted')"
    using Suc.prems(1) by (subst (asm) updateLoop.simps) (auto simp: go_bind_Inr_iff)
  note c = mergePod_carries [OF m Suc.prems(2)]
  consider "l' = l @ [PodUpdated p]"
    | cp' w1 where "updateLoop (logged k) ns name (Suc i) cp' wanted' (l @ [PodUpdated p], w1) = Inr (e, l', w')"
    using Suc.prems(1) m
    by (subst (asm) updateLoop.simps) (auto simp: logged_def split: prod.splits sum.splits if_splits)
  then show ?case
  proof cases
    case 1
    then show ?thesis using c(1) Suc.prems(3) by (intro exI [of _ "[p]"]) auto
  next
    case 2
    have "\<exists>us. l' = (l @ [PodUpdated p]) @ map PodUpdated us \<and> us \<noteq> [] \<and> length us \<le> Suc updateRetries - Suc i \<and>
        (\<forall>p \<in> set us. carries wanted' p)"
      using Suc.hyps(2) Suc.prems(2) c by (intro Suc.hyps(1) [OF _ 2]) auto
    then obtain us where us: "l' = (l @ [PodUpdated p]) @ map PodUpdated us" "length us \<le> Suc updateRetries - Suc i"
      "\<forall>p \<in> set us. carries wanted' p" by blast
    moreover have "carries wanted' q = carries wanted q" for q by (simp add: carries_def c(2,3))
    ultimately show ?thesis
      using c(1) Suc.hyps(2) by (intro exI [of _ "p # us"]) auto
  qed
qed

lemma mergePod_annotations:
  assumes "mergePod cp wanted = Inr (p, wanted')" "pod_Annotations wanted \<noteq> None"
  shows "pod_Annotations wanted' \<noteq> None"
  using assms by (auto simp: mergePod_def go_bind_Inr_iff Let_def split: option.splits)

lemma updateLoop_ok:
  assumes labelled: "\<And>ns name w p. k_podGet k ns name w = Inr p \<Longrightarrow> pod_Labels p \<noteq> None"
    and "pod_Labels cp \<noteq> None" "pod_Annotations wanted \<noteq> None"
  shows "go_ok (updateLoop k ns name i cp wanted w)"
  using assms(2,3)
proof (induction "updateRetries - i" arbitrary: i cp wanted w)
  case 0
  obtain p wanted' where m: "mergePod cp wanted = Inr (p, wanted')"
    using mergePod_ok [OF "0.prems"] by (auto simp: go_ok_iff)
  show ?case using "0.hyps" by (subst updateLoop.simps) (simp add: m split: prod.split sum.split)
next
  case (Suc n)
  obtain p wanted' where m: "mergePod cp wanted = Inr (p, wanted')"
    using mergePod_ok [OF Suc.prems] by (auto simp: go_ok_iff)
  have "go_ok (updateLoop k ns name (Suc i) cp' wanted' w1)" if "k_podGet k ns name w1 = Inr cp'" for cp' w1
    using Suc.hyps labelled [OF that] mergePod_annotations [OF m Suc.prems(2)] by (intro Suc.hyps(1)) auto
  then show ?case by (subst updateLoop.simps) (simp add: m split: prod.split sum.split)
qed

lemma api_Update_ok:
  assumes "\<And>ns name w p. k_podGet k ns name w = Inr p \<Longrightarrow> pod_Labels p \<noteq> None"
    and "pod_Labels (ins_pod current) \<noteq> None" "pod_Annotations (ins_pod expected) \<noteq> None"
  shows "go_ok (api_Update k current expected w)"
proof -
  obtain r where "updateLoop k (tapp_Namespace (ins_parent expected)) (pod_Name (ins_pod current)) 0
      (ins_pod current) (ins_pod expected) w = Inr r"
    using updateLoop_ok [of k "ins_pod current" "ins_pod expected"] assms unfolding go_ok_iff by blast
  then show ?thesis by (cases r) (simp add: api_Update_def)
qed

text \<open>An API server that knows one pod and refuses every update, for the witnesses.\<close>

definition sampleKube :: "unit kube" where
  "sampleKube = \<lparr>k_podGet = (\<lambda>_ _ _. Inr (samplePod ''0'')), k_podCreate = (\<lambda>_ p w. (Inr p, w)),
     k_podUpdate = (\<lambda>_ p w. (Inl Conflict, w)), k_podDelete = (\<lambda>_ _ _ w. (None, w)),
     k_pvcGet = (\<lambda>_ _ _. Inl NotFound), k_pvcCreate = (\<lambda>_ c w. (Inr c, w)), k_event = (\<lambda>_ _ _ _ w. w),
     k_errorText = (\<lambda>_. ''''), k_aggregateText = concat\<rparr>"

definition sampleWebInstance :: Instance where
  "sampleWebInstance = \<lparr>ins_pod = samplePod ''0'', ins_id = ''0'', ins_parent = sampleTApp 1\<rparr>"

text \<open>C31. An in-place update ends after at most four requests, whatever the API server and the lister
  answer; it sends at least one, and every pod it sends carries the images of the wanted pod, container
  by container, and all its labels, so a retry never sends a stale version.\<close>

theorem api_Update_requests:
  assumes "api_Update (logged k) current expected (l, w) = Inr (e, l', w')"
    and "gm_wf (pod_Labels (ins_pod expected))"
  shows "\<exists>us. l' = l @ map PodUpdated us \<and> us \<noteq> [] \<and> length us \<le> 4 \<and>
    list_all (carries (ins_pod expected)) us"
proof -
  obtain l1 w1 where "updateLoop (logged k) (tapp_Namespace (ins_parent expected)) (pod_Name (ins_pod current)) 0
      (ins_pod current) (ins_pod expected) (l, w) = Inr (e, l1, w1)"
    and event: "(l', w') = api_event (logged k) (ins_parent current) ''Update'' (''Instance: '' @ pod_Name (ins_pod current)) e (l1, w1)"
    using assms(1) by (auto simp: api_Update_def go_bind_Inr_iff)
  from updateLoop_log [OF this(1) assms(2)]
  have "\<exists>us. l1 = l @ map PodUpdated us \<and> us \<noteq> [] \<and> length us \<le> 4 \<and> (\<forall>p \<in> set us. carries (ins_pod expected) p)"
    by (simp add: updateRetries_def)
  moreover have "l' = l1" using api_event_log [of k "ins_parent current"] event by (metis fst_conv)
  ultimately show ?thesis by (simp add: list_all_iff)
qed

theorem api_Update_requests_witness:
  "\<exists>e l' w' us. api_Update (logged sampleKube) sampleWebInstance (setInPlaceUpdateAnnotation sampleWebInstance) ([], ()) =
      Inr (e, l', w') \<and> l' = map PodUpdated us \<and> us \<noteq> [] \<and> length us \<le> 4"
proof -
  let ?exp = "setInPlaceUpdateAnnotation sampleWebInstance"
  have live: "pod_Labels p \<noteq> None" if "k_podGet (logged sampleKube) ns name w = Inr p" for ns name w p
    using that by (auto simp: logged_def sampleKube_def sample_defs split: prod.splits)
  have "go_ok (api_Update (logged sampleKube) sampleWebInstance ?exp ([], ()))"
    by (rule api_Update_ok [OF live]) (simp_all add: sampleWebInstance_def setInPlaceUpdateAnnotation_def sample_defs)
  then obtain e l' w' where r: "api_Update (logged sampleKube) sampleWebInstance ?exp ([], ()) = Inr (e, l', w')"
    unfolding go_ok_iff by (metis surj_pair)
  have "gm_wf (pod_Labels (ins_pod ?exp))"
    by (simp add: sampleWebInstance_def setInPlaceUpdateAnnotation_def sample_defs gm_wf_def)
  from api_Update_requests [OF r this] r show ?thesis by auto
qed

text \<open>An in-place update of an instance never panics: the live pods are labelled (they are selected
  by their labels), and the wanted pod has annotations, because the in-place annotation is set on it before.\<close>

theorem api_Update_no_panic:
  assumes "pod_Labels (ins_pod current) \<noteq> None"
    and "\<And>ns name w p. k_podGet k ns name w = Inr p \<Longrightarrow> pod_Labels p \<noteq> None"
  shows "go_ok (api_Update k current (setInPlaceUpdateAnnotation ins) w)"
  by (rule api_Update_ok) (use assms in \<open>auto simp: setInPlaceUpdateAnnotation_def\<close>)

theorem api_Update_no_panic_witness:
  "go_ok (api_Update sampleKube sampleWebInstance (setInPlaceUpdateAnnotation sampleWebInstance) ())"
  by (rule api_Update_no_panic) (auto simp: sampleWebInstance_def sampleKube_def sample_defs)

subsection \<open>Claims before pods\<close>

definition claim_known :: "'w kube \<Rightarrow> PersistentVolumeClaim \<Rightarrow> bool" where
  "claim_known k c \<longleftrightarrow> (\<exists>w x. k_pvcGet k (om_Namespace (pvc_Meta c)) (om_Name (pvc_Meta c)) w = Inr x)"

lemma ensure_claim_log:
  assumes "ensure_claim (logged k) ins c (errs, l, w) = (errs', l', w')"
  shows "\<exists>cs es. l' = l @ map ClaimCreated cs \<and> set cs \<subseteq> {c} \<and> errs' = errs @ es \<and>
    (es = [] \<longrightarrow> c \<in> set cs \<or> claim_known k c)"
proof -
  let ?ns = "om_Namespace (pvc_Meta c)" and ?name = "om_Name (pvc_Meta c)"
  have get: "k_pvcGet (logged k) ?ns ?name (l, w) = k_pvcGet k ?ns ?name w" by (simp add: logged_def)
  obtain r w1 where create: "k_pvcCreate k ?ns c w = (r, w1)" by fastforce
  then have create': "k_pvcCreate (logged k) ?ns c (l, w) = (r, l @ [ClaimCreated c], w1)" by (simp add: logged_def)
  have log: "l'' = l1" if "recordClaimEvent (logged k) verb ins c err (l1, w1) = (l'', w'')" for verb err l1 w1 l'' w''
    using recordClaimEvent_log [of k verb ins c err l1 w1] that by simp
  show ?thesis
  proof (cases "k_pvcGet k ?ns ?name w")
    case (Inr x)
    with assms get show ?thesis
      by (intro exI [of _ "[]"]) (auto simp: ensure_claim_def claim_known_def)
  next
    case err: (Inl err)
    show ?thesis
    proof (cases "IsNotFound err")
      case True
      with assms get err create' log show ?thesis
        by (intro exI [of _ "[c]"]) (auto simp: ensure_claim_def Let_def split: sum.splits if_splits)
    next
      case False
      with assms get err log show ?thesis
        by (intro exI [of "\<lambda>cs. \<exists>es. _ cs es" "[]"]) (auto simp: ensure_claim_def Let_def)
    qed
  qed
qed

lemma ensure_claims_log:
  assumes "fold (\<lambda>(_, c). ensure_claim (logged k) ins c) claims (errs, l, w) = (errs', l', w')"
  shows "\<exists>cs es. l' = l @ map ClaimCreated cs \<and> set cs \<subseteq> snd ` set claims \<and> errs' = errs @ es \<and>
    (es = [] \<longrightarrow> (\<forall>c \<in> snd ` set claims. c \<in> set cs \<or> claim_known k c))"
  using assms
proof (induction claims arbitrary: errs l w)
  case (Cons nc claims)
  obtain n c where nc: "nc = (n, c)" by fastforce
  obtain errs1 l1 w1 where e: "ensure_claim (logged k) ins c (errs, l, w) = (errs1, l1, w1)" by (metis prod_cases3)
  obtain cs1 es1 where 1: "l1 = l @ map ClaimCreated cs1" "set cs1 \<subseteq> {c}" "errs1 = errs @ es1"
    "es1 = [] \<longrightarrow> c \<in> set cs1 \<or> claim_known k c"
    using ensure_claim_log [OF e] by blast
  obtain cs2 es2 where 2: "l' = l1 @ map ClaimCreated cs2" "set cs2 \<subseteq> snd ` set claims" "errs' = errs1 @ es2"
    "es2 = [] \<longrightarrow> (\<forall>c \<in> snd ` set claims. c \<in> set cs2 \<or> claim_known k c)"
    using Cons.IH [of errs1 l1 w1] Cons.prems e nc by auto
  show ?case
    by (rule exI [of _ "cs1 @ cs2"], rule exI [of _ "es1 @ es2"]) (use 1 2 nc in auto)
qed simp



end
