(* ===== verification/Wellformed.thy ===== *)
theory Wellformed
  imports Preprocess
begin

text \<open>
  The type invariant of a TApp: every map in it has distinct keys, as Go maps do. The association lists
  of the model keep it under every operation of the controller that changes a TApp.
\<close>

definition all_maps_wf :: "TApp \<Rightarrow> bool" where
  "all_maps_wf t \<longleftrightarrow> spec_wf (tapp_Spec t) \<and> meta_wf (tapp_Meta t) \<and> gm_wf (st_Statuses (tapp_Status t))"

lemma setDefaultValue_maps_wf: "all_maps_wf t \<Longrightarrow> all_maps_wf (setDefaultValue t)"
  by (simp add: all_maps_wf_def setDefaultValue_def Let_def spec_wf_def)

lemma removeUnusedTemplate_maps_wf: "all_maps_wf t \<Longrightarrow> all_maps_wf (removeUnusedTemplate t)"
  using removeUnusedTemplate_wf [of t] by (simp add: all_maps_wf_def removeUnusedTemplate_unusedKeys)

lemma gm_wf_fold_delete: "gm_wf m \<Longrightarrow> gm_wf (fold gm_delete ks m)"
  by (induction ks arbitrary: m) auto

lemma setLabelSelector_maps_wf: "all_maps_wf t \<Longrightarrow> setLabelSelector t = Inr t' \<Longrightarrow> all_maps_wf t'"
  using setLabelSelector_Inr(2,5) [of t t'] gm_wf_fold_delete [OF gm_wf_clone]
  by (auto simp: all_maps_wf_def setLabelSelector_def Let_def meta_wf_def split: if_splits)

lemma setScaleLabelSelector_maps_wf: "all_maps_wf t \<Longrightarrow> setScaleLabelSelector selectorOf t = Inr t' \<Longrightarrow> all_maps_wf t'"
  by (auto simp: all_maps_wf_def setScaleLabelSelector_def Let_def split: sum.splits if_splits)

lemma meta_wf_updateHash: "meta_wf (pt_Meta t) \<Longrightarrow> meta_wf (pt_Meta (updateHash spew t))"
  by (auto simp: meta_wf_def updateHash_def SetTemplateHash_def SetUniqHash_def set_template_label_def Let_def)

lemma gm_wf_map_values: "gm_wf (map_option (map (\<lambda>(k, v). (k, f v))) m) = gm_wf m"
  by (cases m) (simp_all add: gm_wf_def comp_def case_prod_beta)

lemma updateTemplateHash_maps_wf:
  assumes "all_maps_wf t"
  shows "all_maps_wf (updateTemplateHash spew t)"
proof -
  let ?hashed = "\<lambda>(k, t). (k, if pt_Labels t = None then t else updateHash spew t)"
  let ?pool = "spec_TemplatePool (tapp_Spec t)"
  have "gm_wf (map_option (map ?hashed) ?pool)"
    using assms by (subst gm_wf_map_values) (simp add: all_maps_wf_def spec_wf_def)
  moreover have "\<forall>(_, u) \<in> set (gm_entries (map_option (map ?hashed) ?pool)). meta_wf (pt_Meta u)"
    using assms meta_wf_updateHash by (cases ?pool) (fastforce simp: all_maps_wf_def spec_wf_def)+
  ultimately show ?thesis
    using assms meta_wf_updateHash by (simp add: all_maps_wf_def spec_wf_def updateTemplateHash_def Let_def)
qed

lemma refreshStatus_maps_wf: "all_maps_wf t \<Longrightarrow> all_maps_wf (refreshStatus pods t)"
  by (simp add: all_maps_wf_def refreshStatus_def Let_def gm_wf_def distinct_getInstanceStatus)

text \<open>The requests of the client return well-formed objects for well-formed ones.\<close>

definition keeps_maps_wf :: "'w tapp_request \<Rightarrow> bool" where
  "keeps_maps_wf request \<longleftrightarrow> (\<forall>t w t' w'. all_maps_wf t \<and> request t w = (Inr t', w') \<longrightarrow> all_maps_wf t')"

lemma preprocess_maps_wf:
  assumes "all_maps_wf t" "keeps_maps_wf updateTApp" "keeps_maps_wf updateStatus"
    and "preprocessTApp selectorOf updateTApp updateStatus t w = (Inr t', w')"
  shows "all_maps_wf t'"
proof -
  have update: "all_maps_wf r" if "(if b then updateTApp x v else (Inr x, v)) = (Inr r, v')" "all_maps_wf x" for b x v r v'
    using that assms(2) by (cases b) (auto simp: keeps_maps_wf_def)
  obtain r0 w0 where r0: "(if om_Generation (tapp_Meta t) \<noteq> st_ObservedGeneration (tapp_Status t) then updateTApp t w else (Inr t, w)) = (r0, w0)"
    by fastforce
  obtain n0 where n0: "r0 = Inr n0" using assms(4) r0 by (cases r0) (auto simp: preprocessTApp_def)
  obtain n2 where n2: "setLabelSelector (removeUnusedTemplate (setDefaultValue n0)) = Inr n2"
    using assms(4) unfolding preprocessTApp_def Let_def r0 prod.case n0 sum.case
    by (cases "setLabelSelector (removeUnusedTemplate (setDefaultValue n0))") simp_all
  obtain n3 where n3: "setScaleLabelSelector selectorOf n2 = Inr n3"
    using assms(4) unfolding preprocessTApp_def Let_def r0 prod.case n0 sum.case n2
    by (cases "setScaleLabelSelector selectorOf n2") simp_all
  obtain r1 w1 where r1: "(if \<not> spec_DeepEqual (tapp_Spec n3) (tapp_Spec t) then updateTApp n3 w0 else (Inr n3, w0)) = (r1, w1)"
    by fastforce
  obtain n4 where n4: "r1 = Inr n4" "(if \<not> status_DeepEqual (tapp_Status n4) (tapp_Status t) then updateStatus n4 w1 else (Inr n4, w1)) = (Inr t', w')"
    using assms(4) unfolding preprocessTApp_def Let_def r0 prod.case n0 sum.case n2 n3 r1 by (cases r1) simp_all
  have "all_maps_wf n3"
    by (rule setScaleLabelSelector_maps_wf [OF setLabelSelector_maps_wf [OF removeUnusedTemplate_maps_wf
        [OF setDefaultValue_maps_wf [OF update [OF r0 [unfolded n0] assms(1)]]] n2] n3])
  then have "all_maps_wf n4" using update [OF r1 [unfolded n4(1)]] by blast
  then show ?thesis using n4(2) assms(3) by (auto simp: keeps_maps_wf_def split: if_splits)
qed



end
