(* ===== verification/Next_Action_Spec.thy ===== *)
theory Next_Action_Spec
  imports Convergence
begin

text \<open>
  What the controller decides for one instance, stated without its passes, maps and merges, and proved equal
  to what the code computes; what a change of a template leads to; and what tells the instances of a
  TApp apart.
\<close>

subsection \<open>The decision for one instance\<close>

text \<open>An instance is finished when the user killed it, or when its recorded end counts.\<close>

definition finished_instance :: "bool \<Rightarrow> TApp \<Rightarrow> string \<Rightarrow> bool" where
  "finished_instance d tapp iid \<longleftrightarrow>
     gm_lookup (spec_Statuses (tapp_Spec tapp)) iid = Some InstanceKilled \<or>
     ((\<not> d \<or> isTAppFinished tapp) \<and> gm_lookup (st_Statuses (tapp_Status tapp)) iid \<in> {Some InstanceFailed, Some InstanceSucc})"

definition surplus_instance :: "TApp \<Rightarrow> string \<Rightarrow> bool" where
  "surplus_instance tapp iid \<longleftrightarrow> (case Atoi iid of (n, None) \<Rightarrow> replicas tapp \<le> n | (_, Some _) \<Rightarrow> False)"

text \<open>Of several pods with one index the one listed last counts.\<close>

definition current_pod :: "Pod list \<Rightarrow> string \<Rightarrow> Pod option" where
  "current_pod pods iid = List.find (\<lambda>pod. getPodIndex pod = Inr iid) (rev pods)"

definition decision :: "bool \<Rightarrow> TApp \<Rightarrow> Pod list \<Rightarrow> string \<Rightarrow> PodAction option" where
  "decision d tapp pods iid =
     (case current_pod pods iid of
        None \<Rightarrow> if iid \<in> set (replica_ids tapp) \<and> \<not> finished_instance d tapp iid then Some createPod else None
      | Some pod \<Rightarrow>
          if finished_instance d tapp iid \<or> surplus_instance tapp iid then Some deletePod
          else if iid \<notin> set (replica_ids tapp) then None
          else if isPodDying (Some pod) then Some deletePod
          else if isPodCompleted pod then (if shouldPodMigrate tapp pod iid = (True, None) then Some deletePod else None)
          else if \<not> isTemplateHashChanged tapp iid pod then None
          else Some (if isUniqHashChanged tapp iid pod then recreatePod else updatePod))"

lemma map_of_makePodMap: "map_of (makePodMap pods) iid = current_pod pods iid"
proof (induction pods rule: rev_induct)
  case (snoc pod pods)
  then show ?case
    by (cases "getPodIndex pod") (auto simp: makePodMap_def current_pod_def update_conv')
qed (simp add: makePodMap_def current_pod_def)

lemma desired_sets_finished:
  assumes "tapp_wf tapp" "getDesiredInstance d tapp = (running, completed)"
  shows "iid \<in> completed \<longleftrightarrow> finished_instance d tapp iid"
    and "iid \<in> running \<longleftrightarrow> iid \<in> set (replica_ids tapp) \<and> \<not> finished_instance d tapp iid"
proof -
  show c: "iid \<in> completed \<longleftrightarrow> finished_instance d tapp iid" for iid
    using assms unfolding getDesiredInstance_sets
    by (auto simp: finished_instance_def tapp_wf_def gm_lookup_Some_iff)
  show "iid \<in> running \<longleftrightarrow> iid \<in> set (replica_ids tapp) \<and> \<not> finished_instance d tapp iid"
    using assms(2) c by (auto simp: getDesiredInstance_sets)
qed

lemma unwanted_surplus: "unwantedPodAction tapp iid = Some deletePod \<longleftrightarrow> surplus_instance tapp iid"
  by (auto simp: unwantedPodAction_def surplus_instance_def split: prod.splits option.splits)

text \<open>C8. The three passes of \<^verbatim>\<open>getNextActionsForPods\<close> over the desired sets and the pod map, merged in their order, compute
  for every instance exactly the decision above: create what is wanted and missing, delete what is finished,
  surplus, dying or due to move, update in place or recreate what follows an outdated template, and
  leave the rest alone; no instance is listed twice.\<close>

theorem getNextActionsForPods_decision:
  assumes "tapp_wf tapp" "getDesiredInstance d tapp = (running, completed)"
  shows "map_of (getNextActionsForPods tapp running completed (makePodMap pods)) iid = decision d tapp pods iid \<and>
    distinct (map fst (getNextActionsForPods tapp running completed (makePodMap pods)))"
proof -
  have "map_of (getNextActionsForPods tapp running completed (makePodMap pods)) iid =
      next_action tapp running completed (makePodMap pods) iid"
    by (rule getNextActionsForPods_lookup [OF getDesiredInstance_finite [OF assms(2)]])
  also have "\<dots> = decision d tapp pods iid"
    by (auto simp: next_action_def decision_def map_of_makePodMap desired_sets_finished [OF assms] unwanted_surplus
        runningPodAction_def split: option.split prod.splits)
  finally show ?thesis by (simp add: getNextActionsForPods_distinct)
qed

lemma sample_index [simp]: "getPodIndex (samplePod i) = Inr i"
  by (simp add: getPodIndex_def sample_defs)

lemma sample_not_finished: "\<not> finished_instance True (sampleTApp n) i"
  by (simp add: finished_instance_def sample_defs isTAppFinished_def)

theorem getNextActionsForPods_decision_witness:
  "case getDesiredInstance True (sampleTApp 2) of (running, completed) \<Rightarrow>
     (let actions = getNextActionsForPods (sampleTApp 2) running completed (makePodMap [samplePod ''0'', samplePod ''5''])
      in map_of actions ''1'' = Some createPod \<and> map_of actions ''0'' = None \<and> map_of actions ''5'' = Some deletePod)"
proof -
  obtain running completed where d: "getDesiredInstance True (sampleTApp 2) = (running, completed)" by fastforce
  have wf: "tapp_wf (sampleTApp 2)" by (simp add: tapp_wf_def sample_defs gm_wf_def)
  have "digit_char 5 = CHR ''5''" by code_simp
  then have "Itoa 0 = ''0''" "Itoa 5 = ''5''" by (simp_all add: Itoa_def nat_string.simps digit_char_examples)
  then have numbers: "Atoi ''0'' = (0, None)" "Atoi ''5'' = (5, None)"
    using Atoi_Itoa [of 0] Atoi_Itoa [of 5] by simp_all
  have two: "replicas (sampleTApp 2) = 2" by (simp add: sample_defs)
  let ?decide = "decision True (sampleTApp 2) [samplePod ''0'', samplePod ''5'']"
  have "?decide ''1'' = Some createPod"
    by (simp add: decision_def current_pod_def sample_replica_ids sample_not_finished)
  moreover have "?decide ''5'' = Some deletePod"
    by (simp add: decision_def current_pod_def surplus_instance_def numbers two)
  moreover have "?decide ''0'' = None"
    by (simp add: decision_def current_pod_def sample_replica_ids sample_not_finished surplus_instance_def numbers two)
      (simp add: sample_defs isPodDying_def isPodCompleted_def isTemplateHashChanged_def getPodTemplate_def getPodTemplateName_def
        GetTemplateHash_def gm_get_def TemplateHashKey_def TAppInstanceKey_def)
  ultimately show ?thesis
    using getNextActionsForPods_decision [OF wf d, of "[samplePod ''0'', samplePod ''5'']"] d by simp
qed

subsection \<open>What a new template leads to\<close>

text \<open>The hash labels of a template the user wrote are not those of its present content.\<close>

definition outdated_labels :: "spew \<Rightarrow> PodTemplateSpec \<Rightarrow> bool" where
  "outdated_labels spew t \<longleftrightarrow> pt_Labels t \<noteq> None \<and> gm_wf (pt_Labels t) \<and> GetTemplateHash (pt_Labels t) \<noteq> generateTemplateHash spew t"

lemma getPodTemplate_updateTemplateHash:
  assumes "getPodTemplate (tapp_Spec tapp) iid = Inr t" "pt_Labels t \<noteq> None"
  shows "getPodTemplate (tapp_Spec (updateTemplateHash spew tapp)) iid = Inr (updateHash spew t)"
proof -
  let ?hashed = "\<lambda>(k, t). (k, if pt_Labels t = None then t else updateHash spew t)"
  have "map_of (map ?hashed l) n = Some (updateHash spew t)" if "map_of l n = Some t" for l n
    using that assms(2) by (induction l) (auto split: if_splits)
  then have "gm_lookup (map_option (map ?hashed) m) n = Some (updateHash spew t)" if "gm_lookup m n = Some t" for m n
    using that by (cases m) simp_all
  then show ?thesis
    using assms(1) by (simp add: getPodTemplate_def updateTemplateHash_def Let_def split: if_splits option.splits)
qed

lemma updated_hashes:
  assumes "outdated_labels spew t"
  shows "GetTemplateHash (pt_Labels (updateHash spew t)) = generateTemplateHash spew t"
    "GetUniqHash (pt_Labels (updateHash spew t)) = generateUniqHash spew t"
    "gm_wf (pt_Labels (updateHash spew t))"
  using assms default_hash.update_template_hash [of spew t] default_hash.update_uniq_hash [of t spew] gm_wf_updateHash [of t spew]
  by (simp_all add: outdated_labels_def)

lemma made_pod_hashes:
  assumes "pod_of_template tapp template iid pod" "gm_wf (pt_Labels template)"
  shows "GetTemplateHash (pod_Labels pod) = GetTemplateHash (pt_Labels template)"
    "GetUniqHash (pod_Labels pod) = GetUniqHash (pt_Labels template)"
proof -
  have "UniqHashKey \<noteq> TAppInstanceKey" by (simp add: UniqHashKey_def TAppInstanceKey_def)
  with assms show "GetTemplateHash (pod_Labels pod) = GetTemplateHash (pt_Labels template)"
    "GetUniqHash (pod_Labels pod) = GetUniqHash (pt_Labels template)"
    by (simp_all add: GetTemplateHash_def GetUniqHash_def gm_get_def pod_of_template_def hash_key_not_instance_key)
qed

lemma uniq_hash_images: "differ_only_in_images (pt_Spec t) (pt_Spec t') \<Longrightarrow> generateUniqHash spew t' = generateUniqHash spew t"
  by (simp add: generateUniqHash_alt differ_only_in_images_blank)

text \<open>C10. A pod made by \<^verbatim>\<open>newInstance\<close> from one revision of a template, still alive and wanted when the template of its
  instance is another revision: nothing is done when the template hashes agree, otherwise the pod is updated in
  place when the hashes without images agree and recreated when they do not. Templates that
  differ only in container images always have the same second hash, so such a change never deletes a
  pod.\<close>

theorem template_change_decides_action:
  assumes made: "newInstance (updateTemplateHash spew old) iid = Inr (Inr ins)" "storage_ready old"
      "getPodTemplate (tapp_Spec old) iid = Inr t" "outdated_labels spew t"
    and new: "getPodTemplate (tapp_Spec new) iid = Inr t'" "outdated_labels spew t'" "tapp = updateTemplateHash spew new"
    and pod: "current_pod pods iid = Some pod" "pod_Labels pod = pod_Labels (ins_pod ins)" "\<not> isPodDying (Some pod)" "\<not> isPodCompleted pod"
    and wanted: "tapp_wf tapp" "iid \<in> set (replica_ids tapp)" "\<not> finished_instance d tapp iid" "getDesiredInstance d tapp = (running, completed)"
  shows "map_of (getNextActionsForPods tapp running completed (makePodMap pods)) iid =
      (if generateTemplateHash spew t' = generateTemplateHash spew t then None
       else if generateUniqHash spew t' = generateUniqHash spew t then Some updatePod else Some recreatePod) \<and>
    (differ_only_in_images (pt_Spec t) (pt_Spec t') \<longrightarrow> generateUniqHash spew t' = generateUniqHash spew t)"
proof -
  have old: "getPodTemplate (tapp_Spec (updateTemplateHash spew old)) iid = Inr (updateHash spew t)"
    using made(3,4) by (intro getPodTemplate_updateTemplateHash) (auto simp: outdated_labels_def)
  have now: "getPodTemplate (tapp_Spec tapp) iid = Inr (updateHash spew t')"
    using new by (auto intro!: getPodTemplate_updateTemplateHash simp: outdated_labels_def)
  have "pod_of_template (updateTemplateHash spew old) (updateHash spew t) iid (ins_pod ins)"
    using newInstance_ok [OF old] made(1,2) by (metis Inr_inject updateTemplateHash_storage)
  note made_pod_hashes [OF this updated_hashes(3) [OF made(4)]]
  then have hashes: "GetTemplateHash (pod_Labels pod) = generateTemplateHash spew t" "GetUniqHash (pod_Labels pod) = generateUniqHash spew t"
    using pod(2) updated_hashes(1,2) [OF made(4)] by simp_all
  have "\<not> surplus_instance tapp iid"
    using wanted_not_unwanted [OF wanted(2)] unwanted_surplus [of tapp iid] by simp
  then have "decision d tapp pods iid =
      (if generateTemplateHash spew t' = generateTemplateHash spew t then None
       else if generateUniqHash spew t' = generateUniqHash spew t then Some updatePod else Some recreatePod)"
    using pod wanted(2,3) now hashes updated_hashes(1,2) [OF new(2)]
    by (auto simp: decision_def isTemplateHashChanged_def isUniqHashChanged_def Let_def)
  then show ?thesis
    using getNextActionsForPods_decision [OF wanted(1,4), of pods iid] uniq_hash_images [of t t' spew] by simp
qed

text \<open>A printer that shows the images and nothing else, and the sample TApp with another image.\<close>

definition imageSpew :: spew where
  "imageSpew h = (case h of HashTemplate t \<Rightarrow> concat (map c_Image (ps_Containers (pt_Spec t)))
     | HashPodSpec p \<Rightarrow> concat (map c_Image (ps_Containers p)))"

definition newImageTApp :: TApp where
  "newImageTApp = (sampleTApp 2)\<lparr>tapp_Spec := (sampleSpec 2)\<lparr>spec_Template := sampleTemplate ''web:2''\<rparr>\<rparr>"

lemma sample_template_hashes:
  "outdated_labels imageSpew (sampleTemplate img)"
  "generateTemplateHash imageSpew (sampleTemplate ''web:2'') \<noteq> generateTemplateHash imageSpew (sampleTemplate ''web:1'')"
  "differ_only_in_images (pt_Spec (sampleTemplate ''web:1'')) (pt_Spec (sampleTemplate ''web:2''))"
proof -
  have "GetTemplateHash (pt_Labels (sampleTemplate img)) = ''''"
    by (simp add: GetTemplateHash_def gm_get_def sample_defs TemplateHashKey_def)
  then show "outdated_labels imageSpew (sampleTemplate img)"
    by (simp add: outdated_labels_def eq_commute [of "[]"]) (simp add: sample_defs gm_wf_def)
  have "fnv64 ''web:2'' \<noteq> fnv64 ''web:1''" by code_simp
  then show "generateTemplateHash imageSpew (sampleTemplate ''web:2'') \<noteq> generateTemplateHash imageSpew (sampleTemplate ''web:1'')"
    by (simp add: generateTemplateHash_def Let_def fmt_uint64_inject generateHash_def imageSpew_def) (simp add: sample_defs)
  show "differ_only_in_images (pt_Spec (sampleTemplate ''web:1'')) (pt_Spec (sampleTemplate ''web:2''))"
    by (auto simp: differ_only_in_images_def sample_defs)
qed

theorem template_change_decides_action_witness:
  "\<exists>ins running completed. newInstance (updateTemplateHash imageSpew (sampleTApp 2)) ''0'' = Inr (Inr ins) \<and>
     getDesiredInstance True (updateTemplateHash imageSpew newImageTApp) = (running, completed) \<and>
     map_of (getNextActionsForPods (updateTemplateHash imageSpew newImageTApp) running completed
       (makePodMap [ins_pod (launched ins)])) ''0'' = Some updatePod"
proof -
  let ?new = "updateTemplateHash imageSpew newImageTApp"
  have old: "getPodTemplate (tapp_Spec (sampleTApp 2)) ''0'' = Inr (sampleTemplate ''web:1'')"
    and new: "getPodTemplate (tapp_Spec newImageTApp) ''0'' = Inr (sampleTemplate ''web:2'')"
    by (simp_all add: getPodTemplate_def getPodTemplateName_def sampleTApp_def sampleSpec_def newImageTApp_def)
  have ready: "storage_ready (sampleTApp 2)" by (simp add: storage_ready_def sample_defs)
  have t: "getPodTemplate (tapp_Spec (updateTemplateHash imageSpew (sampleTApp 2))) ''0'' = Inr (updateHash imageSpew (sampleTemplate ''web:1''))"
    using old by (rule getPodTemplate_updateTemplateHash) (simp add: sample_defs)
  obtain ins where ins: "newInstance (updateTemplateHash imageSpew (sampleTApp 2)) ''0'' = Inr (Inr ins)"
    "pod_of_template (updateTemplateHash imageSpew (sampleTApp 2)) (updateHash imageSpew (sampleTemplate ''web:1'')) ''0'' (ins_pod ins)"
    using newInstance_ok [OF t] ready by (metis updateTemplateHash_storage)
  obtain running completed where d: "getDesiredInstance True ?new = (running, completed)" by fastforce
  have "replica_ids ?new = replica_ids (sampleTApp 2)" by (simp add: newImageTApp_def sampleTApp_def sampleSpec_def replica_ids_def)
  then have wanted: "''0'' \<in> set (replica_ids ?new)" by (simp add: sample_replica_ids)
  have wf: "tapp_wf ?new" "\<not> finished_instance True ?new ''0''"
    by (simp_all add: tapp_wf_def finished_instance_def updateTemplateHash_def newImageTApp_def Let_def isTAppFinished_def)
      (simp_all add: sample_defs gm_wf_def)
  have pod: "current_pod [ins_pod (launched ins)] ''0'' = Some (ins_pod (launched ins))" "\<not> isPodDying (Some (ins_pod (launched ins)))"
    "\<not> isPodCompleted (ins_pod (launched ins))" "pod_Labels (ins_pod (launched ins)) = pod_Labels (ins_pod ins)"
    using ins(2) by (simp_all add: current_pod_def pod_of_template_def isPodDying_def isPodCompleted_def)
  from template_change_decides_action [OF ins(1) ready old sample_template_hashes(1) new sample_template_hashes(1) refl
      pod(1,4,2,3) wf(1) wanted wf(2) d] sample_template_hashes(2,3) ins(1) d
  show ?thesis by auto
qed

subsection \<open>Identities\<close>

lemma claims_name_split:
  assumes "claims_ok ins templates claims" "c \<in> snd ` set claims"
  obtains n where "om_Name (pvc_Meta c) = n @ ''-'' @ tapp_Name (ins_parent ins) @ ''-'' @ ins_id ins"
  using assms by (auto simp: claims_ok_def)

lemma tail_after_dash:
  assumes "CHR ''-'' \<notin> set i" "CHR ''-'' \<notin> set j" "x @ CHR ''-'' # i = y @ CHR ''-'' # j"
  shows "i = j"
proof -
  have tail: "takeWhile (\<lambda>x. x \<noteq> CHR ''-'') (ys @ CHR ''-'' # zs) = ys" if "CHR ''-'' \<notin> set ys" for ys zs
    using that by (induction ys) auto
  from arg_cong [OF assms(3), of "\<lambda>s. takeWhile (\<lambda>x. x \<noteq> CHR ''-'') (rev s)"] assms(1,2)
  show ?thesis by (simp add: tail)
qed

text \<open>C12. Different instances of a TApp never share an identity: \<^verbatim>\<open>newInstance\<close> succeeds for both, their pods have
  different names, both belong to the TApp, and the volume claims of one are disjoint by name from those of the other, so no
  claim is ever handed from one instance to another.\<close>

theorem instances_have_own_identity:
  assumes "storage_ready tapp" "iid \<in> set (replica_ids tapp)" "jid \<in> set (replica_ids tapp)" "iid \<noteq> jid"
    and "getPodTemplate (tapp_Spec tapp) iid = Inr ti" "getPodTemplate (tapp_Spec tapp) jid = Inr tj"
  shows "\<exists>a b ca cb. newInstance tapp iid = Inr (Inr a) \<and> newInstance tapp jid = Inr (Inr b) \<and>
    pod_Name (ins_pod a) \<noteq> pod_Name (ins_pod b) \<and>
    om_OwnerReferences (pod_Meta (ins_pod a)) = [getControllerRef tapp] \<and> om_OwnerReferences (pod_Meta (ins_pod b)) = [getControllerRef tapp] \<and>
    getPersistentVolumeClaims a = Inr ca \<and> getPersistentVolumeClaims b = Inr cb \<and>
    length ca = card ((\<lambda>t. om_Name (pvc_Meta t)) ` set (spec_VolumeClaimTemplates (tapp_Spec tapp))) \<and>
    (\<lambda>c. om_Name (pvc_Meta c)) ` snd ` set ca \<inter> (\<lambda>c. om_Name (pvc_Meta c)) ` snd ` set cb = {}"
proof -
  obtain a where a: "newInstance tapp iid = Inr (Inr a)" "ins_id a = iid" "ins_parent a = tapp" "pod_of_template tapp ti iid (ins_pod a)"
    using newInstance_ok [OF assms(5,1)] by metis
  obtain b where b: "newInstance tapp jid = Inr (Inr b)" "ins_id b = jid" "ins_parent b = tapp" "pod_of_template tapp tj jid (ins_pod b)"
    using newInstance_ok [OF assms(6,1)] by metis
  obtain ca where ca: "getPersistentVolumeClaims a = Inr ca" "claims_ok a (spec_VolumeClaimTemplates (tapp_Spec tapp)) ca"
    by (rule getPersistentVolumeClaims_ok [of a]) (use assms(1) a(3) in \<open>auto simp: storage_ready_def\<close>)
  obtain cb where cb: "getPersistentVolumeClaims b = Inr cb" "claims_ok b (spec_VolumeClaimTemplates (tapp_Spec tapp)) cb"
    by (rule getPersistentVolumeClaims_ok [of b]) (use assms(1) b(3) in \<open>auto simp: storage_ready_def\<close>)
  have dash: "CHR ''-'' \<notin> set iid" "CHR ''-'' \<notin> set jid" using assms(2,3) by (auto dest: replica_id_no_dash)
  have "om_Name (pvc_Meta c) \<noteq> om_Name (pvc_Meta e)" if c: "c \<in> snd ` set ca" and e: "e \<in> snd ` set cb" for c e
  proof
    obtain n where "om_Name (pvc_Meta c) = n @ ''-'' @ tapp_Name tapp @ ''-'' @ iid"
      by (rule claims_name_split [OF ca(2) c]) (simp add: a)
    moreover obtain m where "om_Name (pvc_Meta e) = m @ ''-'' @ tapp_Name tapp @ ''-'' @ jid"
      by (rule claims_name_split [OF cb(2) e]) (simp add: b)
    moreover assume "om_Name (pvc_Meta c) = om_Name (pvc_Meta e)"
    ultimately have "iid = jid" by (intro tail_after_dash [OF dash, of "n @ ''-'' @ tapp_Name tapp" "m @ ''-'' @ tapp_Name tapp"]) simp
    with assms(4) show False by blast
  qed
  then have "(\<lambda>c. om_Name (pvc_Meta c)) ` snd ` set ca \<inter> (\<lambda>c. om_Name (pvc_Meta c)) ` snd ` set cb = {}" by blast
  moreover have "length ca = card ((\<lambda>t. om_Name (pvc_Meta t)) ` set (spec_VolumeClaimTemplates (tapp_Spec tapp)))"
    using ca(2) distinct_card [of "map fst ca"] by (simp add: claims_ok_def)
  ultimately show ?thesis
    using a b ca(1) cb(1) assms(4) by (fastforce simp: pod_of_template_def)
qed

definition claimTApp :: TApp where
  "claimTApp = (sampleTApp 2)\<lparr>tapp_Spec := (sampleSpec 2)
     \<lparr>spec_Selector := Some \<lparr>ls_MatchLabels = Some [(''app'', ''web'')], ls_MatchExpressions = []\<rparr>,
      spec_VolumeClaimTemplates := [\<lparr>pvc_Meta = zeroObjectMeta\<lparr>om_Name := ''data''\<rparr>, pvc_rest = ''''\<rparr>]\<rparr>\<rparr>"

theorem instances_have_own_identity_witness:
  "\<exists>a b ca cb. newInstance claimTApp ''0'' = Inr (Inr a) \<and> newInstance claimTApp ''1'' = Inr (Inr b) \<and>
     pod_Name (ins_pod a) \<noteq> pod_Name (ins_pod b) \<and>
     getPersistentVolumeClaims a = Inr ca \<and> getPersistentVolumeClaims b = Inr cb \<and> length ca = 1 \<and>
     (\<lambda>c. om_Name (pvc_Meta c)) ` snd ` set ca \<inter> (\<lambda>c. om_Name (pvc_Meta c)) ` snd ` set cb = {}"
proof -
  have ready: "storage_ready claimTApp" by (simp add: storage_ready_def claimTApp_def)
  have template: "getPodTemplate (tapp_Spec claimTApp) i = Inr (sampleTemplate ''web:1'')" for i
    by (simp add: getPodTemplate_def getPodTemplateName_def sampleSpec_def claimTApp_def)
  have "replica_ids claimTApp = replica_ids (sampleTApp 2)" by (simp add: replica_ids_def claimTApp_def sampleTApp_def sampleSpec_def)
  then have ids: "''0'' \<in> set (replica_ids claimTApp)" "''1'' \<in> set (replica_ids claimTApp)" by (simp_all add: sample_replica_ids)
  have "card ((\<lambda>t. om_Name (pvc_Meta t)) ` set (spec_VolumeClaimTemplates (tapp_Spec claimTApp))) = 1" by (simp add: claimTApp_def)
  moreover have "''0'' \<noteq> ''1''" by simp
  from instances_have_own_identity [OF ready ids this template template] obtain a b ca cb where
    "newInstance claimTApp ''0'' = Inr (Inr a)" "newInstance claimTApp ''1'' = Inr (Inr b)"
    "pod_Name (ins_pod a) \<noteq> pod_Name (ins_pod b)" "getPersistentVolumeClaims a = Inr ca" "getPersistentVolumeClaims b = Inr cb"
    "length ca = card ((\<lambda>t. om_Name (pvc_Meta t)) ` set (spec_VolumeClaimTemplates (tapp_Spec claimTApp)))"
    "(\<lambda>c. om_Name (pvc_Meta c)) ` snd ` set ca \<inter> (\<lambda>c. om_Name (pvc_Meta c)) ` snd ` set cb = {}" by blast
  ultimately show ?thesis by (intro exI [of _ a] exI [of _ b] exI [of _ ca] exI [of _ cb]) simp
qed

end
