(* ===== verification/TApp_Edits.thy ===== *)
theory TApp_Edits
  imports Rollout_Theorems
begin

text \<open>
  \<^verbatim>\<open>pkg/testutil/utils.go\<close>: the edits of a TApp a user makes (adding templates, scaling, killing and
  restarting instances), as the tests make them. \<^verbatim>\<open>uint\<close> is a 64-bit word; conversions between
  integer types sign-extend or truncate as in Go. The results are what the edits do to the instances the
  controller wants to run.
\<close>

subsection \<open>Definitions\<close>

definition FakeTAppName :: string where
  "FakeTAppName = ''fake-tapp-name''"

definition with_spec :: "(TAppSpec \<Rightarrow> TAppSpec) \<Rightarrow> TApp \<Rightarrow> TApp" where
  "with_spec f tapp = tapp\<lparr>tapp_Spec := f (tapp_Spec tapp)\<rparr>"

definition AddPodTemplate :: "spew \<Rightarrow> TApp \<Rightarrow> string \<Rightarrow> PodTemplateSpec \<Rightarrow> TApp" where
  "AddPodTemplate spew tapp templateName template0 =
     (let template = fst (SetUniqHash spew (fst (SetTemplateHash spew template0)));
          tapp1 = with_spec (\<lambda>s. s\<lparr>spec_TemplatePool := gm_make_assign templateName template (spec_TemplatePool s)\<rparr>) tapp
      in if GetTemplateHash (pt_Labels (spec_Template (tapp_Spec tapp1))) \<noteq> GetTemplateHash (pt_Labels template)
         then with_spec (\<lambda>s. s\<lparr>spec_Template := template\<rparr>) tapp1 else tapp1)"

text \<open>\<^verbatim>\<open>for i := a; i < b; i++ { id := strconv.Itoa(i) ... }\<close>\<close>

definition ids_between :: "int \<Rightarrow> int \<Rightarrow> string list" where
  "ids_between a b = map Itoa [a..b - 1]"

definition RampUp :: "TApp \<Rightarrow> 64 word \<Rightarrow> string \<Rightarrow> TApp result" where
  "RampUp tapp replica templateName =
     (if replica \<le> (scast (spec_Replicas (tapp_Spec tapp)) :: 64 word)
      then Inl (Errorf (''replica:'' @ fmt_uint64 replica @ '' should great than tapp.Spec.Replicas:'' @ Itoa (replicas tapp)))
      else
        let templates0 = (case spec_Templates (tapp_Spec tapp) of None \<Rightarrow> [] | Some l \<Rightarrow> l);
            templates = fold (\<lambda>iid. AList.update iid templateName) (ids_between (replicas tapp) (sint replica)) templates0
        in Inr (with_spec (\<lambda>s. s\<lparr>spec_Templates := Some templates, spec_Replicas := ucast replica\<rparr>) tapp))"

text \<open>The replicas are overwritten before the loop reads them as its bound.\<close>

definition ShrinkDown :: "TApp \<Rightarrow> 64 word \<Rightarrow> TApp result" where
  "ShrinkDown tapp replica =
     (if replica \<ge> (scast (spec_Replicas (tapp_Spec tapp)) :: 64 word)
      then Inl (Errorf (''replica:'' @ fmt_uint64 replica @ '' should less than tapp.Spec.Replicas:'' @ Itoa (replicas tapp)))
      else
        let tapp1 = with_spec (\<lambda>s. s\<lparr>spec_Replicas := ucast replica\<rparr>) tapp
        in Inr (fold (\<lambda>iid. with_spec (\<lambda>s. s\<lparr>spec_Templates := gm_delete iid (spec_Templates s),
               spec_Statuses := gm_delete iid (spec_Statuses s)\<rparr>))
             (ids_between (sint replica) (replicas tapp1)) tapp1))"

definition UpdateInstanceTemplate :: "TApp \<Rightarrow> string \<Rightarrow> string \<Rightarrow> TApp" where
  "UpdateInstanceTemplate tapp instanceId templateId =
     with_spec (\<lambda>s. s\<lparr>spec_Templates := gm_make_assign instanceId templateId (spec_Templates s)\<rparr>) tapp"

definition KillInstance :: "TApp \<Rightarrow> string \<Rightarrow> TApp" where
  "KillInstance tapp instanceId =
     with_spec (\<lambda>s. s\<lparr>spec_Statuses := gm_make_assign instanceId InstanceKilled (spec_Statuses s)\<rparr>) tapp"

definition KillAllInstance :: "TApp \<Rightarrow> TApp" where
  "KillAllInstance tapp =
     (let statuses0 = (case spec_Statuses (tapp_Spec tapp) of None \<Rightarrow> [] | Some l \<Rightarrow> l);
          statuses = fold (\<lambda>iid m. if map_of m iid = None then AList.update iid InstanceKilled m else m)
            (replica_ids tapp) statuses0
      in with_spec (\<lambda>s. s\<lparr>spec_Statuses := Some statuses\<rparr>) tapp)"

text \<open>It always returns true.\<close>

definition RestartInstance :: "TApp \<Rightarrow> string \<Rightarrow> TApp" where
  "RestartInstance tapp instanceId =
     (let tapp1 = (if gm_lookup (spec_Statuses (tapp_Spec tapp)) instanceId = Some InstanceKilled
                   then with_spec (\<lambda>s. s\<lparr>spec_Statuses := gm_delete instanceId (spec_Statuses s)\<rparr>) tapp else tapp)
      in tapp1\<lparr>tapp_Status := (tapp_Status tapp1)\<lparr>st_Statuses := gm_delete instanceId (st_Statuses (tapp_Status tapp1))\<rparr>\<rparr>)"

definition CreateRawTApp :: "int \<Rightarrow> TApp" where
  "CreateRawTApp replica =
     \<lparr>tapp_Meta = zeroObjectMeta\<lparr>om_Name := FakeTAppName, om_Namespace := ''default'', om_ResourceVersion := ''0''\<rparr>,
      tapp_Spec = \<lparr>spec_Replicas = word_of_int replica, spec_Selector = None,
        spec_Template = \<lparr>pt_Meta = zeroObjectMeta, pt_Spec = \<lparr>ps_NodeName = '''', ps_Hostname = '''', ps_Subdomain = '''',
          ps_RestartPolicy = RestartPolicyOther '''', ps_InitContainers = [], ps_Containers = [], ps_Volumes = [],
          ps_ReadinessGates = [], ps_rest = ''''\<rparr>\<rparr>,
        spec_TemplatePool = Some [], spec_Statuses = Some [], spec_Templates = Some [],
        spec_UpdateStrategy = \<lparr>us_Template = '''', us_MaxUnavailable = None, us_ForceUpdate = \<lparr>fu_MaxUnavailable = None\<rparr>\<rparr>,
        spec_ForceDeletePod = False, spec_AutoDeleteUnusedTemplate = False, spec_NeverMigrate = False,
        spec_VolumeClaimTemplates = [], spec_ServiceName = '''', spec_DefaultTemplateName = ''''\<rparr>,
      tapp_Status = \<lparr>st_ObservedGeneration = 0, st_Replicas = 0, st_ReadyReplicas = 0, st_ScaleLabelSelector = '''',
        st_AppStatus = AppStatusOther '''', st_Statuses = Some []\<rparr>\<rparr>"

definition testTemplate :: string where
  "testTemplate = ''testTemplate''"

definition CreateTAppWithTemplateCreater :: "spew \<Rightarrow> int \<Rightarrow> PodTemplateSpec \<Rightarrow> TApp" where
  "CreateTAppWithTemplateCreater spew replica template =
     (let tapp = AddPodTemplate spew (CreateRawTApp replica) testTemplate template;
          tapp1 = with_spec (\<lambda>s. s\<lparr>spec_Selector := Some (GenerateTAppSelector (pt_Labels (spec_Template s)))\<rparr>) tapp
      in with_spec (\<lambda>s. s\<lparr>spec_Templates :=
           fold (\<lambda>iid. gm_make_assign iid testTemplate) (replica_ids tapp1) (spec_Templates s)\<rparr>) tapp1)"

text \<open>The fields of the pod that the model does not name are an opaque text.\<close>

definition CreateValidPodTemplate :: PodTemplateSpec where
  "CreateValidPodTemplate =
     (let validLabels = Some [(''fake_tapp_label_key'', ''fake_tapp_label_value'')]
      in \<lparr>pt_Meta = zeroObjectMeta\<lparr>om_Labels := validLabels, om_Annotations := Some []\<rparr>,
          pt_Spec = \<lparr>ps_NodeName = '''', ps_Hostname = '''', ps_Subdomain = '''', ps_RestartPolicy = RestartPolicyOnFailure,
            ps_InitContainers = [], ps_Containers = [\<lparr>c_Name = ''abc'', c_Image = ''image'', c_rest = ''imagePullPolicy: IfNotPresent''\<rparr>],
            ps_Volumes = [], ps_ReadinessGates = [], ps_rest = ''dnsPolicy: ClusterFirst''\<rparr>\<rparr>)"

definition CreateValidTApp :: "spew \<Rightarrow> int \<Rightarrow> TApp" where
  "CreateValidTApp spew replica = CreateTAppWithTemplateCreater spew replica CreateValidPodTemplate"

lemmas edit_defs [model_defs] =
  FakeTAppName_def with_spec_def AddPodTemplate_def ids_between_def RampUp_def ShrinkDown_def UpdateInstanceTemplate_def
  KillInstance_def KillAllInstance_def RestartInstance_def CreateRawTApp_def testTemplate_def CreateTAppWithTemplateCreater_def

subsection \<open>Killing and restarting\<close>

lemma with_spec_simps [simp]:
  "tapp_Meta (with_spec f t) = tapp_Meta t" "tapp_Status (with_spec f t) = tapp_Status t" "tapp_Spec (with_spec f t) = f (tapp_Spec t)"
  by (simp_all add: with_spec_def)

text \<open>The instances that are not to run, by lookup.\<close>

lemma desiredCompleted_lookup:
  assumes "tapp_wf t"
  shows "desiredCompleted d t = {i. gm_lookup (spec_Statuses (tapp_Spec t)) i = Some InstanceKilled} \<union>
    {i. (\<not> d \<or> isTAppFinished t) \<and> (\<exists>s. gm_lookup (st_Statuses (tapp_Status t)) i = Some s \<and> (s = InstanceFailed \<or> s = InstanceSucc))}"
    (is "_ = ?C")
proof -
  have c: "desiredCompleted d t = {i. (i, InstanceKilled) \<in> set (gm_entries (spec_Statuses (tapp_Spec t)))} \<union>
       {i. (\<not> d \<or> isTAppFinished t) \<and>
           (\<exists>s. (i, s) \<in> set (gm_entries (st_Statuses (tapp_Status t))) \<and> (s = InstanceFailed \<or> s = InstanceSucc))}"
    using getDesiredInstance_sets [of d t "desiredRunning d t" "desiredCompleted d t"] by simp
  have "gm_wf (spec_Statuses (tapp_Spec t))" "gm_wf (st_Statuses (tapp_Status t))" using assms by (simp_all add: tapp_wf_def)
  then show ?thesis unfolding c by (simp add: gm_lookup_Some_iff)
qed

lemma desiredRunning_diff: "desiredRunning d t = set (replica_ids t) - desiredCompleted d t"
  using getDesiredInstance_sets [of d t "desiredRunning d t" "desiredCompleted d t"] by simp

lemma replica_ids_cong: "spec_Replicas (tapp_Spec t) = spec_Replicas (tapp_Spec t') \<Longrightarrow> replica_ids t = replica_ids t'"
  by (simp add: replica_ids_def)

lemma KillInstance_running:
  assumes "tapp_wf t"
  shows "tapp_wf (KillInstance t iid)" "desiredRunning d (KillInstance t iid) = desiredRunning d t - {iid}"
proof -
  show wf: "tapp_wf (KillInstance t iid)" using assms by (auto simp: tapp_wf_def KillInstance_def)
  have "replica_ids (KillInstance t iid) = replica_ids t" by (rule replica_ids_cong) (simp add: KillInstance_def)
  moreover have "desiredCompleted d (KillInstance t iid) = insert iid (desiredCompleted d t)"
    unfolding desiredCompleted_lookup [OF wf] desiredCompleted_lookup [OF assms]
    by (auto simp: KillInstance_def isTAppFinished_def split: if_splits)
  ultimately show "desiredRunning d (KillInstance t iid) = desiredRunning d t - {iid}" by (auto simp: desiredRunning_diff)
qed

lemma RestartInstance_running:
  assumes "tapp_wf t"
  shows "tapp_wf (RestartInstance t iid)"
    "desiredRunning d (RestartInstance t iid) = desiredRunning d t \<union> ({iid} \<inter> set (replica_ids t))"
proof -
  show wf: "tapp_wf (RestartInstance t iid)" using assms by (auto simp: tapp_wf_def RestartInstance_def Let_def)
  have "replica_ids (RestartInstance t iid) = replica_ids t" by (rule replica_ids_cong) (simp add: RestartInstance_def Let_def)
  moreover have "desiredCompleted d (RestartInstance t iid) = desiredCompleted d t - {iid}"
    unfolding desiredCompleted_lookup [OF wf] desiredCompleted_lookup [OF assms]
    by (auto simp: RestartInstance_def Let_def isTAppFinished_def split: if_splits)
  ultimately show "desiredRunning d (RestartInstance t iid) = desiredRunning d t \<union> ({iid} \<inter> set (replica_ids t))"
    by (auto simp: desiredRunning_diff)
qed

text \<open>Killing and restarting instances: killing one takes exactly it out of the instances the controller
  wants to run, restarting puts exactly it back (if its number is still within the replicas), whatever it was
  recorded as before; killing and restarting is therefore the identity on a running instance. Both keep the
  maps of the TApp well formed.\<close>

theorem kill_restart_round_trip:
  assumes "tapp_wf t"
  shows "tapp_wf (RestartInstance (KillInstance t iid) iid) \<and>
    desiredRunning d (KillInstance t iid) = desiredRunning d t - {iid} \<and>
    desiredRunning d (RestartInstance t iid) = desiredRunning d t \<union> ({iid} \<inter> set (replica_ids t)) \<and>
    (iid \<in> desiredRunning d t \<longrightarrow> desiredRunning d (RestartInstance (KillInstance t iid) iid) = desiredRunning d t)"
proof -
  have ids: "replica_ids (KillInstance t iid) = replica_ids t" by (rule replica_ids_cong) (simp add: KillInstance_def)
  note k = KillInstance_running [OF assms, where iid = iid]
  note r = RestartInstance_running [OF assms, where iid = iid] RestartInstance_running [OF k(1), where iid = iid]
  have "desiredRunning d t \<subseteq> set (replica_ids t)" by (rule desired_props(4))
  then show ?thesis using k r ids by auto
qed

theorem kill_restart_round_trip_witness:
  "desiredRunning True (KillInstance (sampleTApp 2) ''1'') = {''0''} \<and>
   desiredRunning True (RestartInstance (KillInstance (sampleTApp 2) ''1'') ''1'') = {''0'', ''1''}"
proof -
  have "tapp_wf (sampleTApp 2)" by (simp add: tapp_wf_def sample_defs gm_wf_def)
  from kill_restart_round_trip [OF this, of "''1''" True] show ?thesis by (auto simp: sample_running)
qed

subsection \<open>Scaling\<close>

lemma ids_between_Nil: "b \<le> a \<Longrightarrow> ids_between a b = []"
  by (simp add: ids_between_def)

text \<open>Scaling down never removes an entry: the loop that should do it runs from the new number of replicas to the
  new number of replicas. An instance that was killed before the TApp was scaled down is therefore still
  killed when it is scaled up again.\<close>

theorem ShrinkDown_keeps_entries:
  assumes "ShrinkDown t replica = Inr t'" "replica < 2 ^ 31"
  shows "t' = with_spec (\<lambda>s. s\<lparr>spec_Replicas := ucast replica\<rparr>) t"
proof -
  have u: "unat replica < 2 ^ 31" using assms(2) by (simp add: word_less_nat_alt)
  have "sint (word_of_nat (unat replica) :: 64 word) = int (unat replica)"
    "sint (word_of_nat (unat replica) :: 32 word) = int (unat replica)"
    using u by (simp_all add: signed_of_nat signed_take_bit_int_eq_self del: of_nat_unat)
  then have r: "sint replica = int (unat replica)" "sint (ucast replica :: 32 word) = int (unat replica)"
    by (simp_all only: of_nat_unat ucast_id)
  then show ?thesis using assms(1) by (auto simp: ShrinkDown_def Let_def ids_between_Nil split: if_splits)
qed

end
