(* ===== verification/Deep_Copy.thy ===== *)
theory Deep_Copy
  imports TApp_Types Sample_Objects
begin

text \<open>
  The generated copy functions of \<^verbatim>\<open>pkg/apis/tappcontroller/v1/zz_generated.deepcopy.go\<close>, with the
  sharing they leave behind. The other theories treat a TApp as a value; here a map, a slice and a
  pointed-to struct are cells of a \<open>store\<close>, and a TApp holds their addresses.

  The copy functions of the Kubernetes types (metadata, selectors, pod templates, claims) are the
  record \<open>copiers\<close>; what is relied on is that their results equal their arguments.
\<close>

subsection \<open>Stores\<close>

record StrategyRef =
  sy_Template :: string
  sy_MaxUnavailable :: "nat option"
  sy_ForceMaxUnavailable :: "nat option"

record SpecRef =
  sr_Replicas :: "32 word"
  sr_Selector :: "nat option"
  sr_Template :: PodTemplateSpec
  sr_TemplatePool :: "nat option"
  sr_Statuses :: "nat option"
  sr_Templates :: "nat option"
  sr_UpdateStrategy :: StrategyRef
  sr_ForceDeletePod :: bool
  sr_AutoDeleteUnusedTemplate :: bool
  sr_NeverMigrate :: bool
  sr_VolumeClaimTemplates :: "nat option"
  sr_ServiceName :: string
  sr_DefaultTemplateName :: string

record StatusRef =
  tr_ObservedGeneration :: "64 word"
  tr_Replicas :: "32 word"
  tr_ReadyReplicas :: "32 word"
  tr_ScaleLabelSelector :: string
  tr_AppStatus :: AppStatus
  tr_Statuses :: "nat option"

record TAppRef =
  ar_Meta :: ObjectMeta
  ar_Spec :: SpecRef
  ar_Status :: StatusRef

record 'lm TAppListRef =
  lr_ListMeta :: 'lm
  lr_Items :: "nat option"

record store =
  h_next :: nat
  h_selectors :: "nat \<Rightarrow> LabelSelector"
  h_pools :: "nat \<Rightarrow> PodTemplateSpec amap"
  h_statuses :: "nat \<Rightarrow> InstanceStatus amap"
  h_templates :: "nat \<Rightarrow> string amap"
  h_claims :: "nat \<Rightarrow> PersistentVolumeClaim list"
  h_items :: "nat \<Rightarrow> TAppRef list"
  h_budgets :: "nat \<Rightarrow> IntOrString"

record copiers =
  cp_meta :: "ObjectMeta \<Rightarrow> ObjectMeta"
  cp_selector :: "LabelSelector \<Rightarrow> LabelSelector"
  cp_template :: "PodTemplateSpec \<Rightarrow> PodTemplateSpec"
  cp_claim :: "PersistentVolumeClaim \<Rightarrow> PersistentVolumeClaim"

definition copies_values :: "copiers \<Rightarrow> bool" where
  "copies_values cp \<longleftrightarrow> (\<forall>m. cp_meta cp m = m) \<and> (\<forall>s. cp_selector cp s = s) \<and> (\<forall>t. cp_template cp t = t) \<and> (\<forall>c. cp_claim cp c = c)"

subsection \<open>The copy functions\<close>

text \<open>\<^verbatim>\<open>*out = make(map...); for key, val := range *in { (*out)[key] = val }\<close>\<close>

definition copy_map :: "('v \<Rightarrow> 'v) \<Rightarrow> 'v amap \<Rightarrow> 'v amap" where
  "copy_map f l = fold (\<lambda>(k, v). AList.update k (f v)) l []"

definition TAppUpdateStrategy_DeepCopyInto :: "StrategyRef \<Rightarrow> StrategyRef" where
  "TAppUpdateStrategy_DeepCopyInto st = (let out = st in out\<lparr>sy_MaxUnavailable := sy_MaxUnavailable st\<rparr>)"

text \<open>
  The five allocating blocks of \<^verbatim>\<open>(*TAppSpec).DeepCopyInto\<close>: what is read comes from the original
  \<open>sp\<close>, what is written goes to the half-made copy.
\<close>

definition copy_Selector :: "copiers \<Rightarrow> SpecRef \<Rightarrow> SpecRef \<times> store \<Rightarrow> SpecRef \<times> store" where
  "copy_Selector cp sp = (\<lambda>(out, h). case sr_Selector sp of
      None \<Rightarrow> (out, h)
    | Some a \<Rightarrow> (out\<lparr>sr_Selector := Some (h_next h)\<rparr>,
        h\<lparr>h_next := Suc (h_next h), h_selectors := (h_selectors h)(h_next h := cp_selector cp (h_selectors h a))\<rparr>))"

definition copy_TemplatePool :: "copiers \<Rightarrow> SpecRef \<Rightarrow> SpecRef \<times> store \<Rightarrow> SpecRef \<times> store" where
  "copy_TemplatePool cp sp = (\<lambda>(out, h). case sr_TemplatePool sp of
      None \<Rightarrow> (out, h)
    | Some a \<Rightarrow> (out\<lparr>sr_TemplatePool := Some (h_next h)\<rparr>,
        h\<lparr>h_next := Suc (h_next h), h_pools := (h_pools h)(h_next h := copy_map (cp_template cp) (h_pools h a))\<rparr>))"

definition copy_Statuses :: "SpecRef \<Rightarrow> SpecRef \<times> store \<Rightarrow> SpecRef \<times> store" where
  "copy_Statuses sp = (\<lambda>(out, h). case sr_Statuses sp of
      None \<Rightarrow> (out, h)
    | Some a \<Rightarrow> (out\<lparr>sr_Statuses := Some (h_next h)\<rparr>,
        h\<lparr>h_next := Suc (h_next h), h_statuses := (h_statuses h)(h_next h := copy_map (\<lambda>v. v) (h_statuses h a))\<rparr>))"

definition copy_Templates :: "SpecRef \<Rightarrow> SpecRef \<times> store \<Rightarrow> SpecRef \<times> store" where
  "copy_Templates sp = (\<lambda>(out, h). case sr_Templates sp of
      None \<Rightarrow> (out, h)
    | Some a \<Rightarrow> (out\<lparr>sr_Templates := Some (h_next h)\<rparr>,
        h\<lparr>h_next := Suc (h_next h), h_templates := (h_templates h)(h_next h := copy_map (\<lambda>v. v) (h_templates h a))\<rparr>))"

definition copy_VolumeClaimTemplates :: "copiers \<Rightarrow> SpecRef \<Rightarrow> SpecRef \<times> store \<Rightarrow> SpecRef \<times> store" where
  "copy_VolumeClaimTemplates cp sp = (\<lambda>(out, h). case sr_VolumeClaimTemplates sp of
      None \<Rightarrow> (out, h)
    | Some a \<Rightarrow> (out\<lparr>sr_VolumeClaimTemplates := Some (h_next h)\<rparr>,
        h\<lparr>h_next := Suc (h_next h), h_claims := (h_claims h)(h_next h := map (cp_claim cp) (h_claims h a))\<rparr>))"

definition TAppSpec_DeepCopyInto :: "copiers \<Rightarrow> SpecRef \<Rightarrow> store \<Rightarrow> SpecRef \<times> store" where
  "TAppSpec_DeepCopyInto cp sp h0 =
     (let (out1, h1) = copy_Selector cp sp (sp, h0);
          out2 = out1\<lparr>sr_Template := cp_template cp (sr_Template sp)\<rparr>;
          (out3, h3) = copy_TemplatePool cp sp (out2, h1);
          (out4, h4) = copy_Statuses sp (out3, h3);
          (out5, h5) = copy_Templates sp (out4, h4);
          out6 = out5\<lparr>sr_UpdateStrategy := TAppUpdateStrategy_DeepCopyInto (sr_UpdateStrategy sp)\<rparr>
      in copy_VolumeClaimTemplates cp sp (out6, h5))"

definition TAppStatus_DeepCopyInto :: "StatusRef \<Rightarrow> store \<Rightarrow> StatusRef \<times> store" where
  "TAppStatus_DeepCopyInto st h =
     (case tr_Statuses st of
        None \<Rightarrow> (st, h)
      | Some a \<Rightarrow> (st\<lparr>tr_Statuses := Some (h_next h)\<rparr>,
          h\<lparr>h_next := Suc (h_next h), h_statuses := (h_statuses h)(h_next h := copy_map (\<lambda>v. v) (h_statuses h a))\<rparr>))"

definition TApp_DeepCopyInto :: "copiers \<Rightarrow> TAppRef \<Rightarrow> store \<Rightarrow> TAppRef \<times> store" where
  "TApp_DeepCopyInto cp t h =
     (let meta = cp_meta cp (ar_Meta t);
          (spec, h1) = TAppSpec_DeepCopyInto cp (ar_Spec t) h;
          (status, h2) = TAppStatus_DeepCopyInto (ar_Status t) h1
      in (\<lparr>ar_Meta = meta, ar_Spec = spec, ar_Status = status\<rparr>, h2))"

definition TApp_DeepCopy :: "copiers \<Rightarrow> TAppRef option \<Rightarrow> store \<Rightarrow> TAppRef option \<times> store" where
  "TApp_DeepCopy cp t h =
     (case t of None \<Rightarrow> (None, h) | Some x \<Rightarrow> (let (out, h1) = TApp_DeepCopyInto cp x h in (Some out, h1)))"

definition TApp_DeepCopyObject :: "copiers \<Rightarrow> TAppRef option \<Rightarrow> store \<Rightarrow> TAppRef option \<times> store" where
  "TApp_DeepCopyObject cp t h = (let (c, h1) = TApp_DeepCopy cp t h in if c \<noteq> None then (c, h1) else (None, h1))"

text \<open>The items of a list are copied one after the other into a new backing array.\<close>

fun copy_items :: "copiers \<Rightarrow> TAppRef list \<Rightarrow> store \<Rightarrow> TAppRef list \<times> store" where
  "copy_items cp [] h = ([], h)"
| "copy_items cp (t # ts) h =
     (let (t', h1) = TApp_DeepCopyInto cp t h; (ts', h2) = copy_items cp ts h1 in (t' # ts', h2))"

definition TAppList_DeepCopyInto :: "copiers \<Rightarrow> 'lm TAppListRef \<Rightarrow> store \<Rightarrow> 'lm TAppListRef \<times> store" where
  "TAppList_DeepCopyInto cp l h =
     (let out = l\<lparr>lr_ListMeta := lr_ListMeta l\<rparr>
      in case lr_Items l of
           None \<Rightarrow> (out, h)
         | Some a \<Rightarrow>
             (let b = h_next h; (ts, h1) = copy_items cp (h_items h a) (h\<lparr>h_next := Suc b\<rparr>)
              in (out\<lparr>lr_Items := Some b\<rparr>, h1\<lparr>h_items := (h_items h1)(b := ts)\<rparr>)))"

definition TAppList_DeepCopy :: "copiers \<Rightarrow> 'lm TAppListRef option \<Rightarrow> store \<Rightarrow> 'lm TAppListRef option \<times> store" where
  "TAppList_DeepCopy cp l h =
     (case l of None \<Rightarrow> (None, h) | Some x \<Rightarrow> (let (out, h1) = TAppList_DeepCopyInto cp x h in (Some out, h1)))"

definition TAppList_DeepCopyObject :: "copiers \<Rightarrow> 'lm TAppListRef option \<Rightarrow> store \<Rightarrow> 'lm TAppListRef option \<times> store" where
  "TAppList_DeepCopyObject cp l h = (let (c, h1) = TAppList_DeepCopy cp l h in if c \<noteq> None then (c, h1) else (None, h1))"

definition TAppUpdateStrategy_DeepCopy :: "StrategyRef option \<Rightarrow> StrategyRef option" where
  "TAppUpdateStrategy_DeepCopy st = (case st of None \<Rightarrow> None | Some x \<Rightarrow> Some (TAppUpdateStrategy_DeepCopyInto x))"

definition TAppSpec_DeepCopy :: "copiers \<Rightarrow> SpecRef option \<Rightarrow> store \<Rightarrow> SpecRef option \<times> store" where
  "TAppSpec_DeepCopy cp s h =
     (case s of None \<Rightarrow> (None, h) | Some x \<Rightarrow> (let (out, h1) = TAppSpec_DeepCopyInto cp x h in (Some out, h1)))"

definition TAppStatus_DeepCopy :: "StatusRef option \<Rightarrow> store \<Rightarrow> StatusRef option \<times> store" where
  "TAppStatus_DeepCopy s h =
     (case s of None \<Rightarrow> (None, h) | Some x \<Rightarrow> (let (out, h1) = TAppStatus_DeepCopyInto x h in (Some out, h1)))"

subsection \<open>The value a reference stands for\<close>

definition spec_of :: "store \<Rightarrow> SpecRef \<Rightarrow> TAppSpec" where
  "spec_of h s = \<lparr>spec_Replicas = sr_Replicas s, spec_Selector = map_option (h_selectors h) (sr_Selector s),
     spec_Template = sr_Template s, spec_TemplatePool = map_option (h_pools h) (sr_TemplatePool s),
     spec_Statuses = map_option (h_statuses h) (sr_Statuses s), spec_Templates = map_option (h_templates h) (sr_Templates s),
     spec_UpdateStrategy = \<lparr>us_Template = sy_Template (sr_UpdateStrategy s),
       us_MaxUnavailable = map_option (h_budgets h) (sy_MaxUnavailable (sr_UpdateStrategy s)),
       us_ForceUpdate = \<lparr>fu_MaxUnavailable = map_option (h_budgets h) (sy_ForceMaxUnavailable (sr_UpdateStrategy s))\<rparr>\<rparr>,
     spec_ForceDeletePod = sr_ForceDeletePod s, spec_AutoDeleteUnusedTemplate = sr_AutoDeleteUnusedTemplate s,
     spec_NeverMigrate = sr_NeverMigrate s,
     spec_VolumeClaimTemplates = (case sr_VolumeClaimTemplates s of None \<Rightarrow> [] | Some a \<Rightarrow> h_claims h a),
     spec_ServiceName = sr_ServiceName s, spec_DefaultTemplateName = sr_DefaultTemplateName s\<rparr>"

definition status_of :: "store \<Rightarrow> StatusRef \<Rightarrow> TAppStatus" where
  "status_of h s = \<lparr>st_ObservedGeneration = tr_ObservedGeneration s, st_Replicas = tr_Replicas s,
     st_ReadyReplicas = tr_ReadyReplicas s, st_ScaleLabelSelector = tr_ScaleLabelSelector s,
     st_AppStatus = tr_AppStatus s, st_Statuses = map_option (h_statuses h) (tr_Statuses s)\<rparr>"

definition tapp_of :: "store \<Rightarrow> TAppRef \<Rightarrow> TApp" where
  "tapp_of h t = \<lparr>tapp_Meta = ar_Meta t, tapp_Spec = spec_of h (ar_Spec t), tapp_Status = status_of h (ar_Status t)\<rparr>"

text \<open>The addresses of the maps, slices and the selector, and those of the two budgets.\<close>

definition spec_refs :: "SpecRef \<Rightarrow> nat set" where
  "spec_refs s = set_option (sr_Selector s) \<union> set_option (sr_TemplatePool s) \<union> set_option (sr_Statuses s) \<union>
     set_option (sr_Templates s) \<union> set_option (sr_VolumeClaimTemplates s)"

definition container_refs :: "TAppRef \<Rightarrow> nat set" where
  "container_refs t = spec_refs (ar_Spec t) \<union> set_option (tr_Statuses (ar_Status t))"

definition store_ok :: "store \<Rightarrow> TAppRef \<Rightarrow> bool" where
  "store_ok h t \<longleftrightarrow> (\<forall>a \<in> container_refs t. a < h_next h)"

text \<open>Two stores that agree on the cells below a bound and on all budgets.\<close>

definition extends :: "store \<Rightarrow> store \<Rightarrow> bool" where
  "extends h h' \<longleftrightarrow> h_next h \<le> h_next h' \<and> h_budgets h' = h_budgets h \<and>
     (\<forall>a < h_next h. h_selectors h' a = h_selectors h a \<and> h_pools h' a = h_pools h a \<and> h_statuses h' a = h_statuses h a \<and>
        h_templates h' a = h_templates h a \<and> h_claims h' a = h_claims h a \<and> h_items h' a = h_items h a)"

lemma extends_refl: "extends h h"
  by (simp add: extends_def)

lemma extends_trans: "extends h h' \<Longrightarrow> extends h' h'' \<Longrightarrow> extends h h''"
  by (auto simp: extends_def)

lemma tapp_of_extends: "extends h h' \<Longrightarrow> store_ok h t \<Longrightarrow> tapp_of h' t = tapp_of h t"
  by (auto simp: extends_def store_ok_def container_refs_def spec_refs_def tapp_of_def spec_of_def status_of_def
      intro!: option.map_cong split: option.split)

subsection \<open>A copy has the same value and containers of its own\<close>

definition spec_maps_wf :: "store \<Rightarrow> SpecRef \<Rightarrow> bool" where
  "spec_maps_wf h s \<longleftrightarrow>
     (\<forall>a \<in> set_option (sr_TemplatePool s). distinct (map fst (h_pools h a))) \<and>
     (\<forall>a \<in> set_option (sr_Statuses s). distinct (map fst (h_statuses h a))) \<and>
     (\<forall>a \<in> set_option (sr_Templates s). distinct (map fst (h_templates h a)))"

definition maps_wf :: "store \<Rightarrow> TAppRef \<Rightarrow> bool" where
  "maps_wf h t \<longleftrightarrow> spec_maps_wf h (ar_Spec t) \<and>
     (\<forall>a \<in> set_option (tr_Statuses (ar_Status t)). distinct (map fst (h_statuses h a)))"

lemma update_fresh: "k \<notin> fst ` set l \<Longrightarrow> AList.update k v l = l @ [(k, v)]"
  by (induction l) auto

lemma copy_map_same:
  assumes "distinct (map fst l)" "\<forall>v. f v = v"
  shows "copy_map f l = l"
proof -
  have "fold (\<lambda>(k, v). AList.update k (f v)) l acc = acc @ l" if "distinct (map fst (acc @ l))" for acc
    using that by (induction l arbitrary: acc) (auto simp: update_fresh assms(2))
  from this [of "[]"] assms(1) show ?thesis by (simp add: copy_map_def)
qed

text \<open>Each allocating block replaces one field by a fresh cell of the same value.\<close>

definition fresh_in :: "store \<Rightarrow> store \<Rightarrow> nat option \<Rightarrow> bool" where
  "fresh_in h h' r \<longleftrightarrow> (\<forall>a \<in> set_option r. h_next h \<le> a \<and> a < h_next h')"

lemma fresh_in_mono: "fresh_in h1 h2 r \<Longrightarrow> extends h h1 \<Longrightarrow> extends h2 h3 \<Longrightarrow> fresh_in h h3 r"
  by (auto simp: fresh_in_def extends_def)

lemma extends_cells:
  assumes "extends h h'" "\<forall>a \<in> set_option r. a < h_next h"
  shows "map_option (h_selectors h') r = map_option (h_selectors h) r" "map_option (h_pools h') r = map_option (h_pools h) r"
    "map_option (h_statuses h') r = map_option (h_statuses h) r" "map_option (h_templates h') r = map_option (h_templates h) r"
    "map_option (h_claims h') r = map_option (h_claims h) r"
  using assms by (cases r; simp add: extends_def)+

lemmas copy_block_simps = extends_def fresh_in_def copies_values_def copy_map_same map_idI

lemma copy_Selector_block:
  assumes "copies_values cp" "copy_Selector cp sp (out, h) = (out', h')" "sr_Selector out = sr_Selector sp"
  shows "out' = out\<lparr>sr_Selector := sr_Selector out'\<rparr>" "extends h h'" "fresh_in h h' (sr_Selector out')"
    "map_option (h_selectors h') (sr_Selector out') = map_option (h_selectors h) (sr_Selector sp)"
  using assms by (cases "sr_Selector sp"; auto simp: copy_Selector_def copy_block_simps)+

lemma copy_TemplatePool_block:
  assumes "copies_values cp" "copy_TemplatePool cp sp (out, h) = (out', h')" "sr_TemplatePool out = sr_TemplatePool sp" "\<forall>a \<in> set_option (sr_TemplatePool sp). distinct (map fst (h_pools h a))"
  shows "out' = out\<lparr>sr_TemplatePool := sr_TemplatePool out'\<rparr>" "extends h h'" "fresh_in h h' (sr_TemplatePool out')"
    "map_option (h_pools h') (sr_TemplatePool out') = map_option (h_pools h) (sr_TemplatePool sp)"
  using assms by (cases "sr_TemplatePool sp"; auto simp: copy_TemplatePool_def copy_block_simps)+

lemma copy_Statuses_block:
  assumes "copies_values cp" "copy_Statuses sp (out, h) = (out', h')" "sr_Statuses out = sr_Statuses sp" "\<forall>a \<in> set_option (sr_Statuses sp). distinct (map fst (h_statuses h a))"
  shows "out' = out\<lparr>sr_Statuses := sr_Statuses out'\<rparr>" "extends h h'" "fresh_in h h' (sr_Statuses out')"
    "map_option (h_statuses h') (sr_Statuses out') = map_option (h_statuses h) (sr_Statuses sp)"
  using assms by (cases "sr_Statuses sp"; auto simp: copy_Statuses_def copy_block_simps)+

lemma copy_Templates_block:
  assumes "copies_values cp" "copy_Templates sp (out, h) = (out', h')" "sr_Templates out = sr_Templates sp" "\<forall>a \<in> set_option (sr_Templates sp). distinct (map fst (h_templates h a))"
  shows "out' = out\<lparr>sr_Templates := sr_Templates out'\<rparr>" "extends h h'" "fresh_in h h' (sr_Templates out')"
    "map_option (h_templates h') (sr_Templates out') = map_option (h_templates h) (sr_Templates sp)"
  using assms by (cases "sr_Templates sp"; auto simp: copy_Templates_def copy_block_simps)+

lemma copy_VolumeClaimTemplates_block:
  assumes "copies_values cp" "copy_VolumeClaimTemplates cp sp (out, h) = (out', h')" "sr_VolumeClaimTemplates out = sr_VolumeClaimTemplates sp"
  shows "out' = out\<lparr>sr_VolumeClaimTemplates := sr_VolumeClaimTemplates out'\<rparr>" "extends h h'" "fresh_in h h' (sr_VolumeClaimTemplates out')"
    "map_option (h_claims h') (sr_VolumeClaimTemplates out') = map_option (h_claims h) (sr_VolumeClaimTemplates sp)"
  using assms by (cases "sr_VolumeClaimTemplates sp"; auto simp: copy_VolumeClaimTemplates_def copy_block_simps)+

lemma spec_of_cells:
  "spec_of h s = spec_of h0 s0" if
  "map_option (h_selectors h) (sr_Selector s) = map_option (h_selectors h0) (sr_Selector s0)"
  "map_option (h_pools h) (sr_TemplatePool s) = map_option (h_pools h0) (sr_TemplatePool s0)"
  "map_option (h_statuses h) (sr_Statuses s) = map_option (h_statuses h0) (sr_Statuses s0)"
  "map_option (h_templates h) (sr_Templates s) = map_option (h_templates h0) (sr_Templates s0)"
  "map_option (h_claims h) (sr_VolumeClaimTemplates s) = map_option (h_claims h0) (sr_VolumeClaimTemplates s0)"
  "h_budgets h = h_budgets h0"
  "s = s0\<lparr>sr_Selector := sr_Selector s, sr_TemplatePool := sr_TemplatePool s, sr_Statuses := sr_Statuses s,
     sr_Templates := sr_Templates s, sr_VolumeClaimTemplates := sr_VolumeClaimTemplates s\<rparr>"
proof -
  have "case_option [] (h_claims h) (sr_VolumeClaimTemplates s) = case_option [] (h_claims h0) (sr_VolumeClaimTemplates s0)"
    using that(5) by (auto split: option.splits)
  moreover from that(7) have "sr_Replicas s = sr_Replicas s0" "sr_Template s = sr_Template s0"
    "sr_UpdateStrategy s = sr_UpdateStrategy s0" "sr_ForceDeletePod s = sr_ForceDeletePod s0"
    "sr_AutoDeleteUnusedTemplate s = sr_AutoDeleteUnusedTemplate s0" "sr_NeverMigrate s = sr_NeverMigrate s0"
    "sr_ServiceName s = sr_ServiceName s0" "sr_DefaultTemplateName s = sr_DefaultTemplateName s0"
    using arg_cong [OF that(7), of sr_Replicas] arg_cong [OF that(7), of sr_Template] arg_cong [OF that(7), of sr_UpdateStrategy]
      arg_cong [OF that(7), of sr_ForceDeletePod] arg_cong [OF that(7), of sr_AutoDeleteUnusedTemplate]
      arg_cong [OF that(7), of sr_NeverMigrate] arg_cong [OF that(7), of sr_ServiceName]
      arg_cong [OF that(7), of sr_DefaultTemplateName] by simp_all
  ultimately show ?thesis using that(1-6) by (simp add: spec_of_def)
qed

lemma spec_maps_wf_extends:
  assumes "extends h h'" "\<forall>a \<in> spec_refs sp. a < h_next h" "spec_maps_wf h sp"
  shows "spec_maps_wf h' sp"
  using assms by (auto simp: spec_maps_wf_def extends_def spec_refs_def)

text \<open>The blocks in sequence: which cells the fields of the copy refer to, and what they hold when they are made.\<close>

lemma TAppSpec_blocks:
  assumes cp: "copies_values cp" and ok: "\<forall>a \<in> spec_refs sp. a < h_next h" and wf: "spec_maps_wf h sp"
    and copy: "TAppSpec_DeepCopyInto cp sp h = (out, h')"
  obtains h1 h3 h4 h5 where "extends h h1" "extends h1 h3" "extends h3 h4" "extends h4 h5" "extends h5 h'"
    "out = sp\<lparr>sr_Selector := sr_Selector out, sr_TemplatePool := sr_TemplatePool out, sr_Statuses := sr_Statuses out,
       sr_Templates := sr_Templates out, sr_VolumeClaimTemplates := sr_VolumeClaimTemplates out\<rparr>"
    "fresh_in h h1 (sr_Selector out)" "fresh_in h1 h3 (sr_TemplatePool out)" "fresh_in h3 h4 (sr_Statuses out)"
    "fresh_in h4 h5 (sr_Templates out)" "fresh_in h5 h' (sr_VolumeClaimTemplates out)"
    "map_option (h_selectors h1) (sr_Selector out) = map_option (h_selectors h) (sr_Selector sp)"
    "map_option (h_pools h3) (sr_TemplatePool out) = map_option (h_pools h1) (sr_TemplatePool sp)"
    "map_option (h_statuses h4) (sr_Statuses out) = map_option (h_statuses h3) (sr_Statuses sp)"
    "map_option (h_templates h5) (sr_Templates out) = map_option (h_templates h4) (sr_Templates sp)"
    "map_option (h_claims h') (sr_VolumeClaimTemplates out) = map_option (h_claims h5) (sr_VolumeClaimTemplates sp)"
proof -
  have wf_of: "\<forall>a \<in> set_option (sr_TemplatePool sp). distinct (map fst (h_pools g a))"
    "\<forall>a \<in> set_option (sr_Statuses sp). distinct (map fst (h_statuses g a))"
    "\<forall>a \<in> set_option (sr_Templates sp). distinct (map fst (h_templates g a))" if "extends h g" for g
    using spec_maps_wf_extends [OF that ok wf] by (auto simp: spec_maps_wf_def)
  obtain o1 h1 where 1: "copy_Selector cp sp (sp, h) = (o1, h1)" by fastforce
  note b1 = copy_Selector_block [OF cp 1 refl]
  define o2 where "o2 = o1\<lparr>sr_Template := cp_template cp (sr_Template sp)\<rparr>"
  have o2: "o2 = sp\<lparr>sr_Selector := sr_Selector o1\<rparr>"
    using cp by (subst o2_def, subst b1(1)) (simp add: copies_values_def)
  obtain o3 h3 where 3: "copy_TemplatePool cp sp (o2, h1) = (o3, h3)" by fastforce
  note b3 = copy_TemplatePool_block [OF cp 3 _ wf_of(1) [OF b1(2)], unfolded o2, simplified]
  have e3: "extends h h3" using b1(2) b3(2) by (rule extends_trans)
  obtain o4 h4 where 4: "copy_Statuses sp (o3, h3) = (o4, h4)" by fastforce
  have f3: "sr_Statuses o3 = sr_Statuses sp" by (subst b3(1)) simp
  note b4 = copy_Statuses_block [OF cp 4 f3 wf_of(2) [OF e3]]
  have e4: "extends h h4" using e3 b4(2) by (rule extends_trans)
  obtain o5 h5 where 5: "copy_Templates sp (o4, h4) = (o5, h5)" by fastforce
  have f4: "sr_Templates o4 = sr_Templates sp" by (subst b4(1), simp, subst b3(1), simp)
  note b5 = copy_Templates_block [OF cp 5 f4 wf_of(3) [OF e4]]
  define o6 where "o6 = o5\<lparr>sr_UpdateStrategy := TAppUpdateStrategy_DeepCopyInto (sr_UpdateStrategy sp)\<rparr>"
  have o6: "o6 = sp\<lparr>sr_Selector := sr_Selector o1, sr_TemplatePool := sr_TemplatePool o3, sr_Statuses := sr_Statuses o4,
      sr_Templates := sr_Templates o5\<rparr>"
    by (subst o6_def, subst b5(1), subst b4(1), subst b3(1)) (simp add: TAppUpdateStrategy_DeepCopyInto_def Let_def)
  have 7: "copy_VolumeClaimTemplates cp sp (o6, h5) = (out, h')"
    using copy 1 3 4 5 by (simp add: TAppSpec_DeepCopyInto_def Let_def o2_def o6_def)
  note b7 = copy_VolumeClaimTemplates_block [OF cp 7, unfolded o6, simplified]
  have fin: "sr_Selector out = sr_Selector o1" "sr_TemplatePool out = sr_TemplatePool o3"
    "sr_Statuses out = sr_Statuses o4" "sr_Templates out = sr_Templates o5"
    by (subst b7(1), simp)+
  show thesis
    by (rule that [OF b1(2) b3(2) b4(2) b5(2) b7(2)]) (use b1(3,4) b3(3,4) b4(3,4) b5(3,4) b7(3,4) b7(1) in \<open>simp_all add: fin\<close>)
qed

lemma TAppSpec_copy:
  assumes cp: "copies_values cp" and ok: "\<forall>a \<in> spec_refs sp. a < h_next h" and wf: "spec_maps_wf h sp"
    and copy: "TAppSpec_DeepCopyInto cp sp h = (out, h')"
  shows "extends h h'" "spec_of h' out = spec_of h sp" "\<forall>a \<in> spec_refs out. h_next h \<le> a \<and> a < h_next h'"
    "sr_UpdateStrategy out = sr_UpdateStrategy sp"
proof -
  obtain h1 h3 h4 h5 where e: "extends h h1" "extends h1 h3" "extends h3 h4" "extends h4 h5" "extends h5 h'"
    and same: "out = sp\<lparr>sr_Selector := sr_Selector out, sr_TemplatePool := sr_TemplatePool out, sr_Statuses := sr_Statuses out,
       sr_Templates := sr_Templates out, sr_VolumeClaimTemplates := sr_VolumeClaimTemplates out\<rparr>"
    and fr: "fresh_in h h1 (sr_Selector out)" "fresh_in h1 h3 (sr_TemplatePool out)" "fresh_in h3 h4 (sr_Statuses out)"
    "fresh_in h4 h5 (sr_Templates out)" "fresh_in h5 h' (sr_VolumeClaimTemplates out)"
    and v: "map_option (h_selectors h1) (sr_Selector out) = map_option (h_selectors h) (sr_Selector sp)"
    "map_option (h_pools h3) (sr_TemplatePool out) = map_option (h_pools h1) (sr_TemplatePool sp)"
    "map_option (h_statuses h4) (sr_Statuses out) = map_option (h_statuses h3) (sr_Statuses sp)"
    "map_option (h_templates h5) (sr_Templates out) = map_option (h_templates h4) (sr_Templates sp)"
    "map_option (h_claims h') (sr_VolumeClaimTemplates out) = map_option (h_claims h5) (sr_VolumeClaimTemplates sp)"
    by (rule TAppSpec_blocks [OF assms])
  note bwd = e(1) extends_trans [OF e(1,2)] extends_trans [OF extends_trans [OF e(1,2)] e(3)]
    extends_trans [OF extends_trans [OF extends_trans [OF e(1,2)] e(3)] e(4)]
  note fwd = extends_trans [OF extends_trans [OF extends_trans [OF e(2,3)] e(4)] e(5)]
    extends_trans [OF extends_trans [OF e(3,4)] e(5)] extends_trans [OF e(4,5)] e(5)
  show "extends h h'" using bwd(4) e(5) by (rule extends_trans)
  then have budgets: "h_budgets h' = h_budgets h" by (simp add: extends_def)
  show "sr_UpdateStrategy out = sr_UpdateStrategy sp" by (subst same) simp
  show "\<forall>a \<in> spec_refs out. h_next h \<le> a \<and> a < h_next h'"
    using fresh_in_mono [OF fr(1) extends_refl fwd(1)] fresh_in_mono [OF fr(2) bwd(1) fwd(2)]
      fresh_in_mono [OF fr(3) bwd(2) fwd(3)] fresh_in_mono [OF fr(4) bwd(3) fwd(4)] fresh_in_mono [OF fr(5) bwd(4) extends_refl]
    by (auto simp: spec_refs_def fresh_in_def)
  have lt: "\<forall>a \<in> set_option (f sp). a < h_next h"
    if "f \<in> {sr_Selector, sr_TemplatePool, sr_Statuses, sr_Templates, sr_VolumeClaimTemplates}" for f
    using ok that by (auto simp: spec_refs_def)
  have below: "\<forall>a \<in> set_option r. a < h_next g'" if "fresh_in g g' r" for g g' r
    using that by (auto simp: fresh_in_def)
  show "spec_of h' out = spec_of h sp"
    by (rule spec_of_cells [OF _ _ _ _ _ budgets same])
      (simp_all add: extends_cells(1) [OF fwd(1) below [OF fr(1)]] extends_cells(2) [OF fwd(2) below [OF fr(2)]]
        extends_cells(3) [OF fwd(3) below [OF fr(3)]] extends_cells(4) [OF fwd(4) below [OF fr(4)]] v
        extends_cells(2) [OF bwd(1) lt] extends_cells(3) [OF bwd(2) lt] extends_cells(4) [OF bwd(3) lt] extends_cells(5) [OF bwd(4) lt])
qed

lemma TAppStatus_copy:
  assumes "TAppStatus_DeepCopyInto st h = (out, h')" "\<forall>a \<in> set_option (tr_Statuses st). distinct (map fst (h_statuses h a))"
  shows "extends h h'" "status_of h' out = status_of h st" "\<forall>a \<in> set_option (tr_Statuses out). h_next h \<le> a \<and> a < h_next h'"
  using assms by (auto simp: TAppStatus_DeepCopyInto_def extends_def status_of_def copy_map_same split: option.splits)

lemma TApp_copy:
  assumes cp: "copies_values cp" and ok: "store_ok h t" "maps_wf h t" and copy: "TApp_DeepCopyInto cp t h = (c, h')"
  shows "extends h h'" "tapp_of h' c = tapp_of h t" "\<forall>a \<in> container_refs c. h_next h \<le> a \<and> a < h_next h'"
    "sr_UpdateStrategy (ar_Spec c) = sr_UpdateStrategy (ar_Spec t)"
proof -
  obtain sp h1 where 1: "TAppSpec_DeepCopyInto cp (ar_Spec t) h = (sp, h1)" by fastforce
  obtain st where 2: "TAppStatus_DeepCopyInto (ar_Status t) h1 = (st, h')"
    and c: "c = \<lparr>ar_Meta = ar_Meta t, ar_Spec = sp, ar_Status = st\<rparr>"
    using copy 1 cp by (auto simp: TApp_DeepCopyInto_def Let_def copies_values_def split: prod.splits)
  have lt: "\<forall>a \<in> spec_refs (ar_Spec t). a < h_next h" "\<forall>a \<in> set_option (tr_Statuses (ar_Status t)). a < h_next h"
    using ok(1) by (auto simp: store_ok_def container_refs_def)
  have wf: "spec_maps_wf h (ar_Spec t)" using ok(2) by (simp add: maps_wf_def)
  note spec = TAppSpec_copy [OF cp lt(1) wf 1]
  have "\<forall>a \<in> set_option (tr_Statuses (ar_Status t)). distinct (map fst (h_statuses h1 a))"
    using ok(2) lt(2) spec(1) by (auto simp: maps_wf_def extends_def)
  note status = TAppStatus_copy [OF 2 this]
  show "extends h h'" using spec(1) status(1) by (rule extends_trans)
  have "status_of h1 (ar_Status t) = status_of h (ar_Status t)"
    using extends_cells(3) [OF spec(1) lt(2)] by (simp add: status_of_def)
  moreover have "spec_of h' sp = spec_of h1 sp"
    using tapp_of_extends [OF status(1), of "\<lparr>ar_Meta = ar_Meta t, ar_Spec = sp, ar_Status = (ar_Status t)\<lparr>tr_Statuses := None\<rparr>\<rparr>"] spec(3)
    by (simp add: store_ok_def container_refs_def tapp_of_def)
  ultimately show "tapp_of h' c = tapp_of h t"
    using spec(2) status(2) by (simp add: tapp_of_def c)
  show "\<forall>a \<in> container_refs c. h_next h \<le> a \<and> a < h_next h'"
    using spec(1,3) status(1,3) by (fastforce simp: container_refs_def c extends_def)
  show "sr_UpdateStrategy (ar_Spec c) = sr_UpdateStrategy (ar_Spec t)" using spec(4) by (simp add: c)
qed

text \<open>What any sequence of writes to cells with addresses in \<open>A\<close> can do to a store.\<close>

definition written :: "nat set \<Rightarrow> store \<Rightarrow> store \<Rightarrow> bool" where
  "written A h h' \<longleftrightarrow> h_budgets h' = h_budgets h \<and>
     (\<forall>a. a \<notin> A \<longrightarrow> h_selectors h' a = h_selectors h a \<and> h_pools h' a = h_pools h a \<and> h_statuses h' a = h_statuses h a \<and>
        h_templates h' a = h_templates h a \<and> h_claims h' a = h_claims h a \<and> h_items h' a = h_items h a)"

lemma tapp_of_written: "written A h h' \<Longrightarrow> A \<inter> container_refs t = {} \<Longrightarrow> tapp_of h' t = tapp_of h t"
  by (auto simp: written_def container_refs_def spec_refs_def tapp_of_def spec_of_def status_of_def
      intro!: option.map_cong split: option.split)

lemma maps_wf_extends: "extends h h' \<Longrightarrow> store_ok h t \<Longrightarrow> maps_wf h t \<Longrightarrow> maps_wf h' t"
  using spec_maps_wf_extends [of h h' "ar_Spec t"]
  by (auto simp: maps_wf_def store_ok_def container_refs_def extends_def)

lemma store_ok_extends: "extends h h' \<Longrightarrow> store_ok h t \<Longrightarrow> store_ok h' t"
  by (auto simp: store_ok_def extends_def)

lemma copy_items_values:
  assumes cp: "copies_values cp"
  shows "copy_items cp ts h = (us, h') \<Longrightarrow> \<forall>t \<in> set ts. store_ok h t \<and> maps_wf h t \<Longrightarrow>
    extends h h' \<and> map (tapp_of h') us = map (tapp_of h) ts \<and> (\<forall>u \<in> set us. \<forall>a \<in> container_refs u. h_next h \<le> a \<and> a < h_next h')"
proof (induction ts arbitrary: h us)
  case Nil
  then show ?case by (simp add: extends_refl)
next
  case (Cons t ts)
  obtain u h1 where 1: "TApp_DeepCopyInto cp t h = (u, h1)" by fastforce
  obtain vs where 2: "copy_items cp ts h1 = (vs, h')" and us: "us = u # vs"
    using Cons.prems(1) 1 by (auto simp: Let_def split: prod.splits)
  have t: "store_ok h t" "maps_wf h t" using Cons.prems(2) by auto
  note u = TApp_copy [OF cp t 1]
  have "\<forall>t \<in> set ts. store_ok h1 t \<and> maps_wf h1 t"
    using Cons.prems(2) store_ok_extends [OF u(1)] maps_wf_extends [OF u(1)] by auto
  note IH = Cons.IH [OF 2 this]
  have "tapp_of h' u = tapp_of h1 u"
    using IH u(3) by (intro tapp_of_extends) (auto simp: store_ok_def)
  moreover have "map (tapp_of h1) ts = map (tapp_of h) ts"
    using Cons.prems(2) tapp_of_extends [OF u(1)] by simp
  ultimately show ?case
    using IH u(1-3) extends_trans [OF u(1)] by (fastforce simp: us extends_def [of _ h1] extends_def [of h1])
qed

theorem TAppList_DeepCopy_values:
  assumes "copies_values cp" "lr_Items l = Some a" "\<forall>t \<in> set (h_items h a). store_ok h t \<and> maps_wf h t"
    "TAppList_DeepCopy cp (Some l) h = (Some out, h')"
  shows "\<exists>b. lr_Items out = Some b \<and> h_next h \<le> b \<and> map (tapp_of h') (h_items h' b) = map (tapp_of h) (h_items h a)"
proof -
  obtain ts h1 where 1: "copy_items cp (h_items h a) (h\<lparr>h_next := Suc (h_next h)\<rparr>) = (ts, h1)" by fastforce
  have tapp_of: "tapp_of (g\<lparr>h_items := x\<rparr>) t = tapp_of g t" "tapp_of (g\<lparr>h_next := n\<rparr>) t = tapp_of g t" for g x n t
    by (simp_all add: tapp_of_def spec_of_def status_of_def split: option.split)
  have "\<forall>t \<in> set (h_items h a). store_ok (h\<lparr>h_next := Suc (h_next h)\<rparr>) t \<and> maps_wf (h\<lparr>h_next := Suc (h_next h)\<rparr>) t"
    using assms(3) by (auto simp: store_ok_def maps_wf_def spec_maps_wf_def less_Suc_eq)
  from copy_items_values [OF assms(1) 1 this] show ?thesis
    using assms(2,4) 1 by (auto simp: TAppList_DeepCopy_def TAppList_DeepCopyInto_def Let_def tapp_of o_def cong: map_cong)
qed

subsection \<open>Sharing\<close>

text \<open>
  The budgets are the exception: the copy points to the same two cells, so a write through one
  pointer is seen by both.
\<close>

theorem TApp_DeepCopy_shares_budgets:
  assumes "copies_values cp" "store_ok h t" "maps_wf h t" "TApp_DeepCopy cp (Some t) h = (Some c, h')"
    "sy_MaxUnavailable (sr_UpdateStrategy (ar_Spec t)) = Some b"
  shows "us_MaxUnavailable (spec_UpdateStrategy (tapp_Spec
    (tapp_of (h'\<lparr>h_budgets := (h_budgets h')(the (sy_MaxUnavailable (sr_UpdateStrategy (ar_Spec c))) := v)\<rparr>) t))) = Some v"
proof -
  have "TApp_DeepCopyInto cp t h = (c, h')"
    using assms(4) by (simp add: TApp_DeepCopy_def Let_def split: prod.splits)
  from TApp_copy(4) [OF assms(1-3) this] show ?thesis
    using assms(5) by (simp add: tapp_of_def spec_of_def)
qed


definition plain_copiers :: copiers where
  "plain_copiers = \<lparr>cp_meta = \<lambda>m. m, cp_selector = \<lambda>s. s, cp_template = \<lambda>t. t, cp_claim = \<lambda>c. c\<rparr>"

definition sampleRef :: TAppRef where
  "sampleRef = \<lparr>ar_Meta = sampleMeta ''web'',
     ar_Spec = \<lparr>sr_Replicas = 2, sr_Selector = None, sr_Template = sampleTemplate ''web:1'', sr_TemplatePool = None,
       sr_Statuses = Some 0, sr_Templates = Some 1,
       sr_UpdateStrategy = \<lparr>sy_Template = '''', sy_MaxUnavailable = Some 0, sy_ForceMaxUnavailable = None\<rparr>,
       sr_ForceDeletePod = False, sr_AutoDeleteUnusedTemplate = False, sr_NeverMigrate = False,
       sr_VolumeClaimTemplates = None, sr_ServiceName = '''', sr_DefaultTemplateName = DefaultTemplateName\<rparr>,
     ar_Status = \<lparr>tr_ObservedGeneration = 0, tr_Replicas = 2, tr_ReadyReplicas = 0, tr_ScaleLabelSelector = '''',
       tr_AppStatus = AppRunning, tr_Statuses = None\<rparr>\<rparr>"

definition sampleStore :: store where
  "sampleStore = \<lparr>h_next = 2, h_selectors = \<lambda>_. undefined, h_pools = \<lambda>_. [], h_statuses = \<lambda>_. [(''0'', InstanceKilled)],
     h_templates = \<lambda>_. [(''0'', ''b'')], h_claims = \<lambda>_. [], h_items = \<lambda>_. [], h_budgets = \<lambda>_. undefined\<rparr>"


end
