(* ===== verification/Force_Deletion.thy ===== *)
theory Force_Deletion
  imports Rollout_Liveness
begin

text \<open>
  When a pod is deleted by force, that is, without waiting for the kubelet of its node: exactly for a dying pod
  to delete whose node is gone or reported not ready, of a TApp that asks for it.
\<close>

subsection \<open>The condition\<close>

text \<open>The first condition of type Ready decides; a node without one counts as healthy.\<close>

definition node_lost :: "node_getter \<Rightarrow> string \<Rightarrow> bool" where
  "node_lost nodeGet name \<longleftrightarrow>
     nodeGet name = Inl NotFound \<or>
     (\<exists>node before c after. nodeGet name = Inr node \<and> node_Conditions node = before @ c # after \<and>
        (\<forall>b \<in> set before. nc_Type b \<noteq> NodeReady) \<and> nc_Type c = NodeReady \<and> nc_Status c \<in> {ConditionFalse, ConditionUnknown})"

definition stuck_pod :: "node_getter \<Rightarrow> TApp \<Rightarrow> Pod \<Rightarrow> bool" where
  "stuck_pod nodeGet tapp pod \<longleftrightarrow>
     spec_ForceDeletePod (tapp_Spec tapp) \<and> om_DeletionTimestamp (pod_Meta pod) \<noteq> None \<and>
     ps_NodeName (pod_Spec pod) \<noteq> '''' \<and> node_lost nodeGet (ps_NodeName (pod_Spec pod))"

lemma find_first: "List.find P xs = Some c \<longleftrightarrow> (\<exists>pre post. xs = pre @ c # post \<and> (\<forall>b \<in> set pre. \<not> P b) \<and> P c)"
proof (induction xs)
  case (Cons x xs)
  show ?case
  proof (cases "P x")
    case True
    have "pre = []" if "x # xs = pre @ c # post" "\<forall>b \<in> set pre. \<not> P b" for pre post
      using that True by (cases pre) auto
    with True show ?thesis by fastforce
  next
    case False
    then have "(\<exists>pre post. x # xs = pre @ c # post \<and> (\<forall>b \<in> set pre. \<not> P b) \<and> P c) \<longleftrightarrow>
        (\<exists>pre post. xs = pre @ c # post \<and> (\<forall>b \<in> set pre. \<not> P b) \<and> P c)"
      by (auto simp: Cons_eq_append_conv) (metis append_Cons set_ConsD)
    with False Cons.IH show ?thesis by simp
  qed
qed simp

lemma needForceDelete_stuck: "needForceDelete nodeGet tapp (Some pod) \<longleftrightarrow> stuck_pod nodeGet tapp pod"
proof (cases "nodeGet (ps_NodeName (pod_Spec pod))")
  case (Inl err)
  then show ?thesis
    by (cases err) (simp_all add: needForceDelete_def stuck_pod_def node_lost_def isPodDying_def IsNotFound_def)
next
  case (Inr node)
  have "node_lost nodeGet (ps_NodeName (pod_Spec pod)) \<longleftrightarrow>
      (\<exists>c. List.find (\<lambda>c. nc_Type c = NodeReady) (node_Conditions node) = Some c \<and> nc_Status c \<in> {ConditionFalse, ConditionUnknown})"
    unfolding find_first node_lost_def Inr by auto
  with Inr show ?thesis
    by (auto simp: needForceDelete_def stuck_pod_def isPodDying_def split: option.split)
qed

subsection \<open>Forced deletions of a plan\<close>

text \<open>Of the pods to delete the stuck ones are deleted by force and no other.\<close>

definition force_sorted :: "node_getter \<Rightarrow> TApp \<Rightarrow> PodAction amap \<Rightarrow> Pod amap \<Rightarrow> sync_plan \<Rightarrow> bool" where
  "force_sorted nodeGet tapp podActions podMap plan \<longleftrightarrow>
     (\<forall>ins \<in> set (plan_forceDel plan). map_of podActions (ins_id ins) = Some deletePod \<and>
        needForceDelete nodeGet tapp (map_of podMap (ins_id ins))) \<and>
     (\<forall>ins \<in> set (plan_del plan). map_of podActions (ins_id ins) = Some recreatePod \<or>
        \<not> needForceDelete nodeGet tapp (map_of podMap (ins_id ins)))"

lemma force_sorted_update:
  "force_sorted nodeGet tapp podActions podMap (ro_plan s) \<Longrightarrow> do_update tapp p s = Inr s' \<Longrightarrow>
     force_sorted nodeGet tapp podActions podMap (ro_plan s')"
  by (auto simp: do_update_def go_bind_result_Inr_iff force_sorted_def plan_step_defs)

context action_table
begin

lemma force_sorted_recreate:
  assumes "map_of podActions p = Some recreatePod" "force_sorted nodeGet tapp podActions podMap (ro_plan s)"
    and "do_recreate tapp (map_of podMap p) p s = Inr s'"
  shows "force_sorted nodeGet tapp podActions podMap (ro_plan s')"
  by (rule delete_instance_made [OF assms(1)]) (use assms in \<open>auto simp: do_recreate_def force_sorted_def plan_step_defs\<close>)

lemma force_sorted_delete_create:
  assumes "force_sorted nodeGet tapp podActions podMap (ro_plan s)" "delete_create_step nodeGet tapp podActions podMap p s = Inr s'"
  shows "force_sorted nodeGet tapp podActions podMap (ro_plan s')"
proof (cases "map_of podActions p = Some deletePod")
  case True
  show ?thesis
    by (rule delete_instance_made [OF True])
      (use assms True in \<open>auto simp: delete_create_step_def force_sorted_def plan_step_defs Let_def split: if_splits\<close>)
next
  case False
  then show ?thesis
    using assms by (auto simp: delete_create_step_def force_sorted_def plan_step_defs go_bind_result_Inr_iff Let_def
        split: option.splits PodAction.splits)
qed

lemma transform_force_sorted:
  assumes "transformPodActions gv nodeGet order1 order2 tapp podActions podMap running = Inr plan"
  shows "force_sorted nodeGet tapp podActions podMap plan"
proof (rule transform_preserves [OF assms])
  show "force_sorted nodeGet tapp podActions podMap (ro_plan start)" by (simp add: force_sorted_def)
next
  fix m p s s' assume "force_sorted nodeGet tapp podActions podMap (ro_plan s)" "force_update_step tapp podActions podMap m p s = Inr s'"
  then show "force_sorted nodeGet tapp podActions podMap (ro_plan s')"
    using force_sorted_update [of nodeGet tapp podActions podMap s p s'] force_sorted_recreate [of p nodeGet s s']
    by (auto simp: force_update_step_def Let_def dest: skip_pod_Inr split: option.splits PodAction.splits if_splits)
next
  fix m p s s' assume "force_sorted nodeGet tapp podActions podMap (ro_plan s)" "rolling_update_step tapp podActions podMap m p s = Inr s'"
  then show "force_sorted nodeGet tapp podActions podMap (ro_plan s')"
    using force_sorted_update [of nodeGet tapp podActions podMap s p s'] force_sorted_recreate [of p nodeGet s s']
    by (auto simp: rolling_update_step_def Let_def dest: skip_pod_Inr split: option.splits PodAction.splits if_splits)
qed (rule force_sorted_delete_create)

end

text \<open>C15. Forced deletion: under any visiting order of the action map, a plan deletes by force exactly the pods to be deleted that are stuck:
  the TApp allows it, the pod is being deleted already and is bound to a node, and that node does not exist or its first Ready
  condition is False or Unknown. Every such pod is deleted by force, and no other pod ever is.\<close>

theorem plan_force_deletes_exactly:
  assumes "instanceToSync spew d gv nodeGet order1 order2 tapp0 pods = Inr plan"
    and "storage_ready tapp0" "tapp = updateTemplateHash spew tapp0"
    and "range_order (nextActions d tapp pods) order1"
  shows "ins_id ` set (plan_forceDel plan) =
    {p. map_of (nextActions d tapp pods) p = Some deletePod \<and>
       (\<exists>pod. map_of (makePodMap pods) p = Some pod \<and> stuck_pod nodeGet tapp0 pod)}"
proof -
  let ?A = "nextActions d tapp pods"
  have result: "transformPodActions gv nodeGet order1 order2 tapp ?A (makePodMap pods) (desiredRunning d tapp) = Inr plan"
    and ready: "storage_ready tapp"
    using assms(1-3) by (simp_all add: instanceToSync_eq Let_def)
  have same: "stuck_pod nodeGet tapp pod = stuck_pod nodeGet tapp0 pod" for pod
    using assms(3) by (simp add: stuck_pod_def updateTemplateHash_def Let_def)
  note sorted = planned.transform_force_sorted [OF result] and kinds = planned.transform_kinds [OF result]
  have stuck: "needForceDelete nodeGet tapp (map_of (makePodMap pods) p) \<longleftrightarrow>
      (\<exists>pod. map_of (makePodMap pods) p = Some pod \<and> stuck_pod nodeGet tapp0 pod)" for p
    by (cases "map_of (makePodMap pods) p") (simp_all add: needForceDelete_stuck same, simp add: needForceDelete_def)
  show ?thesis
    unfolding stuck [symmetric]
  proof (intro equalityI subsetI)
    fix p assume "p \<in> ins_id ` set (plan_forceDel plan)"
    then show "p \<in> {p. map_of ?A p = Some deletePod \<and> needForceDelete nodeGet tapp (map_of (makePodMap pods) p)}"
      using sorted by (auto simp: force_sorted_def)
  next
    fix p assume "p \<in> {p. map_of ?A p = Some deletePod \<and> needForceDelete nodeGet tapp (map_of (makePodMap pods) p)}"
    then have p: "map_of ?A p = Some deletePod" "needForceDelete nodeGet tapp (map_of (makePodMap pods) p)" by auto
    then have "p \<in> touched plan"
      using planned.transform_contents(2) [OF result ready] range_order_Some [OF assms(4) p(1)] by (auto simp: removable_def)
    moreover have "p \<notin> ins_id ` set (plan_update plan)" using p(1) kinds by (auto simp: plan_kinds_def)
    moreover have "p \<notin> ins_id ` set (plan_del plan)" using p sorted by (auto simp: force_sorted_def)
    ultimately show "p \<in> ins_id ` set (plan_forceDel plan)" by (auto simp: touched_def)
  qed
qed

text \<open>A TApp that allows forced deletion, and a pod that is being deleted on a node.\<close>

definition forceTApp :: TApp where
  "forceTApp = (sampleTApp 2)\<lparr>tapp_Spec := (sampleSpec 2)\<lparr>spec_ForceDeletePod := True\<rparr>\<rparr>"

definition dyingPod :: "string \<Rightarrow> Pod" where
  "dyingPod iid = (samplePod iid)\<lparr>pod_Meta := (pod_Meta (samplePod iid))\<lparr>om_DeletionTimestamp := Some 1\<rparr>,
     pod_Spec := (pod_Spec (samplePod iid))\<lparr>ps_NodeName := ''node''\<rparr>\<rparr>"

theorem plan_force_deletes_exactly_witness:
  "let tapp = updateTemplateHash (\<lambda>_. '''') forceTApp; pods = [dyingPod ''0''];
       order = map fst (nextActions True tapp pods)
   in \<exists>plan. instanceToSync (\<lambda>_. '''') True (\<lambda>_ _ _. Inr 1) (\<lambda>_. Inl NotFound) order order forceTApp pods = Inr plan \<and>
     ''0'' \<in> ins_id ` set (plan_forceDel plan)"
proof -
  let ?tapp = "updateTemplateHash (\<lambda>_. '''') forceTApp" and ?pods = "[dyingPod ''0'']"
  let ?order = "map fst (nextActions True ?tapp ?pods)"
  have ready: "storage_ready forceTApp" by (simp add: storage_ready_def forceTApp_def sample_defs)
  obtain plan where plan: "instanceToSync (\<lambda>_. '''') True (\<lambda>_ _ _. Inr 1) (\<lambda>_. Inl NotFound) ?order ?order forceTApp ?pods = Inr plan"
    by (rule instanceToSync_plan [OF ready])
  have index: "getPodIndex (dyingPod i) = Inr i" for i by (simp add: getPodIndex_def dyingPod_def sample_defs)
  then have pod: "map_of (makePodMap ?pods) ''0'' = Some (dyingPod ''0'')" by (simp add: makePodMap_def)
  have "replica_ids forceTApp = replica_ids (sampleTApp 2)" by (simp add: replica_ids_def forceTApp_def sample_defs)
  then have running: "''0'' \<in> desiredRunning True ?tapp"
    by (simp add: getDesiredInstance_def Let_def sample_replica_ids) (auto simp: forceTApp_def sample_defs isTAppFinished_def)
  have "isPodDying (Some (dyingPod ''0''))" by (simp add: isPodDying_def dyingPod_def)
  then have "map_of (nextActions True ?tapp ?pods) ''0'' = Some deletePod"
    unfolding map_of_nextActions next_action_def pod option.case using running by (simp add: runningPodAction_def pod)
  moreover have "stuck_pod (\<lambda>_. Inl NotFound) forceTApp (dyingPod ''0'')"
    by (simp add: stuck_pod_def node_lost_def forceTApp_def dyingPod_def)
  ultimately show ?thesis
    using plan_force_deletes_exactly [OF plan ready refl range_order_nextActions] plan pod unfolding Let_def by blast
qed

end
