(* ===== verification/Lost_Updates.thy ===== *)
theory Lost_Updates
  imports Next_Action_Spec
begin

text \<open>
  What an in-place update leaves behind, as the API server client carries it out (\<^verbatim>\<open>mergePod\<close>), and two kinds of
  changes of a TApp that never reach its pods.
\<close>

subsection \<open>After an in-place update\<close>

lemma annotated_of_template:
  assumes "pod_of_template tapp template iid (ins_pod ins)" "gm_wf (pt_Labels template)"
  shows "GetTemplateHash (pod_Labels (ins_pod (setInPlaceUpdateAnnotation ins))) = GetTemplateHash (pt_Labels template)"
    and "ps_Containers (pod_Spec (ins_pod (setInPlaceUpdateAnnotation ins))) = ps_Containers (pt_Spec template)"
    and "gm_lookup (pod_Labels (ins_pod ins)) TemplateHashKey = gm_lookup (pt_Labels template) TemplateHashKey"
  using made_pod_hashes [OF assms] assms
  by (simp_all add: setInPlaceUpdateAnnotation_def pod_of_template_def hash_key_not_instance_key)

lemma gm_wf_annotated:
  assumes "newInstance tapp iid = Inr (Inr ins)" "gm_wf (pod_Labels (ins_pod ins))"
  shows "gm_wf (pod_Labels (ins_pod (setInPlaceUpdateAnnotation ins)))"
  using assms(2) by (simp add: setInPlaceUpdateAnnotation_def)

text \<open>An in-place update is complete after one merge: the pod has the images of its template, container by container, counts as
  current and needs no further action. Its init containers keep the images they had, so a change of theirs, which leads to an
  in-place update like any other change of images, is lost.\<close>

theorem in_place_update_complete:
  assumes "newInstance tapp iid = Inr (Inr ins)" "storage_ready tapp"
    and "getPodTemplate (tapp_Spec tapp) iid = Inr template" "gm_wf (pt_Labels template)" "gm_wf (pod_Labels (ins_pod ins))"
    and "gm_lookup (pt_Labels template) TemplateHashKey \<noteq> None"
    and "mergePod cur (ins_pod (setInPlaceUpdateAnnotation ins)) = Inr (cur', wanted)"
    and "\<not> isPodDying (Some cur)" "\<not> isPodCompleted cur" "map_of podMap iid = Some cur'"
  shows "runningPodAction tapp podMap iid = None \<and>
    length (ps_Containers (pod_Spec cur')) = length (ps_Containers (pod_Spec cur)) \<and>
    (\<forall>i < length (ps_Containers (pod_Spec cur)). i < length (ps_Containers (pt_Spec template)) \<longrightarrow>
       c_Image (ps_Containers (pod_Spec cur') ! i) = c_Image (ps_Containers (pt_Spec template) ! i)) \<and>
    ps_InitContainers (pod_Spec cur') = ps_InitContainers (pod_Spec cur)"
proof -
  have made: "pod_of_template tapp template iid (ins_pod ins)"
    using newInstance_ok [OF assms(3,2)] assms(1) by (metis Inr_inject)
  note pod = annotated_of_template [OF made assms(4)]
  note merged = mergePod_Inr [OF assms(7) gm_wf_annotated [OF assms(1,5)]]
  have "gm_lookup (pod_Labels cur') TemplateHashKey = gm_lookup (pt_Labels template) TemplateHashKey"
    using merged(3) pod(3) assms(6) by (auto simp: map_add_def setInPlaceUpdateAnnotation_def split: option.splits)
  then have "\<not> isTemplateHashChanged tapp iid cur'"
    by (simp add: isTemplateHashChanged_def GetTemplateHash_def gm_get_def assms(3) Let_def)
  moreover have "\<not> isPodDying (Some cur')" "\<not> isPodCompleted cur'"
    using merged(2,6) assms(8,9) by (simp_all add: isPodDying_def isPodCompleted_def)
  ultimately have "runningPodAction tapp podMap iid = None" using assms(10) by (simp add: runningPodAction_def)
  moreover have "c_Image (ps_Containers (pod_Spec cur') ! i) = c_Image (ps_Containers (pt_Spec template) ! i)"
    if "i < length (ps_Containers (pod_Spec cur))" "i < length (ps_Containers (pt_Spec template))" for i
    using that pod(2) by (simp add: merged(1) nth_merge_containers)
  ultimately show ?thesis by (simp add: merged(1))
qed

subsection \<open>Templates without labels\<close>

text \<open>A template of the pool that has no label map keeps none: its pods carry no hash, and no later revision without labels is
  ever noticed, whatever it changes.\<close>

lemma unlabelled_pool_template:
  assumes "gm_lookup (spec_TemplatePool (tapp_Spec tapp)) name = Some t" "pt_Labels t = None"
  shows "gm_lookup (spec_TemplatePool (tapp_Spec (updateTemplateHash spew tapp))) name = Some t"
proof -
  have "map_of (map (\<lambda>(k, t). (k, if pt_Labels t = None then t else updateHash spew t)) l) name = Some t"
    if "map_of l name = Some t" for l
    using that assms(2) by (induction l) (auto split: if_splits)
  then show ?thesis
    using assms(1) by (cases "spec_TemplatePool (tapp_Spec tapp)") (simp_all add: updateTemplateHash_def Let_def)
qed

theorem unlabelled_revision_unnoticed:
  assumes "getPodTemplateName (spec_Templates (tapp_Spec tapp0)) iid (spec_DefaultTemplateName (tapp_Spec tapp0)) = name"
    and "name \<noteq> DefaultTemplateName" "gm_lookup (spec_TemplatePool (tapp_Spec tapp0)) name = Some t'" "pt_Labels t' = None"
    and "tapp = updateTemplateHash spew tapp0" "gm_lookup (pod_Labels pod) TemplateHashKey = None"
    and "\<not> isPodDying (Some pod)" "\<not> isPodCompleted pod" "map_of podMap iid = Some pod"
  shows "runningPodAction tapp podMap iid = None"
proof -
  have "getPodTemplate (tapp_Spec tapp) iid = Inr t'"
    using assms(1-3) unlabelled_pool_template [OF assms(3,4), of spew] unfolding assms(5)
    by (simp add: getPodTemplate_def)
  then have "\<not> isTemplateHashChanged tapp iid pod"
    using assms(4,6) by (simp add: isTemplateHashChanged_def GetTemplateHash_def gm_get_def Let_def)
  then show ?thesis using assms(7-9) by (simp add: runningPodAction_def)
qed

subsection \<open>After shut-down\<close>

text \<open>A queue that is shut down and empty answers every request at once, and stays so. A worker on it goes on asking, for ever and
  without doing anything else.\<close>

theorem worker_spins_after_shutdown:
  assumes "wq_Get wq q = ((key, True), q)"
  shows "runWorker wq syncHandler n (q, w) = (None, q, w)"
  using assms by (induction n) (simp_all add: worker_iteration_def)

end
