(* ===== verification/Typed_Client.thy ===== *)
theory Typed_Client
  imports Events Registration
begin

text \<open>
  The generated client of the TApp resource: the REST requests of
  \<^verbatim>\<open>pkg/client/clientset/versioned/typed/tappcontroller/v1/tapp.go\<close>, and its fake of
  \<^verbatim>\<open>.../v1/fake/fake_tapp.go\<close>, which hands actions to a tracker.

  A request is the sequence of builder calls the code makes on \<^verbatim>\<open>rest.Interface\<close>; how the library turns
  them into HTTP is a parameter (\<open>rest_client\<close>), and so is the tracker behind the fake (\<open>tracker\<close>).
  Options and patches are the fields the code reads and an opaque rest.
\<close>

subsection \<open>Requests\<close>

record ListOptions =
  lo_LabelSelector :: string
  lo_TimeoutSeconds :: "64 word option"
  lo_Watch :: bool
  lo_rest :: string

datatype rest_params = GetParams string | ListParams ListOptions

datatype rest_body = TAppBody TApp | DeleteOptionsBody "string option" | BytesBody string

datatype rest_call =
    Get | Post | Put | Delete | Patch string
  | Namespace string | Resource string | Name string | SubResource "string list"
  | VersionedParams rest_params | Timeout "64 word" | Body rest_body

record 'lm TAppList =
  tl_ListMeta :: 'lm
  tl_Items :: "TApp list"

text \<open>
  \<^verbatim>\<open>Do().Into(result)\<close> fills the given object as far as it gets and reports an error;
  \<^verbatim>\<open>Do().Error()\<close> and \<^verbatim>\<open>Watch()\<close> are the other two ways to send a request.
\<close>

record ('lm, 'watch, 'w) rest_client =
  rc_IntoTApp :: "rest_call list \<Rightarrow> TApp \<Rightarrow> 'w \<Rightarrow> (TApp \<times> error option) \<times> 'w"
  rc_IntoList :: "rest_call list \<Rightarrow> 'lm TAppList \<Rightarrow> 'w \<Rightarrow> ('lm TAppList \<times> error option) \<times> 'w"
  rc_Error :: "rest_call list \<Rightarrow> 'w \<Rightarrow> error option \<times> 'w"
  rc_Watch :: "rest_call list \<Rightarrow> 'w \<Rightarrow> ('watch \<times> error option) \<times> 'w"
  rc_zeroTApp :: TApp
  rc_zeroListMeta :: 'lm

record ('lm, 'watch, 'w) tApps =
  ta_client :: "('lm, 'watch, 'w) rest_client"
  ta_ns :: string

definition newTApps :: "('lm, 'watch, 'w) rest_client \<Rightarrow> string \<Rightarrow> ('lm, 'watch, 'w) tApps" where
  "newTApps restClient namespace = \<lparr>ta_client = restClient, ta_ns = namespace\<rparr>"

text \<open>\<^verbatim>\<open>time.Duration(*opts.TimeoutSeconds) * time.Second\<close>, in 64 bits; zero without a timeout.\<close>

definition list_timeout :: "ListOptions \<Rightarrow> 64 word" where
  "list_timeout opts = (case lo_TimeoutSeconds opts of None \<Rightarrow> 0 | Some s \<Rightarrow> s * 1000000000)"

definition tApps_Get :: "('lm, 'watch, 'w) tApps \<Rightarrow> string \<Rightarrow> string \<Rightarrow> 'w \<Rightarrow> (TApp \<times> error option) \<times> 'w" where
  "tApps_Get c name options = rc_IntoTApp (ta_client c)
     [Get, Namespace (ta_ns c), Resource ''tapps'', Name name, VersionedParams (GetParams options)]
     (rc_zeroTApp (ta_client c))"

definition tApps_List :: "('lm, 'watch, 'w) tApps \<Rightarrow> ListOptions \<Rightarrow> 'w \<Rightarrow> ('lm TAppList \<times> error option) \<times> 'w" where
  "tApps_List c opts = rc_IntoList (ta_client c)
     [Get, Namespace (ta_ns c), Resource ''tapps'', VersionedParams (ListParams opts), Timeout (list_timeout opts)]
     \<lparr>tl_ListMeta = rc_zeroListMeta (ta_client c), tl_Items = []\<rparr>"

definition tApps_Watch :: "('lm, 'watch, 'w) tApps \<Rightarrow> ListOptions \<Rightarrow> 'w \<Rightarrow> ('watch \<times> error option) \<times> 'w" where
  "tApps_Watch c opts =
     (let timeout = list_timeout opts; opts = opts\<lparr>lo_Watch := True\<rparr>
      in rc_Watch (ta_client c)
           [Get, Namespace (ta_ns c), Resource ''tapps'', VersionedParams (ListParams opts), Timeout timeout])"

definition tApps_Create :: "('lm, 'watch, 'w) tApps \<Rightarrow> TApp \<Rightarrow> 'w \<Rightarrow> (TApp \<times> error option) \<times> 'w" where
  "tApps_Create c tApp = rc_IntoTApp (ta_client c)
     [Post, Namespace (ta_ns c), Resource ''tapps'', Body (TAppBody tApp)] (rc_zeroTApp (ta_client c))"

definition tApps_Update :: "('lm, 'watch, 'w) tApps \<Rightarrow> TApp \<Rightarrow> 'w \<Rightarrow> (TApp \<times> error option) \<times> 'w" where
  "tApps_Update c tApp = rc_IntoTApp (ta_client c)
     [Put, Namespace (ta_ns c), Resource ''tapps'', Name (om_Name (tapp_Meta tApp)), Body (TAppBody tApp)]
     (rc_zeroTApp (ta_client c))"

definition tApps_UpdateStatus :: "('lm, 'watch, 'w) tApps \<Rightarrow> TApp \<Rightarrow> 'w \<Rightarrow> (TApp \<times> error option) \<times> 'w" where
  "tApps_UpdateStatus c tApp = rc_IntoTApp (ta_client c)
     [Put, Namespace (ta_ns c), Resource ''tapps'', Name (om_Name (tapp_Meta tApp)), SubResource [''status''], Body (TAppBody tApp)]
     (rc_zeroTApp (ta_client c))"

definition tApps_Delete :: "('lm, 'watch, 'w) tApps \<Rightarrow> string \<Rightarrow> string option \<Rightarrow> 'w \<Rightarrow> error option \<times> 'w" where
  "tApps_Delete c name options = rc_Error (ta_client c)
     [Delete, Namespace (ta_ns c), Resource ''tapps'', Name name, Body (DeleteOptionsBody options)]"

definition tApps_DeleteCollection :: "('lm, 'watch, 'w) tApps \<Rightarrow> string option \<Rightarrow> ListOptions \<Rightarrow> 'w \<Rightarrow> error option \<times> 'w" where
  "tApps_DeleteCollection c options listOptions = rc_Error (ta_client c)
     [Delete, Namespace (ta_ns c), Resource ''tapps'', VersionedParams (ListParams listOptions),
      Timeout (list_timeout listOptions), Body (DeleteOptionsBody options)]"

definition tApps_Patch :: "('lm, 'watch, 'w) tApps \<Rightarrow> string \<Rightarrow> string \<Rightarrow> string \<Rightarrow> string list \<Rightarrow> 'w \<Rightarrow> (TApp \<times> error option) \<times> 'w" where
  "tApps_Patch c name pt data subresources = rc_IntoTApp (ta_client c)
     [Patch pt, Namespace (ta_ns c), Resource ''tapps'', SubResource subresources, Name name, Body (BytesBody data)]
     (rc_zeroTApp (ta_client c))"

lemmas tApps_defs [model_defs] =
  tApps_Get_def tApps_List_def tApps_Watch_def tApps_Create_def tApps_Update_def tApps_UpdateStatus_def
  tApps_Delete_def tApps_DeleteCollection_def tApps_Patch_def

subsection \<open>Reading a request back\<close>

text \<open>
  The operations as values, what a client sends for each (the client here only records the builder
  calls), and the reading of the record, as a server would do it.
\<close>

datatype operation =
    OpGet string string | OpList ListOptions | OpWatch ListOptions | OpCreate TApp | OpUpdate TApp | OpUpdateStatus TApp
  | OpDelete string "string option" | OpDeleteCollection "string option" ListOptions | OpPatch string string string "string list"

datatype sending = Into | Error | Watch

definition recorder :: "TApp \<Rightarrow> (unit, unit, (sending \<times> rest_call list) list) rest_client" where
  "recorder zero = \<lparr>rc_IntoTApp = \<lambda>r obj w. ((obj, None), w @ [(Into, r)]), rc_IntoList = \<lambda>r obj w. ((obj, None), w @ [(Into, r)]),
     rc_Error = \<lambda>r w. (None, w @ [(Error, r)]), rc_Watch = \<lambda>r w. (((), None), w @ [(Watch, r)]),
     rc_zeroTApp = zero, rc_zeroListMeta = ()\<rparr>"

fun perform_op :: "(unit, unit, 'w) tApps \<Rightarrow> operation \<Rightarrow> 'w \<Rightarrow> 'w" where
  "perform_op c (OpGet n q) w = snd (tApps_Get c n q w)"
| "perform_op c (OpList q) w = snd (tApps_List c q w)"
| "perform_op c (OpWatch q) w = snd (tApps_Watch c q w)"
| "perform_op c (OpCreate t) w = snd (tApps_Create c t w)"
| "perform_op c (OpUpdate t) w = snd (tApps_Update c t w)"
| "perform_op c (OpUpdateStatus t) w = snd (tApps_UpdateStatus c t w)"
| "perform_op c (OpDelete n q) w = snd (tApps_Delete c n q w)"
| "perform_op c (OpDeleteCollection q l) w = snd (tApps_DeleteCollection c q l w)"
| "perform_op c (OpPatch n p d s) w = snd (tApps_Patch c n p d s w)"

fun params_of :: "rest_call list \<Rightarrow> rest_params option" where
  "params_of [] = None"
| "params_of (VersionedParams p # _) = Some p"
| "params_of (_ # r) = params_of r"

fun name_of :: "rest_call list \<Rightarrow> string option" where
  "name_of [] = None"
| "name_of (Name n # _) = Some n"
| "name_of (_ # r) = name_of r"

fun subresources_of :: "rest_call list \<Rightarrow> string list" where
  "subresources_of [] = []"
| "subresources_of (SubResource s # _) = s"
| "subresources_of (_ # r) = subresources_of r"

fun body_of :: "rest_call list \<Rightarrow> rest_body option" where
  "body_of [] = None"
| "body_of (Body b # _) = Some b"
| "body_of (_ # r) = body_of r"

fun namespace_of :: "rest_call list \<Rightarrow> string option" where
  "namespace_of [] = None"
| "namespace_of (Namespace n # _) = Some n"
| "namespace_of (_ # r) = namespace_of r"

definition decode_request :: "sending \<times> rest_call list \<Rightarrow> operation option" where
  "decode_request sr = (case sr of (s, r) \<Rightarrow>
     (case (s, hd r, name_of r, params_of r, subresources_of r, body_of r) of
        (Into, Get, Some n, Some (GetParams p), [], None) \<Rightarrow> Some (OpGet n p)
      | (Into, Get, None, Some (ListParams p), [], None) \<Rightarrow> Some (OpList p)
      | (Watch, Get, None, Some (ListParams p), [], None) \<Rightarrow> Some (OpWatch p)
      | (Into, Post, None, None, [], Some (TAppBody t)) \<Rightarrow> Some (OpCreate t)
      | (Into, Put, Some n, None, s, Some (TAppBody t)) \<Rightarrow>
          (if n \<noteq> om_Name (tapp_Meta t) then None else if s = [] then Some (OpUpdate t)
           else if s = [''status''] then Some (OpUpdateStatus t) else None)
      | (Error, Delete, Some n, None, [], Some (DeleteOptionsBody b)) \<Rightarrow> Some (OpDelete n b)
      | (Error, Delete, None, Some (ListParams l), [], Some (DeleteOptionsBody b)) \<Rightarrow> Some (OpDeleteCollection b l)
      | (Into, Patch p, Some n, None, s, Some (BytesBody d)) \<Rightarrow> Some (OpPatch n p d s)
      | _ \<Rightarrow> None))"

text \<open>What arrives: a watch always carries \<^verbatim>\<open>Watch: true\<close>.\<close>

fun received :: "operation \<Rightarrow> operation" where
  "received (OpWatch q) = OpWatch (q\<lparr>lo_Watch := True\<rparr>)"
| "received op = op"

subsection \<open>The fake client\<close>

text \<open>
  \<^verbatim>\<open>Fake.Invokes\<close> takes an action and a default object and returns an object of any type, or nil, with an
  error; the callers assert its type. \<^verbatim>\<open>ExtractFromListOptions\<close> gives the label selector, or nil.
\<close>

record GroupVersionResource =
  gvr_Group :: string
  gvr_Version :: string
  gvr_Resource :: string

definition tappsResource :: GroupVersionResource where
  "tappsResource = \<lparr>gvr_Group = ''tappcontroller.k8s.io'', gvr_Version = ''v1'', gvr_Resource = ''tapps''\<rparr>"

datatype tracker_action =
    GetAction GroupVersionResource string string | ListAction GroupVersionResource string ListOptions
  | WatchAction GroupVersionResource string ListOptions | CreateAction GroupVersionResource string TApp
  | UpdateAction GroupVersionResource string TApp | UpdateSubresourceAction GroupVersionResource string string TApp
  | DeleteAction GroupVersionResource string string | DeleteCollectionAction GroupVersionResource string ListOptions
  | PatchSubresourceAction GroupVersionResource string string string string "string list"

datatype 'lm runtime_object = TAppObject TApp | TAppListObject "'lm TAppList" | OtherObject

record ('lm, 'watch, 'w) tracker =
  tk_Invokes :: "tracker_action \<Rightarrow> 'w \<Rightarrow> ('lm runtime_object option \<times> error option) \<times> 'w"
  tk_InvokesWatch :: "tracker_action \<Rightarrow> 'w \<Rightarrow> ('watch \<times> error option) \<times> 'w"
  tk_selectorOf :: "ListOptions \<Rightarrow> selector option"
  tk_everything :: selector

text \<open>\<^verbatim>\<open>if obj == nil { return nil, err }; return obj.(*TApp), err\<close>\<close>

definition assert_TApp :: "('lm runtime_object option \<times> error option) \<times> 'w \<Rightarrow> ((TApp option \<times> error option) \<times> 'w) go" where
  "assert_TApp r = (case r of ((obj, err), w) \<Rightarrow>
     (case obj of
        None \<Rightarrow> Inr ((None, err), w)
      | Some (TAppObject t) \<Rightarrow> Inr ((Some t, err), w)
      | Some _ \<Rightarrow> Inl TypeAssertion))"

definition FakeTApps_Get :: "('lm, 'watch, 'w) tracker \<Rightarrow> string \<Rightarrow> string \<Rightarrow> 'w \<Rightarrow> ((TApp option \<times> error option) \<times> 'w) go" where
  "FakeTApps_Get tk ns name w = assert_TApp (tk_Invokes tk (GetAction tappsResource ns name) w)"

definition FakeTApps_List :: "('lm, 'watch, 'w) tracker \<Rightarrow> string \<Rightarrow> ListOptions \<Rightarrow> 'w \<Rightarrow> (('lm TAppList option \<times> error option) \<times> 'w) go" where
  "FakeTApps_List tk ns opts w =
     (case tk_Invokes tk (ListAction tappsResource ns opts) w of ((obj, err), w1) \<Rightarrow>
       (case obj of
          None \<Rightarrow> Inr ((None, err), w1)
        | Some (TAppListObject l) \<Rightarrow>
            (let label = (case tk_selectorOf tk opts of None \<Rightarrow> tk_everything tk | Some s \<Rightarrow> s);
                 items = fold (\<lambda>item ret. if sel_Matches label (om_Labels (tapp_Meta item)) then ret @ [item] else ret) (tl_Items l) []
             in Inr ((Some \<lparr>tl_ListMeta = tl_ListMeta l, tl_Items = items\<rparr>, err), w1))
        | Some _ \<Rightarrow> Inl TypeAssertion))"

definition FakeTApps_Watch :: "('lm, 'watch, 'w) tracker \<Rightarrow> string \<Rightarrow> ListOptions \<Rightarrow> 'w \<Rightarrow> ('watch \<times> error option) \<times> 'w" where
  "FakeTApps_Watch tk ns opts w = tk_InvokesWatch tk (WatchAction tappsResource ns opts) w"

definition FakeTApps_Create :: "('lm, 'watch, 'w) tracker \<Rightarrow> string \<Rightarrow> TApp \<Rightarrow> 'w \<Rightarrow> ((TApp option \<times> error option) \<times> 'w) go" where
  "FakeTApps_Create tk ns tApp w = assert_TApp (tk_Invokes tk (CreateAction tappsResource ns tApp) w)"

definition FakeTApps_Update :: "('lm, 'watch, 'w) tracker \<Rightarrow> string \<Rightarrow> TApp \<Rightarrow> 'w \<Rightarrow> ((TApp option \<times> error option) \<times> 'w) go" where
  "FakeTApps_Update tk ns tApp w = assert_TApp (tk_Invokes tk (UpdateAction tappsResource ns tApp) w)"

definition FakeTApps_UpdateStatus :: "('lm, 'watch, 'w) tracker \<Rightarrow> string \<Rightarrow> TApp \<Rightarrow> 'w \<Rightarrow> ((TApp option \<times> error option) \<times> 'w) go" where
  "FakeTApps_UpdateStatus tk ns tApp w = assert_TApp (tk_Invokes tk (UpdateSubresourceAction tappsResource ''status'' ns tApp) w)"

definition FakeTApps_Delete :: "('lm, 'watch, 'w) tracker \<Rightarrow> string \<Rightarrow> string \<Rightarrow> 'w \<Rightarrow> error option \<times> 'w" where
  "FakeTApps_Delete tk ns name w = (case tk_Invokes tk (DeleteAction tappsResource ns name) w of ((_, err), w1) \<Rightarrow> (err, w1))"

definition FakeTApps_DeleteCollection :: "('lm, 'watch, 'w) tracker \<Rightarrow> string \<Rightarrow> ListOptions \<Rightarrow> 'w \<Rightarrow> error option \<times> 'w" where
  "FakeTApps_DeleteCollection tk ns listOptions w =
     (case tk_Invokes tk (DeleteCollectionAction tappsResource ns listOptions) w of ((_, err), w1) \<Rightarrow> (err, w1))"

definition FakeTApps_Patch :: "('lm, 'watch, 'w) tracker \<Rightarrow> string \<Rightarrow> string \<Rightarrow> string \<Rightarrow> string \<Rightarrow> string list \<Rightarrow> 'w \<Rightarrow> ((TApp option \<times> error option) \<times> 'w) go" where
  "FakeTApps_Patch tk ns name pt data subresources w =
     assert_TApp (tk_Invokes tk (PatchSubresourceAction tappsResource ns name pt data subresources) w)"

subsection \<open>Properties\<close>

text \<open>
  The fake asks its tracker for the group \<^verbatim>\<open>tappcontroller.k8s.io\<close>, while the resource is registered under
  \<^verbatim>\<open>apps.tkestack.io\<close>.
\<close>

theorem fake_group_differs: "gvr_Group tappsResource \<noteq> GroupName"
  by (simp add: tappsResource_def GroupName_def)

lemma fold_filter_snoc: "fold (\<lambda>x ret. if P x then ret @ [x] else ret) xs acc = acc @ filter P xs"
  by (induction xs arbitrary: acc) auto

text \<open>A list of the fake holds the tracker's items the selector matches, in the tracker's order.\<close>

theorem FakeTApps_List_filters:
  assumes "tk_Invokes tk (ListAction tappsResource ns opts) w = ((Some (TAppListObject l), err), w1)"
    and "tk_selectorOf tk opts = Some sel"
  shows "FakeTApps_List tk ns opts w =
    Inr ((Some (l\<lparr>tl_Items := filter (\<lambda>t. sel_Matches sel (om_Labels (tapp_Meta t))) (tl_Items l)\<rparr>), err), w1)"
  using assms by (simp add: FakeTApps_List_def Let_def fold_filter_snoc)

text \<open>Every operation of the generated client sends one request, from which the operation and all its
  arguments can be read back: no two operations are confused, the status update goes to the status
  subresource of the object it carries, and a watch asks for \<^verbatim>\<open>Watch: true\<close>.\<close>

theorem tApps_requests_decode:
  "\<exists>s r. perform_op (newTApps (recorder zero) ns) op w = w @ [(s, r)] \<and> namespace_of r = Some ns \<and>
     Resource ''tapps'' \<in> set r \<and> decode_request (s, r) = Some (received op)"
  by (cases op) (simp_all add: tApps_defs newTApps_def recorder_def decode_request_def Let_def)

text \<open>The timeout of a list, watch or bulk deletion is the requested number of seconds in nanoseconds exactly up
  to 9223372036 seconds in either direction; beyond that the 64-bit product wraps and is wrong.\<close>

theorem list_timeout_exact:
  assumes "lo_TimeoutSeconds opts = Some secs"
  shows "sint (list_timeout opts) = sint secs * 1000000000 \<longleftrightarrow> - 9223372036 \<le> sint secs \<and> sint secs \<le> 9223372036"
proof -
  have "sint (list_timeout opts) = signed_take_bit 63 (sint secs * 1000000000)"
    using assms by (simp add: list_timeout_def sint_word_ariths(3))
  then have "sint (list_timeout opts) = sint secs * 1000000000 \<longleftrightarrow>
      - (2 ^ 63) \<le> sint secs * 1000000000 \<and> sint secs * 1000000000 < 2 ^ 63"
    by (simp only: signed_take_bit_int_eq_self_iff)
  also have "\<dots> \<longleftrightarrow> - 9223372036 \<le> sint secs \<and> sint secs \<le> 9223372036" (is "?l \<longleftrightarrow> ?r")
  proof
    show ?r if ?l using that by (intro conjI; elim conjE; simp)
    show ?l if ?r using that by (intro conjI; elim conjE; simp)
  qed
  finally show ?thesis .
qed

theorem list_timeout_exact_witness:
  "sint (list_timeout \<lparr>lo_LabelSelector = '''', lo_TimeoutSeconds = Some 30, lo_Watch = False, lo_rest = ''''\<rparr>) = 30000000000 \<and>
   sint (list_timeout \<lparr>lo_LabelSelector = '''', lo_TimeoutSeconds = Some 10000000000, lo_Watch = False, lo_rest = ''''\<rparr>) \<noteq>
     10000000000000000000"
  using list_timeout_exact [of "\<lparr>lo_LabelSelector = '''', lo_TimeoutSeconds = Some 30, lo_Watch = False, lo_rest = ''''\<rparr>" 30]
    list_timeout_exact [of "\<lparr>lo_LabelSelector = '''', lo_TimeoutSeconds = Some 10000000000, lo_Watch = False, lo_rest = ''''\<rparr>" 10000000000]
  by simp

end
