(* ===== verification/Informer_Factory.thy ===== *)
theory Informer_Factory
  imports Typed_Client
begin

text \<open>
  The generated informer factory: \<^verbatim>\<open>factory.go\<close> and \<^verbatim>\<open>generic.go\<close> of
  \<^verbatim>\<open>pkg/client/informers/externalversions\<close>, and the TApp informer of \<^verbatim>\<open>.../tappcontroller/v1/tapp.go\<close>.

  An informer itself (\<^verbatim>\<open>cache.SharedIndexInformer\<close>) belongs to client-go: it is a value of a type \<open>'i\<close> made by
  a function that may change a world \<open>'w\<close>. Types are named by strings (\<^verbatim>\<open>reflect.TypeOf\<close>). The maps of the
  factory are made by its constructor and never nil; the order in which \<^verbatim>\<open>range\<close> visits one is a list
  argument. Every operation holds the lock, so it is one step.
\<close>

subsection \<open>The factory\<close>

type_synonym tweak = "ListOptions \<Rightarrow> ListOptions"

record ('c, 'i) sharedInformerFactory =
  sf_client :: 'c
  sf_namespace :: string
  sf_tweakListOptions :: "tweak option"
  sf_defaultResync :: int
  sf_customResync :: "string \<rightharpoonup> int"
  sf_informers :: "string \<rightharpoonup> 'i"
  sf_startedInformers :: "string \<rightharpoonup> bool"

type_synonym ('c, 'i) SharedInformerOption = "('c, 'i) sharedInformerFactory \<Rightarrow> ('c, 'i) sharedInformerFactory"

text \<open>The configuration in the order in which it is visited; objects of one type may occur in it more than once.\<close>

definition WithCustomResyncConfig :: "(string \<times> int) list \<Rightarrow> ('c, 'i) SharedInformerOption" where
  "WithCustomResyncConfig resyncConfig factory =
     fold (\<lambda>(k, v) f. f\<lparr>sf_customResync := (sf_customResync f)(k \<mapsto> v)\<rparr>) resyncConfig factory"

definition WithTweakListOptions :: "tweak option \<Rightarrow> ('c, 'i) SharedInformerOption" where
  "WithTweakListOptions tweakListOptions factory = factory\<lparr>sf_tweakListOptions := tweakListOptions\<rparr>"

definition WithNamespace :: "string \<Rightarrow> ('c, 'i) SharedInformerOption" where
  "WithNamespace namespace factory = factory\<lparr>sf_namespace := namespace\<rparr>"

definition NewSharedInformerFactoryWithOptions :: "'c \<Rightarrow> int \<Rightarrow> ('c, 'i) SharedInformerOption list \<Rightarrow> ('c, 'i) sharedInformerFactory" where
  "NewSharedInformerFactoryWithOptions client defaultResync options =
     fold (\<lambda>opt factory. opt factory) options
       \<lparr>sf_client = client, sf_namespace = '''', sf_tweakListOptions = None, sf_defaultResync = defaultResync,
        sf_customResync = Map.empty, sf_informers = Map.empty, sf_startedInformers = Map.empty\<rparr>"

definition NewSharedInformerFactory :: "'c \<Rightarrow> int \<Rightarrow> ('c, 'i) sharedInformerFactory" where
  "NewSharedInformerFactory client defaultResync = NewSharedInformerFactoryWithOptions client defaultResync []"

definition NewFilteredSharedInformerFactory :: "'c \<Rightarrow> int \<Rightarrow> string \<Rightarrow> tweak option \<Rightarrow> ('c, 'i) sharedInformerFactory" where
  "NewFilteredSharedInformerFactory client defaultResync namespace tweakListOptions =
     NewSharedInformerFactoryWithOptions client defaultResync [WithNamespace namespace, WithTweakListOptions tweakListOptions]"

text \<open>\<^verbatim>\<open>f.startedInformers[informerType]\<close>: false when absent.\<close>

definition is_started :: "('c, 'i) sharedInformerFactory \<Rightarrow> string \<Rightarrow> bool" where
  "is_started f ty = (case sf_startedInformers f ty of None \<Rightarrow> False | Some b \<Rightarrow> b)"

text \<open>Start: the goroutines it launches (\<^verbatim>\<open>go informer.Run(stopCh)\<close>) and the factory afterwards.\<close>

fun start_loop :: "string list \<Rightarrow> ('c, 'i) sharedInformerFactory \<Rightarrow> (string \<times> 'i) list \<times> ('c, 'i) sharedInformerFactory" where
  "start_loop [] f = ([], f)"
| "start_loop (ty # tys) f =
     (case sf_informers f ty of
        None \<Rightarrow> start_loop tys f
      | Some informer \<Rightarrow>
          if \<not> is_started f ty
          then let (rs, f1) = start_loop tys (f\<lparr>sf_startedInformers := (sf_startedInformers f)(ty \<mapsto> True)\<rparr>)
               in ((ty, informer) # rs, f1)
          else start_loop tys f)"

definition Start :: "string list \<Rightarrow> ('c, 'i) sharedInformerFactory \<Rightarrow> (string \<times> 'i) list \<times> ('c, 'i) sharedInformerFactory" where
  "Start order f = start_loop order f"

text \<open>
  \<^verbatim>\<open>WaitForCacheSync\<close>: the started informers are collected under the lock, then each is waited for;
  \<open>wait\<close> is \<^verbatim>\<open>cache.WaitForCacheSync(stopCh, informer.HasSynced)\<close>.
\<close>

definition started_informers :: "string list \<Rightarrow> ('c, 'i) sharedInformerFactory \<Rightarrow> (string \<times> 'i) list" where
  "started_informers order f =
     concat (map (\<lambda>ty. case sf_informers f ty of None \<Rightarrow> [] | Some i \<Rightarrow> if is_started f ty then [(ty, i)] else []) order)"

definition WaitForCacheSync :: "('i \<Rightarrow> 'w \<Rightarrow> bool \<times> 'w) \<Rightarrow> string list \<Rightarrow> ('c, 'i) sharedInformerFactory \<Rightarrow> 'w \<Rightarrow> (string \<rightharpoonup> bool) \<times> 'w" where
  "WaitForCacheSync wait order f w =
     fold (\<lambda>(ty, i) (res, w). let (b, w1) = wait i w in (res(ty \<mapsto> b), w1)) (started_informers order f) (Map.empty, w)"

definition InformerFor :: "string \<Rightarrow> ('c \<Rightarrow> int \<Rightarrow> 'w \<Rightarrow> 'i \<times> 'w) \<Rightarrow> ('c, 'i) sharedInformerFactory \<Rightarrow> 'w \<Rightarrow> 'i \<times> ('c, 'i) sharedInformerFactory \<times> 'w" where
  "InformerFor informerType newFunc f w =
     (case sf_informers f informerType of
        Some informer \<Rightarrow> (informer, f, w)
      | None \<Rightarrow>
          (let resyncPeriod = (case sf_customResync f informerType of None \<Rightarrow> sf_defaultResync f | Some d \<Rightarrow> d);
               (informer, w1) = newFunc (sf_client f) resyncPeriod w
           in (informer, f\<lparr>sf_informers := (sf_informers f)(informerType \<mapsto> informer)\<rparr>, w1)))"

subsection \<open>The TApp informer\<close>

text \<open>
  The closures \<^verbatim>\<open>ListFunc\<close> and \<^verbatim>\<open>WatchFunc\<close> over the client, the namespace and the tweak;
  \<open>mk\<close> stands for \<^verbatim>\<open>cache.NewSharedIndexInformer\<close>, with the indexers by name.
\<close>

record ('lm, 'watch, 'w) ListWatch =
  lw_ListFunc :: "ListOptions \<Rightarrow> 'w \<Rightarrow> ('lm TAppList \<times> error option) \<times> 'w"
  lw_WatchFunc :: "ListOptions \<Rightarrow> 'w \<Rightarrow> ('watch \<times> error option) \<times> 'w"

definition apply_tweak :: "tweak option \<Rightarrow> ListOptions \<Rightarrow> ListOptions" where
  "apply_tweak tw options = (case tw of None \<Rightarrow> options | Some f \<Rightarrow> f options)"

definition NewFilteredTAppInformer ::
  "(('lm, 'watch, 'w) ListWatch \<Rightarrow> int \<Rightarrow> string list \<Rightarrow> 'w \<Rightarrow> 'i \<times> 'w) \<Rightarrow> ('lm, 'watch, 'w) rest_client \<Rightarrow>
   string \<Rightarrow> int \<Rightarrow> string list \<Rightarrow> tweak option \<Rightarrow> 'w \<Rightarrow> 'i \<times> 'w" where
  "NewFilteredTAppInformer mk client namespace resyncPeriod indexers tweakListOptions =
     mk \<lparr>lw_ListFunc = \<lambda>options. tApps_List (newTApps client namespace) (apply_tweak tweakListOptions options),
           lw_WatchFunc = \<lambda>options. tApps_Watch (newTApps client namespace) (apply_tweak tweakListOptions options)\<rparr>
       resyncPeriod indexers"

definition NewTAppInformer ::
  "(('lm, 'watch, 'w) ListWatch \<Rightarrow> int \<Rightarrow> string list \<Rightarrow> 'w \<Rightarrow> 'i \<times> 'w) \<Rightarrow> ('lm, 'watch, 'w) rest_client \<Rightarrow>
   string \<Rightarrow> int \<Rightarrow> string list \<Rightarrow> 'w \<Rightarrow> 'i \<times> 'w" where
  "NewTAppInformer mk client namespace resyncPeriod indexers =
     NewFilteredTAppInformer mk client namespace resyncPeriod indexers None"

definition defaultInformer ::
  "(('lm, 'watch, 'w) ListWatch \<Rightarrow> int \<Rightarrow> string list \<Rightarrow> 'w \<Rightarrow> 'i \<times> 'w) \<Rightarrow> string \<Rightarrow> tweak option \<Rightarrow>
   ('lm, 'watch, 'w) rest_client \<Rightarrow> int \<Rightarrow> 'w \<Rightarrow> 'i \<times> 'w" where
  "defaultInformer mk namespace tweakListOptions client resyncPeriod =
     NewFilteredTAppInformer mk client namespace resyncPeriod [''namespace''] tweakListOptions"

text \<open>\<^verbatim>\<open>f.Tappcontroller().V1().TApps().Informer()\<close>: the group, version and informer objects only carry the
  namespace and the tweak of the factory.\<close>

definition tAppInformer_Informer ::
  "(('lm, 'watch, 'w) ListWatch \<Rightarrow> int \<Rightarrow> string list \<Rightarrow> 'w \<Rightarrow> 'i \<times> 'w) \<Rightarrow>
   (('lm, 'watch, 'w) rest_client, 'i) sharedInformerFactory \<Rightarrow> 'w \<Rightarrow>
   'i \<times> (('lm, 'watch, 'w) rest_client, 'i) sharedInformerFactory \<times> 'w" where
  "tAppInformer_Informer mk f =
     InformerFor ''*v1.TApp'' (defaultInformer mk (sf_namespace f) (sf_tweakListOptions f)) f"

definition ForResource ::
  "(('lm, 'watch, 'w) ListWatch \<Rightarrow> int \<Rightarrow> string list \<Rightarrow> 'w \<Rightarrow> 'i \<times> 'w) \<Rightarrow> GroupVersionResource \<Rightarrow>
   (('lm, 'watch, 'w) rest_client, 'i) sharedInformerFactory \<Rightarrow> 'w \<Rightarrow>
   (error + 'i \<times> string \<times> string) \<times> (('lm, 'watch, 'w) rest_client, 'i) sharedInformerFactory \<times> 'w" where
  "ForResource mk resource f w =
     (if resource = \<lparr>gvr_Group = GroupName, gvr_Version = ''v1'', gvr_Resource = ''tapps''\<rparr>
      then (let (i, f1, w1) = tAppInformer_Informer mk f w in (Inr (i, gvr_Group resource, gvr_Resource resource), f1, w1))
      else (Inl (Errorf (''no informer found for '' @ gvr_Group resource @ ''/'' @ gvr_Version resource @ '', Resource='' @ gvr_Resource resource)), f, w))"

lemmas factory_defs [model_defs] =
  WithCustomResyncConfig_def WithTweakListOptions_def WithNamespace_def NewSharedInformerFactoryWithOptions_def
  NewSharedInformerFactory_def NewFilteredSharedInformerFactory_def Start_def started_informers_def
  InformerFor_def tAppInformer_Informer_def ForResource_def

subsection \<open>Runs of a factory\<close>

text \<open>
  What callers can observe of a factory: the informers handed out and the goroutines launched. A step is one
  call, with any newFunc and any visiting order.
\<close>

record ('c, 'i, 'w) factory_run =
  fr_factory :: "('c, 'i) sharedInformerFactory"
  fr_world :: 'w
  fr_given :: "(string \<times> 'i) list"
  fr_running :: "(string \<times> 'i) list"

inductive factory_step :: "('c, 'i, 'w) factory_run \<Rightarrow> ('c, 'i, 'w) factory_run \<Rightarrow> bool" where
  informer: "InformerFor ty newFunc (fr_factory s) (fr_world s) = (i, f, w) \<Longrightarrow>
    factory_step s (s\<lparr>fr_factory := f, fr_world := w, fr_given := fr_given s @ [(ty, i)]\<rparr>)"
| start: "distinct order \<Longrightarrow> set order = dom (sf_informers (fr_factory s)) \<Longrightarrow> Start order (fr_factory s) = (rs, f) \<Longrightarrow>
    factory_step s (s\<lparr>fr_factory := f, fr_running := fr_running s @ rs\<rparr>)"
| await: "WaitForCacheSync wait order (fr_factory s) (fr_world s) = (res, w) \<Longrightarrow> factory_step s (s\<lparr>fr_world := w\<rparr>)"

inductive_cases factory_stepE: "factory_step s t"

definition fresh_factory :: "('c, 'i) sharedInformerFactory \<Rightarrow> bool" where
  "fresh_factory f \<longleftrightarrow> sf_informers f = Map.empty \<and> sf_startedInformers f = Map.empty"

definition factory_inv :: "('c, 'i, 'w) factory_run \<Rightarrow> bool" where
  "factory_inv s \<longleftrightarrow> distinct (map fst (fr_running s)) \<and>
     (\<forall>ty i. (ty, i) \<in> set (fr_running s) \<union> set (fr_given s) \<longrightarrow> sf_informers (fr_factory s) ty = Some i) \<and>
     (\<forall>ty. is_started (fr_factory s) ty \<longleftrightarrow> ty \<in> fst ` set (fr_running s)) \<and>
     dom (sf_informers (fr_factory s)) = fst ` set (fr_given s)"

lemma is_started_upd [simp]:
  "is_started (f\<lparr>sf_startedInformers := (sf_startedInformers f)(ty \<mapsto> True)\<rparr>) ty' \<longleftrightarrow> ty' = ty \<or> is_started f ty'"
  "is_started (f\<lparr>sf_informers := m\<rparr>) ty' = is_started f ty'"
  by (simp_all add: is_started_def)

lemma start_loop_runs:
  assumes "start_loop order f = (rs, f')" "distinct order"
  shows "sf_informers f' = sf_informers f"
    and "set rs = {(ty, i). ty \<in> set order \<and> sf_informers f ty = Some i \<and> \<not> is_started f ty}"
    and "distinct (map fst rs)"
    and "is_started f' ty \<longleftrightarrow> is_started f ty \<or> ty \<in> fst ` set rs"
proof -
  have "sf_informers f' = sf_informers f \<and> set rs = {(ty, i). ty \<in> set order \<and> sf_informers f ty = Some i \<and> \<not> is_started f ty} \<and>
      distinct (map fst rs) \<and> (\<forall>ty. is_started f' ty \<longleftrightarrow> is_started f ty \<or> ty \<in> fst ` set rs)"
    using assms
  proof (induction order f arbitrary: rs f' rule: start_loop.induct)
    case (1 f)
    then show ?case by auto
  next
    case (2 ty tys f)
    consider (skip) "start_loop tys f = (rs, f')" "sf_informers f ty = None \<or> is_started f ty"
      | (run) i rs' where "sf_informers f ty = Some i" "\<not> is_started f ty" "rs = (ty, i) # rs'"
          "start_loop tys (f\<lparr>sf_startedInformers := (sf_startedInformers f)(ty \<mapsto> True)\<rparr>) = (rs', f')"
      using "2.prems"(1) by (auto simp: Let_def split: option.splits if_splits prod.splits)
    then show ?case
    proof cases
      case skip
      then have "sf_informers f' = sf_informers f \<and> set rs = {(ty, i). ty \<in> set tys \<and> sf_informers f ty = Some i \<and> \<not> is_started f ty} \<and>
          distinct (map fst rs) \<and> (\<forall>ty. is_started f' ty \<longleftrightarrow> is_started f ty \<or> ty \<in> fst ` set rs)"
        using "2.IH"(1) [OF _ skip(1)] "2.IH"(3) [OF _ _ skip(1)] "2.prems"(2) by (cases "sf_informers f ty") simp_all
      with skip(2) show ?thesis by auto
    next
      case run
      from "2.IH"(2) [OF run(1,2,4)] "2.prems"(2) have
        "sf_informers f' = sf_informers f"
        "set rs' = {(ty', i). ty' \<in> set tys \<and> sf_informers f ty' = Some i \<and> \<not> (ty' = ty \<or> is_started f ty')}"
        "distinct (map fst rs')" "\<forall>ty'. is_started f' ty' \<longleftrightarrow> (ty' = ty \<or> is_started f ty') \<or> ty' \<in> fst ` set rs'"
        by simp_all
      with run(1-3) "2.prems"(2) show ?thesis by (auto simp: image_iff)
    qed
  qed
  then show "sf_informers f' = sf_informers f"
    "set rs = {(ty, i). ty \<in> set order \<and> sf_informers f ty = Some i \<and> \<not> is_started f ty}"
    "distinct (map fst rs)" "is_started f' ty \<longleftrightarrow> is_started f ty \<or> ty \<in> fst ` set rs"
    by simp_all
qed

lemma InformerFor_result:
  assumes "InformerFor ty newFunc f w = (i, f', w')"
  shows "sf_informers f' ty = Some i" "sf_informers f \<subseteq>\<^sub>m sf_informers f'"
    "dom (sf_informers f') = insert ty (dom (sf_informers f))" "is_started f' ty' = is_started f ty'"
  using assms by (auto simp: InformerFor_def Let_def map_le_def split: option.splits prod.splits)

lemma factory_inv_step: "factory_step s t \<Longrightarrow> factory_inv s \<Longrightarrow> factory_inv t"
proof (induction rule: factory_step.induct)
  case (informer ty newFunc s i f w)
  note r = InformerFor_result [OF informer.hyps]
  have keep: "sf_informers f ty' = Some j" if "sf_informers (fr_factory s) ty' = Some j" for ty' j
    using r(2) that by (auto simp: map_le_def dom_def)
  show ?case using informer.prems r(1,3,4) keep by (auto simp: factory_inv_def)
next
  case (start order s rs f)
  note r = start_loop_runs [OF start.hyps(3) [unfolded Start_def] start.hyps(1)]
  have "fst ` set (fr_running s) \<inter> fst ` set rs = {}"
    using start.prems unfolding r(2) factory_inv_def by force
  with start.prems r start.hyps(2) show ?case by (auto simp: factory_inv_def)
next
  case (await wait order s res w)
  then show ?case by (simp add: factory_inv_def)
qed

lemma factory_inv_reachable:
  assumes "factory_step\<^sup>*\<^sup>* s t" "fresh_factory (fr_factory s)" "fr_given s = []" "fr_running s = []"
  shows "factory_inv t"
  using assms(1)
proof induction
  case base
  show ?case using assms(2-4) by (simp add: factory_inv_def fresh_factory_def is_started_def)
next
  case (step t u)
  then show ?case by (blast intro: factory_inv_step)
qed

lemma factory_run_start:
  assumes inv: "factory_inv s" and order: "distinct order" "set order = dom (sf_informers (fr_factory s))"
    and run: "Start order (fr_factory s) = (rs, f)"
  shows "set (fr_running s @ rs) = set (fr_given s)" "distinct (map fst (fr_running s @ rs))"
proof -
  have t: "factory_inv (s\<lparr>fr_factory := f, fr_running := fr_running s @ rs\<rparr>)"
    using factory_inv_step [OF factory_step.start [OF order run] inv] .
  then show "distinct (map fst (fr_running s @ rs))" by (simp add: factory_inv_def)
  note r = start_loop_runs(1,2) [OF run [unfolded Start_def] order(1)]
  have "(ty, i) \<in> set (fr_given s)" if "(ty, i) \<in> set (fr_running s @ rs)" for ty i
  proof -
    have i: "sf_informers f ty = Some i" using t that unfolding factory_inv_def by fastforce
    then have "ty \<in> fst ` set (fr_given s)" using inv r(1) unfolding factory_inv_def by (metis domI)
    then obtain j where "(ty, j) \<in> set (fr_given s)" by auto
    with inv i r(1) show ?thesis by (auto simp: factory_inv_def)
  qed
  moreover have "(ty, i) \<in> set (fr_running s @ rs)" if "(ty, i) \<in> set (fr_given s)" for ty i
  proof -
    have i: "sf_informers (fr_factory s) ty = Some i" using inv that by (auto simp: factory_inv_def)
    show ?thesis
    proof (cases "is_started (fr_factory s) ty")
      case True
      then obtain j where "(ty, j) \<in> set (fr_running s)" using inv by (auto simp: factory_inv_def)
      with inv i show ?thesis by (auto simp: factory_inv_def)
    next
      case False
      with i order(2) r(2) show ?thesis by auto
    qed
  qed
  ultimately show "set (fr_running s @ rs) = set (fr_given s)" by auto
qed

text \<open>\<^verbatim>\<open>WaitForCacheSync\<close> reports on exactly the started informers.\<close>

lemma wait_fold_dom: "dom (fst (fold (\<lambda>(ty, i) (res, w). let (b, w1) = wait i w in (res(ty \<mapsto> b), w1)) l (m, w))) = dom m \<union> fst ` set l"
  by (induction l arbitrary: m w) (auto simp: Let_def split: prod.splits)

lemma set_started_informers:
  "set (started_informers order f) = {(ty, i). ty \<in> set order \<and> sf_informers f ty = Some i \<and> is_started f ty}"
  by (auto simp: started_informers_def split: option.splits if_splits)

text \<open>C35. Whatever sequence of InformerFor, Start and WaitForCacheSync calls is made on a new factory, callers that
  ask for the same type share one informer, no informer is run twice, only informers that were asked
  for are run, and the next call of Start leaves every one of them running exactly once.
  WaitForCacheSync then reports on exactly those.\<close>

theorem informers_shared_and_run_once:
  assumes reach: "factory_step\<^sup>*\<^sup>* s0 s" and new: "fr_factory s0 = NewSharedInformerFactory client resync" "fr_given s0 = []" "fr_running s0 = []"
    and order: "distinct order" "set order = dom (sf_informers (fr_factory s))" "Start order (fr_factory s) = (rs, f)"
  shows "(\<forall>ty i j. (ty, i) \<in> set (fr_given s) \<and> (ty, j) \<in> set (fr_given s) \<longrightarrow> i = j) \<and>
    distinct (map fst (fr_running s @ rs)) \<and> set (fr_running s) \<subseteq> set (fr_given s) \<and> set (fr_running s @ rs) = set (fr_given s) \<and>
    dom (fst (WaitForCacheSync wait order f w)) = fst ` set (fr_given s)"
proof -
  have inv: "factory_inv s"
    using factory_inv_reachable [OF reach _ new(2,3)] new(1)
    by (simp add: fresh_factory_def NewSharedInformerFactory_def NewSharedInformerFactoryWithOptions_def)
  note run = factory_run_start [OF inv order]
  have t: "factory_inv (s\<lparr>fr_factory := f, fr_running := fr_running s @ rs\<rparr>)"
    using factory_inv_step [OF factory_step.start [OF order] inv] .
  have "fst ` set (started_informers order f) = fst ` set (fr_given s)"
    using t run(1) order(2) inv unfolding set_started_informers factory_inv_def by (force simp: image_iff)
  then have "dom (fst (WaitForCacheSync wait order f w)) = fst ` set (fr_given s)"
    unfolding WaitForCacheSync_def wait_fold_dom by simp
  moreover have "\<forall>ty i j. (ty, i) \<in> set (fr_given s) \<and> (ty, j) \<in> set (fr_given s) \<longrightarrow> i = j"
    using inv unfolding factory_inv_def by (metis UnCI option.inject)
  ultimately show ?thesis using run by auto
qed

text \<open>Two callers ask for the TApp informer, one for another, with informers numbered by a counter.\<close>

definition counted :: "unit \<Rightarrow> int \<Rightarrow> nat \<Rightarrow> nat \<times> nat" where
  "counted c d n = (n, Suc n)"

definition sampleRun :: "(unit, nat, nat) factory_run" where
  "sampleRun = \<lparr>fr_factory = NewSharedInformerFactory () 30, fr_world = 0, fr_given = [], fr_running = []\<rparr>"

definition askFor :: "string \<Rightarrow> (unit, nat, nat) factory_run \<Rightarrow> (unit, nat, nat) factory_run" where
  "askFor ty s = (case InformerFor ty counted (fr_factory s) (fr_world s) of
     (i, f, w) \<Rightarrow> s\<lparr>fr_factory := f, fr_world := w, fr_given := fr_given s @ [(ty, i)]\<rparr>)"

lemma askFor_step: "factory_step s (askFor ty s)"
  by (cases "InformerFor ty counted (fr_factory s) (fr_world s)") (simp add: askFor_def factory_step.informer)

theorem informers_shared_and_run_once_witness:
  "fr_given (askFor ''a'' (askFor ''b'' (askFor ''a'' sampleRun))) = [(''a'', 0), (''b'', 1), (''a'', 0)] \<and>
   set (fst (Start [''a'', ''b''] (fr_factory (askFor ''a'' (askFor ''b'' (askFor ''a'' sampleRun)))))) = {(''a'', 0), (''b'', 1)} \<and>
   dom (fst (WaitForCacheSync (\<lambda>i w. (True, w)) [''a'', ''b'']
     (snd (Start [''a'', ''b''] (fr_factory (askFor ''a'' (askFor ''b'' (askFor ''a'' sampleRun))))) ) ())) = {''a'', ''b''}"
proof -
  let ?s = "askFor ''a'' (askFor ''b'' (askFor ''a'' sampleRun))"
  have given: "fr_given ?s = [(''a'', 0), (''b'', 1), (''a'', 0)]" "fr_running ?s = []"
      "dom (sf_informers (fr_factory ?s)) = {''a'', ''b''}"
    by (simp_all add: askFor_def sampleRun_def factory_defs counted_def insert_commute)
  have "factory_step\<^sup>*\<^sup>* sampleRun ?s"
    by (meson askFor_step r_into_rtranclp rtranclp_trans)
  from informers_shared_and_run_once [OF this, of "()" 30 "[''a'', ''b'']" "fst (Start [''a'', ''b''] (fr_factory ?s))"
      "snd (Start [''a'', ''b''] (fr_factory ?s))" "\<lambda>i w. (True, w)" "()"] given
  show ?thesis by (simp add: sampleRun_def insert_commute)
qed

end
