(* ===== verification/Client_Sets.thy ===== *)
theory Client_Sets
  imports Informer_Factory Complex_Main
begin

text \<open>
  The generated client set: how the clients of the TApp group are built from a configuration
  (\<^verbatim>\<open>pkg/client/clientset/versioned/clientset.go\<close> and \<^verbatim>\<open>.../typed/tappcontroller/v1/tappcontroller_client.go\<close>), its
  fake, the types it registers (\<^verbatim>\<open>register.go\<close> of the API group and of the two schemes), and the objects
  between the informer factory and an informer or a lister.

  The REST and discovery clients, the rate limiter, the schemes and the object tracker belong to the library: they are
  values of type parameters made by the functions of \<open>client_go\<close>, \<open>scheme_ops\<close> and \<open>tracker_ops\<close>, which may change a
  world \<open>'w\<close>. A nil pointer is \<open>None\<close>; a panic carries its error, or is a nil dereference. The rate limit is a real number (a 32-bit float in the code, only
  compared with zero and passed on).
\<close>

subsection \<open>The API group\<close>

record GroupVersion =
  gv_Group :: string
  gv_Version :: string

record GroupKind =
  gk_Group :: string
  gk_Kind :: string

record GroupResource =
  gr_Group :: string
  gr_Resource :: string

definition SchemeGroupVersion :: GroupVersion where
  "SchemeGroupVersion = \<lparr>gv_Group = GroupName, gv_Version = ''v1''\<rparr>"

definition Kind :: "string \<Rightarrow> GroupKind" where
  "Kind kind = \<lparr>gk_Group = gv_Group SchemeGroupVersion, gk_Kind = kind\<rparr>"

definition qualified_Resource :: "string \<Rightarrow> GroupResource" where
  "qualified_Resource resource = \<lparr>gr_Group = gv_Group SchemeGroupVersion, gr_Resource = resource\<rparr>"

text \<open>A scheme, by the two operations the code uses; \<open>so_Run\<close> is \<^verbatim>\<open>SchemeBuilder.AddToScheme\<close>.\<close>

record 's scheme_ops =
  so_AddKnownTypes :: "GroupVersion \<Rightarrow> string list \<Rightarrow> 's \<Rightarrow> 's"
  so_AddToGroupVersion :: "GroupVersion \<Rightarrow> 's \<Rightarrow> 's"
  so_Run :: "('s \<Rightarrow> error option \<times> 's) list \<Rightarrow> 's \<Rightarrow> error option \<times> 's"

definition addKnownTypes :: "'s scheme_ops \<Rightarrow> 's \<Rightarrow> error option \<times> 's" where
  "addKnownTypes ops scheme =
     (None, so_AddToGroupVersion ops SchemeGroupVersion
              (so_AddKnownTypes ops SchemeGroupVersion [''TApp'', ''TAppList''] scheme))"

definition group_AddToScheme :: "'s scheme_ops \<Rightarrow> 's \<Rightarrow> error option \<times> 's" where
  "group_AddToScheme ops = so_Run ops [addKnownTypes ops]"

datatype setup_panic = NilPointer | Panicked error

text \<open>The scheme of the client set and of its fake: their \<^verbatim>\<open>init\<close> functions are the same, \<^verbatim>\<open>utilruntime.Must\<close> panics on an error.\<close>

definition scheme_AddToScheme :: "'s scheme_ops \<Rightarrow> 's \<Rightarrow> error option \<times> 's" where
  "scheme_AddToScheme ops = so_Run ops [group_AddToScheme ops]"

definition scheme_init :: "'s scheme_ops \<Rightarrow> 's \<Rightarrow> setup_panic + 's" where
  "scheme_init ops scheme =
     (case scheme_AddToScheme ops (so_AddToGroupVersion ops \<lparr>gv_Group = '''', gv_Version = ''v1''\<rparr> scheme) of
        (Some err, s) \<Rightarrow> Inl (Panicked err)
      | (None, s) \<Rightarrow> Inr s)"

subsection \<open>The typed client\<close>

record 'rl rest_Config =
  cf_Host :: string
  cf_GroupVersion :: "GroupVersion option"
  cf_APIPath :: string
  cf_NegotiatedSerializer :: "string option"
  cf_UserAgent :: string
  cf_RateLimiter :: "'rl option"
  cf_QPS :: real
  cf_Burst :: int

record ('rl, 'rest, 'disc, 'w) client_go =
  cg_DefaultKubernetesUserAgent :: string
  cg_NewTokenBucketRateLimiter :: "real \<Rightarrow> int \<Rightarrow> 'w \<Rightarrow> 'rl \<times> 'w"
  cg_RESTClientFor :: "'rl rest_Config \<Rightarrow> 'w \<Rightarrow> 'rest result \<times> 'w"
  cg_NewDiscoveryClientForConfig :: "'rl rest_Config \<Rightarrow> 'w \<Rightarrow> 'disc result \<times> 'w"
  cg_NewDiscoveryClient :: "'rest \<Rightarrow> 'w \<Rightarrow> 'disc \<times> 'w"

definition setConfigDefaults :: "('rl, 'rest, 'disc, 'w) client_go \<Rightarrow> 'rl rest_Config \<Rightarrow> 'rl rest_Config" where
  "setConfigDefaults cg config =
     (let config1 = config\<lparr>cf_GroupVersion := Some SchemeGroupVersion, cf_APIPath := ''/apis'',
            cf_NegotiatedSerializer := Some ''DirectCodecFactory''\<rparr>
      in if cf_UserAgent config1 = '''' then config1\<lparr>cf_UserAgent := cg_DefaultKubernetesUserAgent cg\<rparr> else config1)"

record 'rest TappcontrollerV1Client =
  tc_restClient :: 'rest

definition typed_NewForConfig ::
  "('rl, 'rest, 'disc, 'w) client_go \<Rightarrow> 'rl rest_Config option \<Rightarrow> 'w \<Rightarrow> setup_panic + 'rest TappcontrollerV1Client result \<times> 'w" where
  "typed_NewForConfig cg c w =
     (case c of
        None \<Rightarrow> Inl NilPointer
      | Some config \<Rightarrow>
          (case cg_RESTClientFor cg (setConfigDefaults cg config) w of
             (Inl err, w1) \<Rightarrow> Inr (Inl err, w1)
           | (Inr client, w1) \<Rightarrow> Inr (Inr \<lparr>tc_restClient = client\<rparr>, w1)))"

definition typed_NewForConfigOrDie ::
  "('rl, 'rest, 'disc, 'w) client_go \<Rightarrow> 'rl rest_Config option \<Rightarrow> 'w \<Rightarrow> setup_panic + 'rest TappcontrollerV1Client \<times> 'w" where
  "typed_NewForConfigOrDie cg c w =
     (case typed_NewForConfig cg c w of
        Inl p \<Rightarrow> Inl p
      | Inr (Inl err, w1) \<Rightarrow> Inl (Panicked err)
      | Inr (Inr client, w1) \<Rightarrow> Inr (client, w1))"

definition typed_New :: "'rest \<Rightarrow> 'rest TappcontrollerV1Client" where
  "typed_New c = \<lparr>tc_restClient = c\<rparr>"

text \<open>A nil client has a nil REST client.\<close>

definition typed_RESTClient :: "'rest TappcontrollerV1Client option \<Rightarrow> 'rest option" where
  "typed_RESTClient c = (case c of None \<Rightarrow> None | Some client \<Rightarrow> Some (tc_restClient client))"

definition typed_TApps :: "('lm, 'watch, 'w) rest_client TappcontrollerV1Client \<Rightarrow> string \<Rightarrow> ('lm, 'watch, 'w) tApps" where
  "typed_TApps c namespace = newTApps (tc_restClient c) namespace"

subsection \<open>The client set\<close>

record ('rest, 'disc) Clientset =
  cs_DiscoveryClient :: 'disc
  cs_tappcontrollerV1 :: "'rest TappcontrollerV1Client"

text \<open>Reading a field of a nil client set panics; \<^verbatim>\<open>Discovery\<close> checks for nil first.\<close>

definition Clientset_TappcontrollerV1 :: "('rest, 'disc) Clientset option \<Rightarrow> setup_panic + 'rest TappcontrollerV1Client" where
  "Clientset_TappcontrollerV1 c = (case c of None \<Rightarrow> Inl NilPointer | Some cs \<Rightarrow> Inr (cs_tappcontrollerV1 cs))"

definition Clientset_Discovery :: "('rest, 'disc) Clientset option \<Rightarrow> 'disc option" where
  "Clientset_Discovery c = (case c of None \<Rightarrow> None | Some cs \<Rightarrow> Some (cs_DiscoveryClient cs))"

definition NewForConfig ::
  "('rl, 'rest, 'disc, 'w) client_go \<Rightarrow> 'rl rest_Config option \<Rightarrow> 'w \<Rightarrow> setup_panic + ('rest, 'disc) Clientset result \<times> 'w" where
  "NewForConfig cg c w =
     (case c of
        None \<Rightarrow> Inl NilPointer
      | Some config \<Rightarrow>
          (let (configShallowCopy, w1) =
                 (if cf_RateLimiter config = None \<and> 0 < cf_QPS config
                  then (case cg_NewTokenBucketRateLimiter cg (cf_QPS config) (cf_Burst config) w of
                          (limiter, w1) \<Rightarrow> (config\<lparr>cf_RateLimiter := Some limiter\<rparr>, w1))
                  else (config, w))
           in case typed_NewForConfig cg (Some configShallowCopy) w1 of
                Inl p \<Rightarrow> Inl p
              | Inr (Inl err, w2) \<Rightarrow> Inr (Inl err, w2)
              | Inr (Inr typed, w2) \<Rightarrow>
                  (case cg_NewDiscoveryClientForConfig cg configShallowCopy w2 of
                     (Inl err, w3) \<Rightarrow> Inr (Inl err, w3)
                   | (Inr disc, w3) \<Rightarrow> Inr (Inr \<lparr>cs_DiscoveryClient = disc, cs_tappcontrollerV1 = typed\<rparr>, w3))))"

text \<open>\<^verbatim>\<open>NewDiscoveryClientForConfigOrDie\<close> is \<^verbatim>\<open>NewDiscoveryClientForConfig\<close> with a panic on its error.\<close>

definition NewForConfigOrDie ::
  "('rl, 'rest, 'disc, 'w) client_go \<Rightarrow> 'rl rest_Config option \<Rightarrow> 'w \<Rightarrow> setup_panic + ('rest, 'disc) Clientset \<times> 'w" where
  "NewForConfigOrDie cg c w =
     (case typed_NewForConfigOrDie cg c w of
        Inl p \<Rightarrow> Inl p
      | Inr (typed, w1) \<Rightarrow>
          (case c of
             None \<Rightarrow> Inl NilPointer
           | Some config \<Rightarrow>
               (case cg_NewDiscoveryClientForConfig cg config w1 of
                  (Inl err, w2) \<Rightarrow> Inl (Panicked err)
                | (Inr disc, w2) \<Rightarrow> Inr (\<lparr>cs_DiscoveryClient = disc, cs_tappcontrollerV1 = typed\<rparr>, w2))))"

definition New :: "('rl, 'rest, 'disc, 'w) client_go \<Rightarrow> 'rest \<Rightarrow> 'w \<Rightarrow> ('rest, 'disc) Clientset \<times> 'w" where
  "New cg c w =
     (case cg_NewDiscoveryClient cg c w of
        (disc, w1) \<Rightarrow> (\<lparr>cs_DiscoveryClient = disc, cs_tappcontrollerV1 = typed_New c\<rparr>, w1))"

subsection \<open>The fake client set\<close>

text \<open>An object tracker: adding an object, and what the two reactors of the client set ask of it.\<close>

record ('obj, 'action, 'ret, 'watch, 'w) tracker_ops =
  to_Add :: "'obj \<Rightarrow> 'w \<Rightarrow> error option \<times> 'w"
  to_ObjectReaction :: "'action \<Rightarrow> 'w \<Rightarrow> (bool \<times> 'ret option \<times> error option) \<times> 'w"
  to_Watch :: "string \<Rightarrow> string \<Rightarrow> 'w \<Rightarrow> 'watch result \<times> 'w"
  to_resource :: "'action \<Rightarrow> string"
  to_namespace :: "'action \<Rightarrow> string"

record ('action, 'ret, 'watch, 'w) fake_Clientset =
  fc_ReactionChain :: "(string \<times> string \<times> ('action \<Rightarrow> 'w \<Rightarrow> (bool \<times> 'ret option \<times> error option) \<times> 'w)) list"
  fc_WatchReactionChain :: "(string \<times> ('action \<Rightarrow> 'w \<Rightarrow> (bool \<times> 'watch option \<times> error option) \<times> 'w)) list"

fun add_objects :: "('obj, 'action, 'ret, 'watch, 'w) tracker_ops \<Rightarrow> 'obj list \<Rightarrow> 'w \<Rightarrow> setup_panic + 'w" where
  "add_objects tk [] w = Inr w"
| "add_objects tk (obj # objects) w =
     (case to_Add tk obj w of (Some err, w1) \<Rightarrow> Inl (Panicked err) | (None, w1) \<Rightarrow> add_objects tk objects w1)"

definition watch_reactor ::
  "('obj, 'action, 'ret, 'watch, 'w) tracker_ops \<Rightarrow> 'action \<Rightarrow> 'w \<Rightarrow> (bool \<times> 'watch option \<times> error option) \<times> 'w" where
  "watch_reactor tk action w =
     (let gvr = to_resource tk action; ns = to_namespace tk action
      in case to_Watch tk gvr ns w of
           (Inl err, w1) \<Rightarrow> ((False, None, Some err), w1)
         | (Inr watch, w1) \<Rightarrow> ((True, Some watch, None), w1))"

definition NewSimpleClientset ::
  "('obj, 'action, 'ret, 'watch, 'w) tracker_ops \<Rightarrow> 'obj list \<Rightarrow> 'w \<Rightarrow>
   setup_panic + ('action, 'ret, 'watch, 'w) fake_Clientset \<times> 'w" where
  "NewSimpleClientset tk objects w =
     (case add_objects tk objects w of
        Inl p \<Rightarrow> Inl p
      | Inr w1 \<Rightarrow> Inr (\<lparr>fc_ReactionChain = [(''*'', ''*'', to_ObjectReaction tk)],
            fc_WatchReactionChain = [(''*'', watch_reactor tk)]\<rparr>, w1))"

text \<open>The interface value \<^verbatim>\<open>(*FakeTappcontrollerV1).RESTClient\<close> returns: a nil pointer in a non-nil interface.\<close>

datatype 'a interface = NilInterface | Holding "'a option"

definition fake_RESTClient :: "'rest interface" where
  "fake_RESTClient = (let ret = None in Holding ret)"

lemmas client_set_defs [model_defs] =
  SchemeGroupVersion_def Kind_def qualified_Resource_def addKnownTypes_def group_AddToScheme_def scheme_AddToScheme_def
  scheme_init_def setConfigDefaults_def typed_NewForConfig_def typed_NewForConfigOrDie_def typed_New_def
  typed_RESTClient_def typed_TApps_def Clientset_TappcontrollerV1_def Clientset_Discovery_def NewForConfig_def
  NewForConfigOrDie_def New_def watch_reactor_def NewSimpleClientset_def fake_RESTClient_def

subsection \<open>Between the factory and an informer\<close>

text \<open>The objects \<^verbatim>\<open>group\<close>, \<^verbatim>\<open>version\<close> and \<^verbatim>\<open>tAppInformer\<close>: each holds the factory, the namespace and the tweak. The factory
  changes and is shared, so it is passed along instead of being a field.\<close>

record informer_access =
  ia_namespace :: string
  ia_tweakListOptions :: "tweak option"

definition group_New :: "string \<Rightarrow> tweak option \<Rightarrow> informer_access" where
  "group_New namespace tweakListOptions = \<lparr>ia_namespace = namespace, ia_tweakListOptions = tweakListOptions\<rparr>"

definition factory_Tappcontroller :: "('c, 'i) sharedInformerFactory \<Rightarrow> informer_access" where
  "factory_Tappcontroller f = group_New (sf_namespace f) (sf_tweakListOptions f)"

definition version_New :: "string \<Rightarrow> tweak option \<Rightarrow> informer_access" where
  "version_New namespace tweakListOptions = \<lparr>ia_namespace = namespace, ia_tweakListOptions = tweakListOptions\<rparr>"

definition group_V1 :: "informer_access \<Rightarrow> informer_access" where
  "group_V1 g = version_New (ia_namespace g) (ia_tweakListOptions g)"

definition version_TApps :: "informer_access \<Rightarrow> informer_access" where
  "version_TApps v = \<lparr>ia_namespace = ia_namespace v, ia_tweakListOptions = ia_tweakListOptions v\<rparr>"

definition access_Informer ::
  "(('lm, 'watch, 'w) ListWatch \<Rightarrow> int \<Rightarrow> string list \<Rightarrow> 'w \<Rightarrow> 'i \<times> 'w) \<Rightarrow> informer_access \<Rightarrow>
   (('lm, 'watch, 'w) rest_client, 'i) sharedInformerFactory \<Rightarrow> 'w \<Rightarrow>
   'i \<times> (('lm, 'watch, 'w) rest_client, 'i) sharedInformerFactory \<times> 'w" where
  "access_Informer mk a f = InformerFor ''*v1.TApp'' (defaultInformer mk (ia_namespace a) (ia_tweakListOptions a)) f"

text \<open>A lister reads the indexer of an informer (\<open>getIndexer\<close>), which it gets first.\<close>

record 'ix tAppLister =
  tl_indexer :: 'ix

definition NewTAppLister :: "'ix \<Rightarrow> 'ix tAppLister" where
  "NewTAppLister indexer = \<lparr>tl_indexer = indexer\<rparr>"

definition access_Lister ::
  "(('lm, 'watch, 'w) ListWatch \<Rightarrow> int \<Rightarrow> string list \<Rightarrow> 'w \<Rightarrow> 'i \<times> 'w) \<Rightarrow> ('i \<Rightarrow> 'ix) \<Rightarrow> informer_access \<Rightarrow>
   (('lm, 'watch, 'w) rest_client, 'i) sharedInformerFactory \<Rightarrow> 'w \<Rightarrow>
   'ix tAppLister \<times> (('lm, 'watch, 'w) rest_client, 'i) sharedInformerFactory \<times> 'w" where
  "access_Lister mk getIndexer a f w =
     (case access_Informer mk a f w of (informer, f1, w1) \<Rightarrow> (NewTAppLister (getIndexer informer), f1, w1))"

text \<open>\<^verbatim>\<open>cache.ListAll\<close> visits the matching objects of the indexer and may fail on the way.\<close>

definition tAppLister_List :: "('ix \<Rightarrow> 'sel \<Rightarrow> TApp list \<times> error option) \<Rightarrow> 'ix tAppLister \<Rightarrow> 'sel \<Rightarrow> TApp list \<times> error option" where
  "tAppLister_List listAll s selector =
     (case listAll (tl_indexer s) selector of (visited, err) \<Rightarrow> (fold (\<lambda>m ret. ret @ [m]) visited [], err))"

definition tAppLister_TApps :: "'ix tAppLister \<Rightarrow> string \<Rightarrow> 'ix \<times> string" where
  "tAppLister_TApps s namespace = (tl_indexer s, namespace)"

text \<open>The informer of \<^verbatim>\<open>ForResource\<close> with its resource; \<open>mkLister\<close> is \<^verbatim>\<open>cache.NewGenericLister\<close>.\<close>

record 'i genericInformer =
  gi_informer :: 'i
  gi_resource :: GroupResource

definition genericInformer_Informer :: "'i genericInformer \<Rightarrow> 'i" where
  "genericInformer_Informer f = gi_informer f"

definition genericInformer_Lister :: "('ix \<Rightarrow> GroupResource \<Rightarrow> 'l) \<Rightarrow> ('i \<Rightarrow> 'ix) \<Rightarrow> 'i genericInformer \<Rightarrow> 'l" where
  "genericInformer_Lister mkLister getIndexer f = mkLister (getIndexer (genericInformer_Informer f)) (gi_resource f)"

lemmas access_defs [model_defs] =
  group_New_def factory_Tappcontroller_def version_New_def group_V1_def version_TApps_def access_Informer_def
  NewTAppLister_def access_Lister_def tAppLister_List_def tAppLister_TApps_def genericInformer_Informer_def genericInformer_Lister_def

text \<open>The chain of objects ends in the informer of the factory, of its namespace and tweak.\<close>

lemma access_chain:
  "access_Informer mk (version_TApps (group_V1 (factory_Tappcontroller f))) f = tAppInformer_Informer mk f"
  by (simp add: access_defs tAppInformer_Informer_def)

lemma tAppLister_List_visits: "tAppLister_List listAll s selector = listAll (tl_indexer s) selector"
  by (simp add: tAppLister_List_def fold_snoc split: prod.split)

subsection \<open>Properties\<close>

text \<open>A client set built from a configuration without a rate limiter and with a positive rate makes one token bucket of this rate and
  burst, and its REST client and its discovery client share it; otherwise both get the limiter of the configuration, if any. The REST client
  asks for the group and version of the TApp under \<^verbatim>\<open>/apis\<close> and has a user agent; the discovery client sees nothing of
  these defaults, only the configuration of the caller.\<close>

theorem NewForConfig_shares_limiter:
  assumes "NewForConfig cg (Some c) w = Inr (Inr cs, w3)"
  shows "\<exists>cfg rcfg w1 w2. cg_RESTClientFor cg rcfg w1 = (Inr (tc_restClient (cs_tappcontrollerV1 cs)), w2) \<and>
    cg_NewDiscoveryClientForConfig cg cfg w2 = (Inr (cs_DiscoveryClient cs), w3) \<and>
    (if cf_RateLimiter c = None \<and> 0 < cf_QPS c
     then \<exists>limiter. cg_NewTokenBucketRateLimiter cg (cf_QPS c) (cf_Burst c) w = (limiter, w1) \<and> cfg = c\<lparr>cf_RateLimiter := Some limiter\<rparr>
     else w1 = w \<and> cfg = c) \<and>
    cf_RateLimiter rcfg = cf_RateLimiter cfg \<and> cf_Host rcfg = cf_Host c \<and>
    cf_GroupVersion rcfg = Some \<lparr>gv_Group = ''apps.tkestack.io'', gv_Version = ''v1''\<rparr> \<and> cf_APIPath rcfg = ''/apis'' \<and>
    cf_UserAgent rcfg = (if cf_UserAgent c = '''' then cg_DefaultKubernetesUserAgent cg else cf_UserAgent c)"
proof -
  obtain cfg w1 where cfg: "(if cf_RateLimiter c = None \<and> 0 < cf_QPS c
      then (case cg_NewTokenBucketRateLimiter cg (cf_QPS c) (cf_Burst c) w of (limiter, w1) \<Rightarrow> (c\<lparr>cf_RateLimiter := Some limiter\<rparr>, w1))
      else (c, w)) = (cfg, w1)" by fastforce
  obtain r w2 where r: "cg_RESTClientFor cg (setConfigDefaults cg cfg) w1 = (r, w2)" by fastforce
  from assms obtain client where client: "r = Inr client"
    by (cases r) (simp_all add: NewForConfig_def cfg typed_NewForConfig_def r)
  from assms have disc: "cg_NewDiscoveryClientForConfig cg cfg w2 = (Inr (cs_DiscoveryClient cs), w3)"
    "tc_restClient (cs_tappcontrollerV1 cs) = client"
    by (auto simp: NewForConfig_def cfg typed_NewForConfig_def r client split: prod.splits sum.splits)
  have same: "if cf_RateLimiter c = None \<and> 0 < cf_QPS c
     then \<exists>limiter. cg_NewTokenBucketRateLimiter cg (cf_QPS c) (cf_Burst c) w = (limiter, w1) \<and> cfg = c\<lparr>cf_RateLimiter := Some limiter\<rparr>
     else w1 = w \<and> cfg = c"
    using cfg by (auto split: if_splits prod.splits)
  then have "cf_Host cfg = cf_Host c" "cf_UserAgent cfg = cf_UserAgent c" by (auto split: if_splits)
  then have "cf_RateLimiter (setConfigDefaults cg cfg) = cf_RateLimiter cfg" "cf_Host (setConfigDefaults cg cfg) = cf_Host c"
    "cf_GroupVersion (setConfigDefaults cg cfg) = Some \<lparr>gv_Group = ''apps.tkestack.io'', gv_Version = ''v1''\<rparr>"
    "cf_APIPath (setConfigDefaults cg cfg) = ''/apis''"
    "cf_UserAgent (setConfigDefaults cg cfg) = (if cf_UserAgent c = '''' then cg_DefaultKubernetesUserAgent cg else cf_UserAgent c)"
    by (simp_all add: setConfigDefaults_def SchemeGroupVersion_def GroupName_def Let_def)
  with r client disc same show ?thesis by blast
qed

text \<open>A library that numbers its limiters and hands out what it is given.\<close>

definition sample_go :: "(nat, nat rest_Config, nat rest_Config, nat) client_go" where
  "sample_go = \<lparr>cg_DefaultKubernetesUserAgent = ''tapp-controller'',
     cg_NewTokenBucketRateLimiter = \<lambda>qps burst w. (w, Suc w), cg_RESTClientFor = \<lambda>cfg w. (Inr cfg, w),
     cg_NewDiscoveryClientForConfig = \<lambda>cfg w. (Inr cfg, w), cg_NewDiscoveryClient = \<lambda>cfg w. (cfg, w)\<rparr>"

definition sample_config :: "nat rest_Config" where
  "sample_config = \<lparr>cf_Host = ''https://api'', cf_GroupVersion = None, cf_APIPath = '''', cf_NegotiatedSerializer = None, cf_UserAgent = '''',
     cf_RateLimiter = None, cf_QPS = 2000, cf_Burst = 2500\<rparr>"

theorem NewForConfig_shares_limiter_witness:
  "\<exists>cs. NewForConfig sample_go (Some sample_config) 7 = Inr (Inr cs, 8) \<and>
     cf_RateLimiter (tc_restClient (cs_tappcontrollerV1 cs)) = Some 7 \<and> cf_RateLimiter (cs_DiscoveryClient cs) = Some 7 \<and>
     cf_UserAgent (tc_restClient (cs_tappcontrollerV1 cs)) = ''tapp-controller''"
proof -
  obtain cs where cs: "NewForConfig sample_go (Some sample_config) 7 = Inr (Inr cs, 8)"
    by (simp add: NewForConfig_def typed_NewForConfig_def sample_go_def sample_config_def)
  from NewForConfig_shares_limiter [OF this] cs show ?thesis
    by (auto simp: sample_go_def sample_config_def)
qed

text \<open>The initialisation of a scheme runs its functions in order until one fails; those of the clients cannot fail.\<close>

lemma scheme_init_ok:
  assumes "\<And>fs s. so_Run ops fs s =
    fold (\<lambda>f (err, s). case err of Some e \<Rightarrow> (Some e, s) | None \<Rightarrow> f s) fs (None, s)"
  shows "scheme_init ops s = Inr (so_AddToGroupVersion ops SchemeGroupVersion (so_AddKnownTypes ops SchemeGroupVersion [''TApp'', ''TAppList'']
    (so_AddToGroupVersion ops \<lparr>gv_Group = '''', gv_Version = ''v1''\<rparr> s)))"
  by (simp add: scheme_init_def scheme_AddToScheme_def group_AddToScheme_def assms addKnownTypes_def)

text \<open>The fake client set takes every object or panics on the first one the tracker refuses.\<close>

lemma add_objects_run: "add_objects tk (xs @ [x]) w = (case add_objects tk xs w of Inl p \<Rightarrow> Inl p
    | Inr w1 \<Rightarrow> (case to_Add tk x w1 of (Some err, w2) \<Rightarrow> Inl (Panicked err) | (None, w2) \<Rightarrow> Inr w2))"
  by (induction xs arbitrary: w) (auto split: prod.split option.split sum.split)

text \<open>The fake's REST client is not nil as an interface, though it holds no client.\<close>

lemma fake_RESTClient_not_nil: "fake_RESTClient \<noteq> NilInterface"
  by (simp add: fake_RESTClient_def)

end
