(* ===== verification/Controller_Setup.thy ===== *)
theory Controller_Setup
  imports Client_Sets
begin

text \<open>
  \<^verbatim>\<open>NewController\<close> of \<^verbatim>\<open>pkg/tapp/controller.go\<close>: which informers the controller takes from the two factories, which of them its
  caches read, which it waits for before it starts working, and which events reach which handler.

  The TApp factory is the generated one (\<open>Informer_Factory\<close>). The factory of the built-in resources, the event
  recorder and the handlers' registration belong to the library (\<open>kube_lib\<close>). A lister is the indexer it reads; \<^verbatim>\<open>HasSynced\<close> is
  named by its informer. The health checker, the hash and the queue's rate limiter have no state and are left out.
\<close>

subsection \<open>The controller\<close>

text \<open>The handlers: the methods \<^verbatim>\<open>addPod\<close>, \<^verbatim>\<open>updatePod\<close>, \<^verbatim>\<open>deletePod\<close> and \<^verbatim>\<open>enqueueTApp\<close>, and the closure that logs
  a changed replica count and enqueues the new TApp.\<close>

datatype handler = HandleAddPod | HandleUpdatePod | HandleDeletePod | HandleEnqueueTApp | HandleUpdateTApp

record event_handlers =
  eh_AddFunc :: handler
  eh_UpdateFunc :: handler
  eh_DeleteFunc :: handler

record ('k, 'i, 'ix, 'kc, 'rec, 'w) kube_lib =
  kl_informer :: "string \<Rightarrow> 'k \<Rightarrow> 'i \<times> 'k"
  kl_indexer :: "'i \<Rightarrow> 'ix"
  kl_AddEventHandler :: "'i \<Rightarrow> event_handlers \<Rightarrow> 'w \<Rightarrow> 'w"
  kl_AddToScheme :: "'w \<Rightarrow> 'w"
  kl_NewRecorder :: "'kc \<Rightarrow> string \<Rightarrow> 'w \<Rightarrow> 'rec \<times> 'w"

record ('kc, 'rec, 'ix) instance_client_config =
  ai_KubeClient :: 'kc
  ai_Recorder :: 'rec
  ai_pvcLister :: 'ix
  ai_podLister :: 'ix

record ('kc, 'tc, 'rec, 'i, 'ix) Controller =
  ct_kubeclient :: 'kc
  ct_tappclient :: 'tc
  ct_tappLister :: "'ix tAppLister"
  ct_tappsSynced :: 'i
  ct_workqueue :: string
  ct_recorder :: 'rec
  ct_syncer :: "('kc, 'rec, 'ix) instance_client_config"
  ct_podStore :: 'ix
  ct_nodeStore :: 'ix
  ct_podStoreSynced :: 'i

definition controllerName :: string where
  "controllerName = ''tapp-controller''"

definition pod_handlers :: event_handlers where
  "pod_handlers = \<lparr>eh_AddFunc = HandleAddPod, eh_UpdateFunc = HandleUpdatePod, eh_DeleteFunc = HandleDeletePod\<rparr>"

definition tapp_handlers :: event_handlers where
  "tapp_handlers = \<lparr>eh_AddFunc = HandleEnqueueTApp, eh_UpdateFunc = HandleUpdateTApp, eh_DeleteFunc = HandleEnqueueTApp\<rparr>"

text \<open>The state is the TApp factory, the factory of the built-in resources, and the world.\<close>

definition NewController ::
  "(('lm, 'watch, 'w) ListWatch \<Rightarrow> int \<Rightarrow> string list \<Rightarrow> 'w \<Rightarrow> 'i \<times> 'w) \<Rightarrow> ('k, 'i, 'ix, 'kc, 'rec, 'w) kube_lib \<Rightarrow>
   'kc \<Rightarrow> 'tc \<Rightarrow> (('lm, 'watch, 'w) rest_client, 'i) sharedInformerFactory \<Rightarrow> 'k \<Rightarrow> 'w \<Rightarrow>
   ('kc, 'tc, 'rec, 'i, 'ix) Controller \<times> (('lm, 'watch, 'w) rest_client, 'i) sharedInformerFactory \<times> 'k \<times> 'w" where
  "NewController mk lib kubeclientset tappclientset tappFactory kubeFactory w =
     (let tappInformer = version_TApps (group_V1 (factory_Tappcontroller tappFactory));
          w1 = kl_AddToScheme lib w;
          (recorder, w2) = kl_NewRecorder lib kubeclientset controllerName w1;
          (tappLister, f1, w3) = access_Lister mk (kl_indexer lib) tappInformer tappFactory w2;
          (tappsInformer, f2, w4) = access_Informer mk tappInformer f1 w3;
          (pvcInformer, k1) = kl_informer lib ''persistentvolumeclaims'' kubeFactory;
          (podInformer, k2) = kl_informer lib ''pods'' k1;
          (podInformer1, k3) = kl_informer lib ''pods'' k2;
          w5 = kl_AddEventHandler lib podInformer1 pod_handlers w4;
          (podInformer2, k4) = kl_informer lib ''pods'' k3;
          (nodeInformer, k5) = kl_informer lib ''nodes'' k4;
          (tappsInformer1, f3, w6) = access_Informer mk tappInformer f2 w5;
          w7 = kl_AddEventHandler lib tappsInformer1 tapp_handlers w6;
          (podInformer3, k6) = kl_informer lib ''pods'' k5
      in (\<lparr>ct_kubeclient = kubeclientset, ct_tappclient = tappclientset, ct_tappLister = tappLister, ct_tappsSynced = tappsInformer,
           ct_workqueue = ''TApps'', ct_recorder = recorder,
           ct_syncer = \<lparr>ai_KubeClient = kubeclientset, ai_Recorder = recorder, ai_pvcLister = kl_indexer lib pvcInformer,
             ai_podLister = kl_indexer lib podInformer\<rparr>,
           ct_podStore = kl_indexer lib podInformer2, ct_nodeStore = kl_indexer lib nodeInformer, ct_podStoreSynced = podInformer3\<rparr>,
          f3, k6, w7))"

definition GetEventRecorder :: "('kc, 'tc, 'rec, 'i, 'ix) Controller \<Rightarrow> 'rec" where
  "GetEventRecorder c = ct_recorder c"

text \<open>The caches \<^verbatim>\<open>Run\<close> waits for before it starts the workers.\<close>

definition awaited_caches :: "('kc, 'tc, 'rec, 'i, 'ix) Controller \<Rightarrow> 'i list" where
  "awaited_caches c = [ct_podStoreSynced c, ct_tappsSynced c]"

text \<open>The process-wide switch, a global variable.\<close>

definition SetDeletePodAfterAppFinish :: "bool \<Rightarrow> bool \<Rightarrow> bool" where
  "SetDeletePodAfterAppFinish v global = v"

definition getDeletePodAfterAppFinish :: "bool \<Rightarrow> bool" where
  "getDeletePodAfterAppFinish global = global"

subsection \<open>Properties\<close>

lemma InformerFor_known: "sf_informers f ty = Some i \<Longrightarrow> InformerFor ty new f w = (i, f, w)"
  by (simp add: InformerFor_def)

lemma InformerFor_new: "sf_informers f ty = None \<Longrightarrow> InformerFor ty new f w = (i, f', w') \<Longrightarrow>
    sf_informers f' = (sf_informers f)(ty \<mapsto> i)"
  by (auto simp: InformerFor_def Let_def split: prod.splits)

text \<open>What the informer factory of the built-in resources does, as documented: it makes one informer for each resource it is
  asked for, and returns the same one ever after. \<open>known\<close> is its table.\<close>

definition shares_informers :: "('k, 'i, 'ix, 'kc, 'rec, 'w) kube_lib \<Rightarrow> ('k \<Rightarrow> string \<rightharpoonup> 'i) \<Rightarrow> bool" where
  "shares_informers lib known \<longleftrightarrow>
     (\<forall>r k i k'. kl_informer lib r k = (i, k') \<longrightarrow>
        (case known k r of None \<Rightarrow> known k' = (known k)(r \<mapsto> i) | Some j \<Rightarrow> i = j \<and> known k' = known k))"

lemma shares_informersD:
  assumes "shares_informers lib known" "kl_informer lib r k = (i, k')"
  shows "known k' = (known k)(r \<mapsto> i)" "known k r = Some j \<Longrightarrow> i = j"
proof -
  have *: "case known k r of None \<Rightarrow> known k' = (known k)(r \<mapsto> i) | Some j \<Rightarrow> i = j \<and> known k' = known k"
    using assms unfolding shares_informers_def by blast
  then show "known k r = Some j \<Longrightarrow> i = j" by simp
  show "known k' = (known k)(r \<mapsto> i)" using * by (cases "known k r") auto
qed

text \<open>C38. The wiring of the controller over fresh factories. The TApp factory then knows exactly the TApp informer and the other factory
  exactly those of pods, claims and nodes; lister, handlers and sync flag of the TApps belong to one informer, and so do those of the
  pods, whose store the instance client shares; the recorder is one. But \<^verbatim>\<open>Run\<close> waits only for the pods and the
  TApps: the workers may start before the nodes and claims are known.\<close>

theorem NewController_wiring:
  assumes "NewController mk lib kc tc f k w = (c, f', k', w')"
    and "shares_informers lib known" "known k = Map.empty" "sf_informers f = Map.empty"
  shows "\<exists>t p n v. sf_informers f' = [''*v1.TApp'' \<mapsto> t] \<and>
    known k' = [''persistentvolumeclaims'' \<mapsto> v, ''pods'' \<mapsto> p, ''nodes'' \<mapsto> n] \<and>
    tl_indexer (ct_tappLister c) = kl_indexer lib t \<and> ct_podStore c = kl_indexer lib p \<and> ct_nodeStore c = kl_indexer lib n \<and>
    ai_podLister (ct_syncer c) = kl_indexer lib p \<and> ai_pvcLister (ct_syncer c) = kl_indexer lib v \<and>
    ai_Recorder (ct_syncer c) = ct_recorder c \<and> ai_KubeClient (ct_syncer c) = kc \<and>
    set (awaited_caches c) = {p, t} \<and>
    (\<exists>w1. w' = kl_AddEventHandler lib t \<lparr>eh_AddFunc = HandleEnqueueTApp, eh_UpdateFunc = HandleUpdateTApp, eh_DeleteFunc = HandleEnqueueTApp\<rparr>
       (kl_AddEventHandler lib p \<lparr>eh_AddFunc = HandleAddPod, eh_UpdateFunc = HandleUpdatePod, eh_DeleteFunc = HandleDeletePod\<rparr> w1))"
proof -
  let ?a = "version_TApps (group_V1 (factory_Tappcontroller f))"
  note share = shares_informersD [OF assms(2)]
  obtain recorder w2 where r: "kl_NewRecorder lib kc controllerName (kl_AddToScheme lib w) = (recorder, w2)" by fastforce
  obtain t f1 w3 where t: "access_Informer mk ?a f w2 = (t, f1, w3)" by (metis prod_cases3)
  have f1: "sf_informers f1 = [''*v1.TApp'' \<mapsto> t]"
    using t InformerFor_new [of f] assms(4) by (simp add: access_Informer_def)
  then have again: "access_Informer mk ?a f1 w = (t, f1, w)" for w
    unfolding access_Informer_def by (intro InformerFor_known) simp
  have lister: "access_Lister mk (kl_indexer lib) ?a f w2 = (\<lparr>tl_indexer = kl_indexer lib t\<rparr>, f1, w3)"
    by (simp add: access_Lister_def NewTAppLister_def t)
  obtain v k1 where v: "kl_informer lib ''persistentvolumeclaims'' k = (v, k1)" by fastforce
  obtain p k2 where p: "kl_informer lib ''pods'' k1 = (p, k2)" by fastforce
  obtain p1 k3 where p1: "kl_informer lib ''pods'' k2 = (p1, k3)" by fastforce
  obtain p2 k4 where p2: "kl_informer lib ''pods'' k3 = (p2, k4)" by fastforce
  obtain n k5 where n: "kl_informer lib ''nodes'' k4 = (n, k5)" by fastforce
  obtain p3 k6 where p3: "kl_informer lib ''pods'' k5 = (p3, k6)" by fastforce
  note K1 = share [OF v] and K2 = share [OF p] and K3 = share [OF p1] and K4 = share [OF p2] and K5 = share [OF n] and K6 = share [OF p3]
  have "p1 = p" using K3(2) K2(1) by simp
  moreover have "p2 = p" using K4(2) K3(1) calculation by simp
  moreover have "p3 = p" using K6(2) K5(1) K4(1) calculation by simp
  ultimately have known: "known k' = [''persistentvolumeclaims'' \<mapsto> v, ''pods'' \<mapsto> p, ''nodes'' \<mapsto> n]" if "k' = k6"
    using that K1(1) K2(1) K3(1) K4(1) K5(1) K6(1) assms(3) by (auto simp: fun_eq_iff)
  have "(c, f', k', w') = (\<lparr>ct_kubeclient = kc, ct_tappclient = tc, ct_tappLister = \<lparr>tl_indexer = kl_indexer lib t\<rparr>, ct_tappsSynced = t,
           ct_workqueue = ''TApps'', ct_recorder = recorder,
           ct_syncer = \<lparr>ai_KubeClient = kc, ai_Recorder = recorder, ai_pvcLister = kl_indexer lib v, ai_podLister = kl_indexer lib p\<rparr>,
           ct_podStore = kl_indexer lib p2, ct_nodeStore = kl_indexer lib n, ct_podStoreSynced = p3\<rparr>,
          f1, k6, kl_AddEventHandler lib t tapp_handlers (kl_AddEventHandler lib p1 pod_handlers w3))"
    unfolding assms(1) [symmetric] by (simp add: NewController_def r lister again v p p1 p2 n p3)
  with \<open>p1 = p\<close> \<open>p2 = p\<close> \<open>p3 = p\<close> known f1 show ?thesis
    by (intro exI [of _ t] exI [of _ p] exI [of _ n] exI [of _ v]) (auto simp: awaited_caches_def pod_handlers_def tapp_handlers_def)
qed

text \<open>A library whose factory is a list of the resources asked for, their informers named after them.\<close>

definition sample_lib :: "(string list, string, string, unit, unit, nat) kube_lib" where
  "sample_lib = \<lparr>kl_informer = \<lambda>r k. (r, if r \<in> set k then k else r # k), kl_indexer = \<lambda>i. i,
     kl_AddEventHandler = \<lambda>i h w. Suc w, kl_AddToScheme = \<lambda>w. w, kl_NewRecorder = \<lambda>_ _ w. ((), w)\<rparr>"

theorem NewController_wiring_witness:
  "\<exists>c f' k' w'. NewController (\<lambda>_ _ _ w. (''tapps'', w)) sample_lib () ()
      (NewSharedInformerFactory (\<lparr>rc_IntoTApp = \<lambda>_ obj w. ((obj, None), w), rc_IntoList = \<lambda>_ obj w. ((obj, None), w),
         rc_Error = \<lambda>_ w. (None, w), rc_Watch = \<lambda>_ w. (((), None), w), rc_zeroTApp = sampleTApp 0, rc_zeroListMeta = ()\<rparr>
         :: (unit, unit, nat) rest_client) 30) [] 0 = (c, f', k', w') \<and>
     set (awaited_caches c) = {''pods'', ''tapps''} \<and> ct_nodeStore c = ''nodes'' \<and> sf_informers f' ''*v1.TApp'' = Some ''tapps''"
proof -
  let ?client = "\<lparr>rc_IntoTApp = \<lambda>_ obj w. ((obj, None), w), rc_IntoList = \<lambda>_ obj w. ((obj, None), w),
         rc_Error = \<lambda>_ w. (None, w), rc_Watch = \<lambda>_ w. (((), None), w), rc_zeroTApp = sampleTApp 0, rc_zeroListMeta = ()\<rparr>
         :: (unit, unit, nat) rest_client"
  let ?f = "NewSharedInformerFactory ?client 30 :: ((unit, unit, nat) rest_client, string) sharedInformerFactory"
  obtain c f' k' w' where c: "NewController (\<lambda>_ _ _ w. (''tapps'', w)) sample_lib () () ?f [] 0 = (c, f', k', w')"
    by (metis prod_cases4)
  let ?known = "\<lambda>k r. if r \<in> set k then Some r else None"
  have lib: "shares_informers sample_lib ?known"
    by (auto simp: shares_informers_def sample_lib_def fun_eq_iff split: if_splits)
  have fresh: "?known [] = Map.empty" "sf_informers ?f = Map.empty"
    by (simp_all add: NewSharedInformerFactory_def NewSharedInformerFactoryWithOptions_def)
  from NewController_wiring [OF c lib fresh] obtain t p n v where
    w: "sf_informers f' = [''*v1.TApp'' \<mapsto> t]" "?known k' = [''persistentvolumeclaims'' \<mapsto> v, ''pods'' \<mapsto> p, ''nodes'' \<mapsto> n]"
    "set (awaited_caches c) = {p, t}" "ct_nodeStore c = n" "tl_indexer (ct_tappLister c) = t"
    by (auto simp: sample_lib_def)
  have "p = ''pods''" "n = ''nodes''"
    using fun_cong [OF w(2), of "''pods''"] fun_cong [OF w(2), of "''nodes''"] by (simp_all split: if_splits)
  moreover have "tl_indexer (ct_tappLister c) = ''tapps''"
    using c by (auto simp: NewController_def sample_lib_def access_Lister_def NewTAppLister_def access_Informer_def InformerFor_def
        defaultInformer_def NewFilteredTAppInformer_def NewSharedInformerFactory_def NewSharedInformerFactoryWithOptions_def Let_def
        split: prod.splits)
  ultimately show ?thesis using w c by auto
qed

end
