(* ===== verification/Version_Flag.thy ===== *)
theory Version_Flag
  imports Go_Prelude
begin

text \<open>
  \<^verbatim>\<open>pkg/version\<close> and \<^verbatim>\<open>pkg/version/verflag\<close>: the build information and the three-valued
  \<^verbatim>\<open>--version\<close> flag. The flag is an integer type with three named values; \<^verbatim>\<open>strconv.ParseBool\<close> is
  modelled. What the runtime knows of itself and the variables the linker may set are arguments.
\<close>

subsection \<open>Build information\<close>

record base_vars =
  rpmPKGName :: string
  gitBranch :: string
  gitCommit :: string
  gitTreeState :: string
  buildDate :: string

definition base_defaults :: base_vars where
  "base_defaults = \<lparr>rpmPKGName = ''Not build from rpm package'', gitBranch = ''Not a git repo'',
     gitCommit = ''$Format:%H$'', gitTreeState = ''Not a git tree'', buildDate = ''1970-01-01T00:00:00Z''\<rparr>"

record Info =
  RpmPKGName :: string
  GitBranch :: string
  GitCommit :: string
  GitTreeState :: string
  BuildDate :: string
  GoVersion :: string
  Compiler :: string
  Platform :: string

record go_runtime =
  rt_Version :: string
  rt_Compiler :: string
  rt_GOOS :: string
  rt_GOARCH :: string

definition Info_String :: "Info \<Rightarrow> string" where
  "Info_String info = GitBranch info @ ''-'' @ GitCommit info"

definition version_Get :: "base_vars \<Rightarrow> go_runtime \<Rightarrow> Info" where
  "version_Get b rt = \<lparr>RpmPKGName = rpmPKGName b, GitBranch = gitBranch b, GitCommit = gitCommit b,
     GitTreeState = gitTreeState b, BuildDate = buildDate b, GoVersion = rt_Version rt,
     Compiler = rt_Compiler rt, Platform = rt_GOOS rt @ ''/'' @ rt_GOARCH rt\<rparr>"

subsection \<open>The flag\<close>

definition VersionFalse :: int where "VersionFalse = 0"
definition VersionTrue :: int where "VersionTrue = 1"
definition VersionRaw :: int where "VersionRaw = 2"

definition strRawVersion :: string where
  "strRawVersion = ''raw''"

text \<open>\<^verbatim>\<open>strconv.ParseBool\<close>\<close>

definition ParseBool :: "string \<Rightarrow> bool \<times> strconv_error option" where
  "ParseBool str =
     (if str \<in> {''1'', ''t'', ''T'', ''true'', ''TRUE'', ''True''} then (True, None)
      else if str \<in> {''0'', ''f'', ''F'', ''false'', ''FALSE'', ''False''} then (False, None)
      else (False, Some ErrSyntax))"

definition versionValue_IsBoolFlag :: "int \<Rightarrow> bool" where
  "versionValue_IsBoolFlag v = True"

definition versionValue_Get :: "int \<Rightarrow> int" where
  "versionValue_Get v = v"

text \<open>The value afterwards, and the error.\<close>

definition versionValue_Set :: "string \<Rightarrow> int \<Rightarrow> int \<times> strconv_error option" where
  "versionValue_Set s v =
     (if s = strRawVersion then (VersionRaw, None)
      else let (boolVal, err) = ParseBool s
           in (if boolVal then VersionTrue else VersionFalse, err))"

definition versionValue_String :: "int \<Rightarrow> string" where
  "versionValue_String v =
     (if v = VersionRaw then strRawVersion
      else if v = VersionTrue then ''true'' else ''false'')"

definition versionValue_Type :: "int \<Rightarrow> string" where
  "versionValue_Type v = ''version''"

text \<open>What is printed before the process exits, if anything: the Go syntax of the information, or a line.\<close>

datatype version_output = PrintRaw Info | PrintLine string

definition PrintAndExitIfRequested :: "int \<Rightarrow> Info \<Rightarrow> version_output option" where
  "PrintAndExitIfRequested versionFlag info =
     (if versionFlag = VersionRaw then Some (PrintRaw info)
      else if versionFlag = VersionTrue then Some (PrintLine (''TApp-controller '' @ Info_String info @ [CHR 0x0A]))
      else None)"

lemmas version_defs [model_defs] =
  base_defaults_def Info_String_def version_Get_def VersionFalse_def VersionTrue_def VersionRaw_def strRawVersion_def
  ParseBool_def versionValue_Set_def versionValue_String_def PrintAndExitIfRequested_def

text \<open>The command line's table of flags: the value's usage text, and what the flag means without a value.\<close>

record flag_entry =
  fe_Usage :: string
  fe_NoOptDefVal :: string

type_synonym flag_table = "string \<rightharpoonup> flag_entry"

text \<open>The value behind the pointer, and the table.\<close>

definition VersionVar :: "string \<Rightarrow> int \<Rightarrow> string \<Rightarrow> flag_table \<Rightarrow> int \<times> flag_table" where
  "VersionVar name v usage flags = (v, flags(name \<mapsto> \<lparr>fe_Usage = usage, fe_NoOptDefVal = ''true''\<rparr>))"

definition Version :: "string \<Rightarrow> int \<Rightarrow> string \<Rightarrow> flag_table \<Rightarrow> int \<times> flag_table" where
  "Version name v usage flags = VersionVar name v usage flags"

definition versionFlag :: "flag_table \<Rightarrow> int \<times> flag_table" where
  "versionFlag flags = Version ''version'' VersionFalse ''Print version information and quit'' flags"

text \<open>\<^verbatim>\<open>--version\<close> alone sets the flag, and the process prints the version.\<close>

lemma version_without_value:
  assumes "versionFlag flags = (v, flags')"
  shows "PrintAndExitIfRequested v info = None"
    and "\<exists>e. flags' ''version'' = Some e \<and>
      PrintAndExitIfRequested (fst (versionValue_Set (fe_NoOptDefVal e) v)) info \<noteq> None"
proof -
  have v: "v = VersionFalse" "flags' ''version'' = Some \<lparr>fe_Usage = ''Print version information and quit'', fe_NoOptDefVal = ''true''\<rparr>"
    using assms by (auto simp: versionFlag_def Version_def VersionVar_def)
  show "PrintAndExitIfRequested v info = None" unfolding v by (simp add: version_defs)
  show "\<exists>e. flags' ''version'' = Some e \<and>
      PrintAndExitIfRequested (fst (versionValue_Set (fe_NoOptDefVal e) v)) info \<noteq> None"
    unfolding v(2) by (simp add: version_defs)
qed

subsection \<open>Properties\<close>

definition version_values :: "int set" where
  "version_values = {VersionFalse, VersionTrue, VersionRaw}"

lemma Set_range: "fst (versionValue_Set s v) \<in> version_values"
  by (auto simp: versionValue_Set_def version_values_def case_prod_beta)

text \<open>The version flag survives printing: whatever a user passes, the flag holds one of its three values; the
  printed form of a value, set on any flag, gives that value back without an error; a value is rejected
  exactly when it is neither \<^verbatim>\<open>raw\<close> nor a boolean, and a rejected value never makes the process print and
  exit.\<close>

theorem version_flag_round_trip:
  "fst (versionValue_Set s v) \<in> version_values \<and>
   versionValue_Set (versionValue_String (fst (versionValue_Set s v))) v' = (fst (versionValue_Set s v), None) \<and>
   (snd (versionValue_Set s v) = None \<longleftrightarrow> s = strRawVersion \<or> snd (ParseBool s) = None) \<and>
   (snd (versionValue_Set s v) = None \<or> PrintAndExitIfRequested (fst (versionValue_Set s v)) info = None)"
proof (intro conjI Set_range)
  have "versionValue_Set (versionValue_String x) v' = (x, None)" if "x \<in> version_values" for x
    using that by (auto simp: version_values_def version_defs)
  then show "versionValue_Set (versionValue_String (fst (versionValue_Set s v))) v' = (fst (versionValue_Set s v), None)"
    using Set_range by blast
  show "snd (versionValue_Set s v) = None \<longleftrightarrow> s = strRawVersion \<or> snd (ParseBool s) = None"
    by (auto simp: versionValue_Set_def case_prod_beta)
  show "snd (versionValue_Set s v) = None \<or> PrintAndExitIfRequested (fst (versionValue_Set s v)) info = None"
    by (auto simp: version_defs)
qed

end
