(* ===== verification/Startup.thy ===== *)
theory Startup
  imports Version_Flag
begin

text \<open>
  How the process comes up: \<^verbatim>\<open>main\<close> and its \<^verbatim>\<open>run\<close> closure in \<^verbatim>\<open>main.go\<close>, and
  \<^verbatim>\<open>(*Controller).Run\<close> of \<^verbatim>\<open>pkg/tapp/controller.go\<close>.

  A computation is the list of the calls it makes, in order, and how it ends: with a value, with
  \<^verbatim>\<open>klog.Fatalf\<close> (which exits the process), with a panic, or never. What the calls answer is the
  environment: the errors of the constructors, whether a poll or the stop channel ever ends, whether
  the caches get synced. The client rate limit, a 32-bit float in the code, is only passed on; the resync period of the informers is in seconds. \<^verbatim>\<open>leaderelection.RunOrDie\<close> is a function of its durations and its two callbacks.
\<close>

subsection \<open>Calls and outcomes\<close>

datatype call =
    BuildConfig string string | NewKubeClient int int | NewTAppClient | NewExtensionsClient | NewController
  | PollEnsureCRD | PollRegister string string | NewServer string string string | GoServerRun | GoStartKubeInformers | GoStartTAppInformers
  | SetDeletePodAfterAppFinish bool | AwaitCacheSync | GoWorker nat | AwaitStop | QueueShutDown
  | NewKubeInformerFactory int | NewTAppInformerFactory int | Hostname | NewLeaderElectionClient | NewResourceLock string

datatype ending = Fatal string | Panic string | Blocked

type_synonym 'a comp = "call list \<times> (ending + 'a)"

definition comp_bind :: "'a comp \<Rightarrow> ('a \<Rightarrow> 'b comp) \<Rightarrow> 'b comp" where
  "comp_bind m f = (case m of (cs, Inl e) \<Rightarrow> (cs, Inl e) | (cs, Inr x) \<Rightarrow> (case f x of (ds, r) \<Rightarrow> (cs @ ds, r)))"

definition comp_then :: "'a comp \<Rightarrow> 'b comp \<Rightarrow> 'b comp" where
  "comp_then m n = comp_bind m (\<lambda>_. n)"

definition return :: "'a \<Rightarrow> 'a comp" where "return x = ([], Inr x)"

definition halt :: "ending \<Rightarrow> 'a comp" where "halt e = ([], Inl e)"

definition emit :: "call \<Rightarrow> unit comp" where "emit c = ([c], Inr ())"

definition when_c :: "bool \<Rightarrow> unit comp \<Rightarrow> unit comp" where
  "when_c b m = (if b then m else return ())"

text \<open>A call that does not return unless the environment says so.\<close>

definition await :: "call \<Rightarrow> bool \<Rightarrow> unit comp" where
  "await c ends = comp_then (emit c) (if ends then return () else halt Blocked)"

text \<open>A fallible call whose failure is fatal, and one whose failure is a panic.\<close>

definition or_fatal :: "call \<Rightarrow> string option \<Rightarrow> string \<Rightarrow> unit comp" where
  "or_fatal c err msg = comp_then (emit c) (case err of None \<Rightarrow> return () | Some e \<Rightarrow> halt (Fatal (msg @ e)))"

definition or_die :: "call \<Rightarrow> string option \<Rightarrow> unit comp" where
  "or_die c err = comp_then (emit c) (case err of None \<Rightarrow> return () | Some e \<Rightarrow> halt (Panic e))"

record environment =
  en_config :: "string option"
  en_kubeClient :: "string option"
  en_tappClient :: "string option"
  en_extensionsClient :: "string option"
  en_server :: "string option"
  en_hostname :: "string option"
  en_leaderElectionClient :: "string option"
  en_lock :: "string option"
  en_crdDone :: bool
  en_registerDone :: bool
  en_cachesEnd :: bool
  en_cachesSynced :: bool
  en_stopped :: bool

record flags =
  fl_masterURL :: string
  fl_kubeconfig :: string
  fl_createCRD :: bool
  fl_deletePodAfterAppFinish :: bool
  fl_kubeAPIQPS :: int
  fl_kubeAPIBurst :: int
  fl_worker :: int
  fl_registerAdmission :: bool
  fl_tlsCAfile :: string
  fl_tlsCertFile :: string
  fl_tlsKeyFile :: string
  fl_listenAddress :: string
  fl_namespace :: string
  fl_leaderElect :: bool
  fl_leaseDuration :: int
  fl_renewDeadline :: int
  fl_retryPeriod :: int
  fl_resourceLock :: string

text \<open>The defaults of \<^verbatim>\<open>addFlags\<close> and of the leader election configuration, durations in seconds.\<close>

definition addFlags_defaults :: flags where
  "addFlags_defaults = \<lparr>fl_masterURL = '''', fl_kubeconfig = '''', fl_createCRD = True, fl_deletePodAfterAppFinish = True, fl_kubeAPIQPS = 2000, fl_kubeAPIBurst = 2500,
     fl_worker = 5, fl_registerAdmission = False, fl_tlsCAfile = ''/etc/certs/ca.crt'', fl_tlsCertFile = ''/etc/certs/tls.crt'',
     fl_tlsKeyFile = ''/etc/certs/tls.key'', fl_listenAddress = '':8443'', fl_namespace = ''kube-system'',
     fl_leaderElect = False, fl_leaseDuration = 15, fl_renewDeadline = 10, fl_retryPeriod = 2, fl_resourceLock = ''endpoints''\<rparr>"

subsection \<open>The controller\<close>

text \<open>The deferred \<^verbatim>\<open>ShutDown\<close> happens on every return, not when the call never returns.\<close>

definition with_shutdown :: "'a comp \<Rightarrow> 'a comp" where
  "with_shutdown m = comp_bind m (\<lambda>x. comp_then (emit QueueShutDown) (return x))"

definition Controller_Run :: "environment \<Rightarrow> int \<Rightarrow> string option comp" where
  "Controller_Run env threadiness = with_shutdown
     (comp_then (await AwaitCacheSync (en_cachesEnd env))
        (if \<not> en_cachesSynced env then return (Some ''failed to wait for caches to sync'')
         else comp_then (map GoWorker [0..<nat threadiness], Inr ())
                (comp_then (await AwaitStop (en_stopped env)) (return None))))"

definition main_run :: "environment \<Rightarrow> flags \<Rightarrow> unit comp" where
  "main_run env fl =
     comp_then (when_c (fl_createCRD fl) (await PollEnsureCRD (en_crdDone env)))
    (comp_then (when_c (fl_registerAdmission fl)
       (comp_then (await (PollRegister (fl_namespace fl) (fl_tlsCAfile fl)) (en_registerDone env))
       (comp_then (or_fatal (NewServer (fl_listenAddress fl) (fl_tlsCertFile fl) (fl_tlsKeyFile fl)) (en_server env) ''Error new admission server: '')
                  (emit GoServerRun))))
    (comp_then (emit GoStartKubeInformers)
    (comp_then (emit GoStartTAppInformers)
    (comp_then (emit (SetDeletePodAfterAppFinish (fl_deletePodAfterAppFinish fl)))
    (comp_bind (Controller_Run env (fl_worker fl)) (\<lambda>err.
       case err of None \<Rightarrow> return () | Some e \<Rightarrow> halt (Fatal (''Error running controller: '' @ e))))))))"

definition main :: "(int \<Rightarrow> int \<Rightarrow> int \<Rightarrow> unit comp \<Rightarrow> unit comp \<Rightarrow> unit comp) \<Rightarrow> environment \<Rightarrow> flags \<Rightarrow> unit comp" where
  "main runOrDie env fl =
     comp_then (or_fatal (BuildConfig (fl_masterURL fl) (fl_kubeconfig fl)) (en_config env) ''Error building kubeconfig: '')
    (comp_then (or_fatal (NewKubeClient (fl_kubeAPIQPS fl) (fl_kubeAPIBurst fl)) (en_kubeClient env) ''Error building kubernetes clientset: '')
    (comp_then (or_fatal NewTAppClient (en_tappClient env) ''Error building example clientset: '')
    (comp_then (or_fatal NewExtensionsClient (en_extensionsClient env) ''Error instantiating apiextensions client: '')
    (comp_then (emit (NewKubeInformerFactory 30))
    (comp_then (emit (NewTAppInformerFactory 30))
    (comp_then (emit NewController)
      (if \<not> fl_leaderElect fl
       then comp_then (main_run env fl) (halt (Panic ''unreachable''))
       else comp_then (or_fatal Hostname (en_hostname env) ''Failed to get hostname: '')
           (comp_then (or_die NewLeaderElectionClient (en_leaderElectionClient env))
           (comp_then (or_fatal (NewResourceLock (fl_resourceLock fl)) (en_lock env) ''error creating lock: '')
           (comp_then (runOrDie (fl_leaseDuration fl) (fl_renewDeadline fl) (fl_retryPeriod fl) (main_run env fl) (halt (Fatal ''leaderelection lost'')))
                      (halt (Panic ''unreachable'')))))))))))) "

text \<open>
  \<^verbatim>\<open>init\<close> runs before \<^verbatim>\<open>main\<close>: it parses the command line, which fills the flags and the version flag (or ends the
  process with a usage error, not modelled), starts logging, and may print the version and exit with 0.
\<close>

record command_line =
  cl_flags :: flags
  cl_version :: int

definition main_init :: "command_line \<Rightarrow> Info \<Rightarrow> version_output + flags" where
  "main_init cl info =
     (case PrintAndExitIfRequested (cl_version cl) info of Some out \<Rightarrow> Inl out | None \<Rightarrow> Inr (cl_flags cl))"

definition process ::
  "(int \<Rightarrow> int \<Rightarrow> int \<Rightarrow> unit comp \<Rightarrow> unit comp \<Rightarrow> unit comp) \<Rightarrow> environment \<Rightarrow> command_line \<Rightarrow> Info \<Rightarrow> version_output + unit comp" where
  "process runOrDie env cl info = (case main_init cl info of Inl out \<Rightarrow> Inl out | Inr fl \<Rightarrow> Inr (main runOrDie env fl))"

lemmas comp_defs = comp_bind_def comp_then_def return_def halt_def emit_def when_c_def await_def or_fatal_def or_die_def with_shutdown_def

lemmas startup_defs [model_defs] = Controller_Run_def main_run_def main_def main_init_def process_def addFlags_defaults_def

subsection \<open>Order of the start\<close>

lemma comp_simps [simp]:
  "comp_then ([], Inr x) n = n" "comp_then (cs, Inl e) n = (cs, Inl e)"
  "comp_then (cs, Inr x) (ds, q) = (cs @ ds, q)" "comp_bind (cs, Inl e) f = (cs, Inl e)"
  "comp_bind (cs, Inr x) f = (cs @ fst (f x), snd (f x))"
  by (simp_all add: comp_then_def comp_bind_def split: prod.split)

text \<open>The calls before the workers are launched.\<close>

definition before_workers :: "flags \<Rightarrow> call list" where
  "before_workers fl =
     [BuildConfig (fl_masterURL fl) (fl_kubeconfig fl), NewKubeClient (fl_kubeAPIQPS fl) (fl_kubeAPIBurst fl), NewTAppClient, NewExtensionsClient,
      NewKubeInformerFactory 30, NewTAppInformerFactory 30, NewController] @
     (if fl_createCRD fl then [PollEnsureCRD] else []) @
     (if fl_registerAdmission fl then [PollRegister (fl_namespace fl) (fl_tlsCAfile fl), NewServer (fl_listenAddress fl) (fl_tlsCertFile fl) (fl_tlsKeyFile fl), GoServerRun] else []) @
     [GoStartKubeInformers, GoStartTAppInformers, SetDeletePodAfterAppFinish (fl_deletePodAfterAppFinish fl), AwaitCacheSync]"

definition all_well :: "environment \<Rightarrow> flags \<Rightarrow> bool" where
  "all_well env fl \<longleftrightarrow> en_config env = None \<and> en_kubeClient env = None \<and> en_tappClient env = None \<and> en_extensionsClient env = None \<and>
     (fl_createCRD fl \<longrightarrow> en_crdDone env) \<and> (fl_registerAdmission fl \<longrightarrow> en_registerDone env \<and> en_server env = None) \<and>
     en_cachesEnd env \<and> en_cachesSynced env"

lemma Controller_Run_shuts_down: "Controller_Run env n = (cs, Inr e) \<Longrightarrow> last cs = QueueShutDown"
  by (auto simp: Controller_Run_def comp_defs split: if_splits)

lemma main_all_well:
  assumes "\<not> fl_leaderElect fl" "all_well env fl"
  shows "main runOrDie env fl =
    (before_workers fl @ map GoWorker [0..<nat (fl_worker fl)] @ AwaitStop # (if en_stopped env then [QueueShutDown] else []),
     Inl (if en_stopped env then Panic ''unreachable'' else Blocked))"
  using assms by (simp add: startup_defs comp_defs all_well_def before_workers_def split: if_splits)

lemma main_not_well:
  assumes "\<not> fl_leaderElect fl" "\<not> all_well env fl" "main runOrDie env fl = (cs, r)"
  shows "GoWorker k \<notin> set cs" "r \<noteq> Inr ()"
  using assms by (auto simp: startup_defs comp_defs all_well_def split: if_splits option.splits)

text \<open>A process asked for its version prints it and makes no call at all.\<close>

lemma version_prints_only:
  assumes "fst (versionValue_Set ''true'' v) = cl_version cl"
  shows "\<exists>line. process runOrDie env cl info = Inl (PrintLine line)"
proof -
  have "cl_version cl = VersionTrue" using assms by (simp add: version_defs)
  then show ?thesis by (simp add: process_def main_init_def version_defs)
qed

text \<open>C37. Without leader election a worker is launched only after the clients and the controller exist, the CRD and the
  webhook are registered where the flags ask for it, the informers are started, the deletion mode is set
  and the caches are synced; then exactly the configured number of workers is launched, once each. The
  process never returns from \<^verbatim>\<open>main\<close>: it ends in a fatal error or blocks, and reaches the \<^verbatim>\<open>unreachable\<close> panic only
  when the stop channel is closed.\<close>

theorem startup_order:
  assumes "\<not> fl_leaderElect fl" "main runOrDie env fl = (cs, r)"
  shows "((\<exists>k. GoWorker k \<in> set cs) \<longrightarrow> all_well env fl) \<and> r \<noteq> Inr () \<and>
    (all_well env fl \<longrightarrow>
       cs = before_workers fl @ map GoWorker [0..<nat (fl_worker fl)] @ AwaitStop # (if en_stopped env then [QueueShutDown] else []) \<and>
       r = Inl (if en_stopped env then Panic ''unreachable'' else Blocked))"
proof (cases "all_well env fl")
  case True
  with main_all_well [OF assms(1) True, of runOrDie] assms(2) show ?thesis by auto
next
  case False
  with main_not_well [OF assms(1) False assms(2)] show ?thesis by blast
qed

definition sampleEnvironment :: environment where
  "sampleEnvironment = \<lparr>en_config = None, en_kubeClient = None, en_tappClient = None, en_extensionsClient = None, en_server = None,
     en_hostname = None, en_leaderElectionClient = None, en_lock = None, en_crdDone = True, en_registerDone = False, en_cachesEnd = True, en_cachesSynced = True,
     en_stopped = False\<rparr>"

theorem startup_order_witness:
  "main (\<lambda>_ _ _ run lost. lost) sampleEnvironment addFlags_defaults =
     ([BuildConfig '''' '''', NewKubeClient 2000 2500, NewTAppClient, NewExtensionsClient, NewKubeInformerFactory 30, NewTAppInformerFactory 30,
       NewController, PollEnsureCRD,
       GoStartKubeInformers, GoStartTAppInformers, SetDeletePodAfterAppFinish True, AwaitCacheSync,
       GoWorker 0, GoWorker 1, GoWorker 2, GoWorker 3, GoWorker 4, AwaitStop], Inl Blocked)"
proof -
  obtain cs r where m: "main (\<lambda>_ _ _ run lost. lost) sampleEnvironment addFlags_defaults = (cs, r)" by fastforce
  have "\<not> fl_leaderElect addFlags_defaults" "all_well sampleEnvironment addFlags_defaults"
    by (simp_all add: addFlags_defaults_def all_well_def sampleEnvironment_def)
  with startup_order [OF _ m] have "cs = before_workers addFlags_defaults @ map GoWorker [0..<nat (fl_worker addFlags_defaults)] @ [AwaitStop]"
    "r = Inl Blocked" by (simp_all add: sampleEnvironment_def)
  with m show ?thesis by (simp add: before_workers_def addFlags_defaults_def upt_rec)
qed

end
