(* ===== verification/Import_Checker.thy ===== *)
theory Import_Checker
  imports Kube_Types
begin

text \<open>
  \<^verbatim>\<open>hack/import_checker.go\<close>, the tool that checks how Go files group their imports: the standard library first, then
  the packages of the project, then all others.

  Parsing a file, opening and reading one are parameters; a file may read differently than it was parsed
  only if it changes meanwhile. An import is the identifier in front of it, if any, and its path as written,
  in quotes. What the tool prints and its exit code are its result.
\<close>

subsection \<open>Strings\<close>

text \<open>\<^verbatim>\<open>strings.Contains\<close>.\<close>

fun Contains :: "string \<Rightarrow> string \<Rightarrow> bool" where
  "Contains [] sub \<longleftrightarrow> sub = []"
| "Contains (c # s) sub \<longleftrightarrow> take (length sub) (c # s) = sub \<or> Contains s sub"

lemma take_length_iff: "take (length sub) s = sub \<longleftrightarrow> (\<exists>post. s = sub @ post)"
  by (metis append_eq_conv_conj append_take_drop_id)

lemma Contains_iff: "Contains s sub \<longleftrightarrow> (\<exists>pre post. s = pre @ sub @ post)"
proof (induction s)
  case (Cons c s)
  have "Contains (c # s) sub \<longleftrightarrow> (\<exists>post. c # s = sub @ post) \<or> (\<exists>pre post. s = pre @ sub @ post)"
    by (simp only: Contains.simps take_length_iff Cons.IH)
  also have "\<dots> \<longleftrightarrow> (\<exists>pre post. c # s = pre @ sub @ post)"
  proof
    show "\<exists>pre post. c # s = pre @ sub @ post"
      if "(\<exists>post. c # s = sub @ post) \<or> (\<exists>pre post. s = pre @ sub @ post)"
      using that by (metis append_Cons append_Nil)
    show "(\<exists>post. c # s = sub @ post) \<or> (\<exists>pre post. s = pre @ sub @ post)" if "\<exists>pre post. c # s = pre @ sub @ post"
      using that by (metis append_Cons append_Nil list.inject neq_Nil_conv)
  qed
  finally show ?case .
qed auto

subsection \<open>The check of one file\<close>

text \<open>An import of the syntax tree, and its copy in the tool's own type.\<close>

record ImportSpec =
  is_Name :: "string option"
  is_PathValue :: string

record ImportData =
  id_name :: "string option"
  id_path :: string

definition importData :: "ImportSpec \<Rightarrow> ImportData" where
  "importData i = \<lparr>id_name = is_Name i, id_path = is_PathValue i\<rparr>"

definition generatePath :: "string option \<Rightarrow> string \<Rightarrow> string" where
  "generatePath name path =
     (case name of
        None \<Rightarrow> [CHR 0x09] @ path @ [CHR 0x0A]
      | Some n \<Rightarrow> [CHR 0x09] @ n @ '' '' @ path @ [CHR 0x0A])"

text \<open>The first loop: system, own and third-party imports, in the order of the file.\<close>

fun sort_imports :: "string \<Rightarrow> ImportSpec list \<Rightarrow> ImportData list \<times> ImportData list \<times> ImportData list \<Rightarrow>
    ImportData list \<times> ImportData list \<times> ImportData list" where
  "sort_imports selfPackageName [] acc = acc"
| "sort_imports selfPackageName (i # rest) (system, self, thirdparty) = sort_imports selfPackageName rest
     (if Contains (is_PathValue i) selfPackageName then (system, self @ [importData i], thirdparty)
      else if Contains (is_PathValue i) ''.'' then (system, self, thirdparty @ [importData i])
      else (system @ [importData i], self, thirdparty))"

text \<open>The loop over the groups; a blank line between two of them.\<close>

fun write_groups :: "ImportData list list \<Rightarrow> string" where
  "write_groups [] = ''''"
| "write_groups (idata # rest) =
     concat (map (\<lambda>pkg. generatePath (id_name pkg) (id_path pkg)) idata) @
     (if rest \<noteq> [] then [CHR 0x0A] else '''') @ write_groups rest"

definition check :: "(string \<Rightarrow> 'f result) \<Rightarrow> ('f \<Rightarrow> string result) \<Rightarrow> string \<Rightarrow> string \<Rightarrow> ImportSpec list \<Rightarrow> error option" where
  "check open_file readAll selfPackageName path specs =
     (case sort_imports selfPackageName specs ([], [], []) of (system, self, thirdparty) \<Rightarrow>
       let array = (if 0 < length system then [system] else []) @ (if 0 < length self then [self] else []) @
                   (if 0 < length thirdparty then [thirdparty] else [])
       in if length array = 0 then None
          else let standard = ''import ('' @ [CHR 0x0A] @ write_groups array @ '')'' @ [CHR 0x0A]
               in case open_file path of
                    Inl err \<Rightarrow> Some err
                  | Inr originFile \<Rightarrow>
                      (case readAll originFile of
                         Inl err \<Rightarrow> Some err
                       | Inr contents \<Rightarrow>
                           if \<not> Contains contents standard
                           then Some (Errorf (path @ [CHR 0x0A] @ ''Import is not standardized, should be'' @ [CHR 0x0A] @ standard))
                           else None))"

subsection \<open>The whole tool\<close>

datatype printed = Usage | SetPackageName | CannotParse string error | NeedFormat error

fun check_files :: "(string \<Rightarrow> ImportSpec list result) \<Rightarrow> (string \<Rightarrow> 'f result) \<Rightarrow> ('f \<Rightarrow> string result) \<Rightarrow> string \<Rightarrow> string list \<Rightarrow>
    printed list \<times> int" where
  "check_files parseFile open_file readAll selfPackage [] = ([], 0)"
| "check_files parseFile open_file readAll selfPackage (file # files) =
     (case parseFile file of
        Inl err \<Rightarrow> ([CannotParse file err], 1)
      | Inr data \<Rightarrow>
          (case check open_file readAll selfPackage file data of
             Some err \<Rightarrow> ([NeedFormat err], 1)
           | None \<Rightarrow> check_files parseFile open_file readAll selfPackage files))"

text \<open>\<^verbatim>\<open>os.Args\<close> with the name of the program first; an unset variable reads as the empty string.\<close>

definition checker_main :: "(string \<Rightarrow> ImportSpec list result) \<Rightarrow> (string \<Rightarrow> 'f result) \<Rightarrow> ('f \<Rightarrow> string result) \<Rightarrow> string \<Rightarrow> string list \<Rightarrow>
    printed list \<times> int" where
  "checker_main parseFile open_file readAll packageName args =
     (if length args < 1 then ([Usage], 0)
      else if packageName = '''' then ([SetPackageName], 1)
      else check_files parseFile open_file readAll packageName (tl args))"

lemmas import_checker_defs [model_defs] = importData_def generatePath_def check_def checker_main_def

subsection \<open>The order of specs\<close>

text \<open>The class of an import: 0 for the standard library, 1 for the project, 2 for all others. The standard order is the
  stable sorting by class, and the standard text has one block with a line per import and a blank line
  where the class changes.\<close>

definition import_class :: "string \<Rightarrow> ImportSpec \<Rightarrow> nat" where
  "import_class self i =
     (if \<exists>pre post. is_PathValue i = pre @ self @ post then 1 else if CHR ''.'' \<in> set (is_PathValue i) then 2 else 0)"

definition standard_order :: "string \<Rightarrow> ImportSpec list \<Rightarrow> ImportSpec list" where
  "standard_order self specs = sort_key (import_class self) specs"

definition import_line :: "ImportSpec \<Rightarrow> string" where
  "import_line i = CHR 0x09 # (case is_Name i of None \<Rightarrow> '''' | Some n \<Rightarrow> n @ '' '') @ is_PathValue i @ [CHR 0x0A]"

fun import_lines :: "string \<Rightarrow> ImportSpec list \<Rightarrow> string" where
  "import_lines self [] = ''''"
| "import_lines self [i] = import_line i"
| "import_lines self (i # j # rest) =
     import_line i @ (if import_class self i = import_class self j then '''' else [CHR 0x0A]) @ import_lines self (j # rest)"

definition standard_block :: "string \<Rightarrow> ImportSpec list \<Rightarrow> string" where
  "standard_block self specs =
     ''import ('' @ [CHR 0x0A] @ import_lines self (standard_order self specs) @ '')'' @ [CHR 0x0A]"

abbreviation of_class :: "string \<Rightarrow> nat \<Rightarrow> ImportSpec list \<Rightarrow> ImportSpec list" where
  "of_class self k specs \<equiv> filter (\<lambda>i. import_class self i = k) specs"

lemma import_class_code:
  "import_class self i = (if Contains (is_PathValue i) self then 1 else if Contains (is_PathValue i) ''.'' then 2 else 0)"
  by (auto simp: import_class_def Contains_iff in_set_conv_decomp)

lemma sort_imports_filter:
  "sort_imports self specs (a, b, c) =
     (a @ map importData (of_class self 0 specs), b @ map importData (of_class self 1 specs),
      c @ map importData (of_class self 2 specs))"
  by (induction specs arbitrary: a b c) (auto simp: import_class_code)

lemma import_class_less: "import_class self i < 3"
  by (simp add: import_class_def)

lemma sorted_classes:
  assumes "sorted (map (import_class self) xs)"
  shows "xs = of_class self 0 xs @ of_class self 1 xs @ of_class self 2 xs"
  using assms
proof (induction xs)
  case (Cons i xs)
  have IH: "xs = of_class self 0 xs @ of_class self 1 xs @ of_class self 2 xs" using Cons by simp
  have none: "of_class self k xs = []" if "k < import_class self i" for k
    using Cons.prems that by (force simp: filter_empty_conv)
  consider "import_class self i = 0" | "import_class self i = 1" | "import_class self i = 2"
    using import_class_less [of self i] by linarith
  then show ?case
    by cases (use IH none [of 0] none [of 1] in simp_all)
qed simp

lemma standard_order_classes:
  "standard_order self specs = of_class self 0 specs @ of_class self 1 specs @ of_class self 2 specs"
proof -
  have "of_class self k (standard_order self specs) = of_class self k specs" for k
    unfolding standard_order_def by (rule sort_key_stable)
  with sorted_classes [of self "standard_order self specs"] show ?thesis
    by (simp add: standard_order_def)
qed

lemma generatePath_line: "generatePath (is_Name i) (is_PathValue i) = import_line i"
  by (simp add: generatePath_def import_line_def split: option.split)

lemma group_lines:
  "concat (map (\<lambda>pkg. generatePath (id_name pkg) (id_path pkg)) (map importData is')) = concat (map import_line is')"
  by (induction is') (simp_all add: importData_def generatePath_line)

lemma import_lines_group:
  assumes "\<forall>i \<in> set xs. import_class self i = k" "ys = [] \<or> import_class self (hd ys) \<noteq> k"
  shows "import_lines self (xs @ ys) =
    concat (map import_line xs) @ (if xs \<noteq> [] \<and> ys \<noteq> [] then [CHR 0x0A] else '''') @ import_lines self ys"
  using assms
proof (induction xs)
  case (Cons i xs)
  show ?case
  proof (cases xs)
    case Nil
    with Cons.prems show ?thesis by (cases ys) auto
  next
    case (Cons j zs)
    with Cons.IH Cons.prems show ?thesis by simp
  qed
qed simp

lemma hd_of_class: "of_class self k xs \<noteq> [] \<Longrightarrow> import_class self (hd (of_class self k xs)) = k"
  using hd_in_set [of "of_class self k xs"] by simp

text \<open>The groups the tool writes are the lines of the standard order.\<close>

lemma written_groups:
  "write_groups ((if 0 < length a then [map importData a] else []) @ (if 0 < length b then [map importData b] else []) @
       (if 0 < length c then [map importData c] else [])) = import_lines self (a @ b @ c)"
  if "a = of_class self 0 specs" "b = of_class self 1 specs" "c = of_class self 2 specs"
proof -
  have k: "\<forall>i \<in> set a. import_class self i = 0" "\<forall>i \<in> set b. import_class self i = 1" "\<forall>i \<in> set c. import_class self i = 2"
    using that by auto
  have hds: "b \<noteq> [] \<Longrightarrow> import_class self (hd b) = 1" "c \<noteq> [] \<Longrightarrow> import_class self (hd c) = 2"
    using that hd_of_class by blast+
  have "b @ c = [] \<or> import_class self (hd (b @ c)) \<noteq> 0" using hds by (cases "b = []"; cases "c = []") auto
  note A = import_lines_group [OF k(1) this]
  have "c = [] \<or> import_class self (hd c) \<noteq> 1" using hds by auto
  note B = import_lines_group [OF k(2) this]
  have C: "import_lines self c = concat (map import_line c)" using import_lines_group [OF k(3), of "[]"] by simp
  show ?thesis unfolding A B C by (auto simp: group_lines simp del: map_map)
qed

lemma standard_order_Nil [simp]: "standard_order self specs = [] \<longleftrightarrow> specs = []"
  unfolding standard_order_def by (metis length_0_conv length_sort)

lemma check_standard:
  "check open_file readAll self path specs =
     (if specs = [] then None
      else case open_file path of
             Inl err \<Rightarrow> Some err
           | Inr f \<Rightarrow> (case readAll f of
               Inl err \<Rightarrow> Some err
             | Inr contents \<Rightarrow> if Contains contents (standard_block self specs) then None
                 else Some (Errorf (path @ [CHR 0x0A] @ ''Import is not standardized, should be'' @ [CHR 0x0A] @ standard_block self specs))))"
proof -
  let ?a = "of_class self 0 specs" and ?b = "of_class self 1 specs" and ?c = "of_class self 2 specs"
  let ?array = "(if 0 < length ?a then [map importData ?a] else []) @ (if 0 < length ?b then [map importData ?b] else []) @
       (if 0 < length ?c then [map importData ?c] else [])"
  have sorted: "sort_imports self specs ([], [], []) = (map importData ?a, map importData ?b, map importData ?c)"
    by (simp add: sort_imports_filter)
  have "?a @ ?b @ ?c = [] \<longleftrightarrow> specs = []"
    unfolding standard_order_classes [symmetric] by simp
  then have empty: "length ?array = 0 \<longleftrightarrow> specs = []" by auto
  have written: "write_groups ?array = import_lines self (standard_order self specs)"
    unfolding standard_order_classes by (rule written_groups) (rule refl)+
  show ?thesis
    unfolding check_def sorted prod.case Let_def length_map empty written standard_block_def
    by (simp split: sum.split)
qed

subsection \<open>Properties\<close>

text \<open>The import checker accepts a file exactly when it has no imports, or contains verbatim the block of its imports in the
  standard order: sorted stably into standard library, project and others, one line each, with a blank
  line between two groups.\<close>

theorem check_accepts_iff:
  "check open_file readAll self path specs = None \<longleftrightarrow>
     specs = [] \<or> (\<exists>f pre post. open_file path = Inr f \<and> readAll f = Inr (pre @ standard_block self specs @ post))"
proof (cases "open_file path")
  case (Inr f)
  then show ?thesis unfolding check_standard Inr by (cases "readAll f") (auto simp: Contains_iff)
qed (auto simp: check_standard)


text \<open>The tool exits with 0 exactly when the package name is set and every file parses and is accepted; it prints at
  most one line, about the first file that is not, and exits with 1 then. The usage is never
  printed, because the argument list always holds the name of the program.\<close>

theorem import_checker_exit:
  assumes "args \<noteq> []" "checker_main parseFile open_file readAll package args = (output, code)"
  shows "(code = 0 \<longleftrightarrow> package \<noteq> '''' \<and>
      list_all (\<lambda>file. \<exists>specs. parseFile file = Inr specs \<and> check open_file readAll package file specs = None) (tl args)) \<and>
    (code = 0 \<and> output = [] \<or> code = 1 \<and> length output = 1) \<and> Usage \<notin> set output"
proof -
  have files: "(code = 0 \<longleftrightarrow>
      list_all (\<lambda>file. \<exists>specs. parseFile file = Inr specs \<and> check open_file readAll package file specs = None) files) \<and>
    (code = 0 \<and> output = [] \<or> code = 1 \<and> length output = 1) \<and> Usage \<notin> set output"
    if "check_files parseFile open_file readAll package files = (output, code)" for files
    using that by (induction files) (auto split: sum.splits option.splits)
  show ?thesis
    using assms files [of "tl args"] by (auto simp: checker_main_def Suc_le_eq split: if_splits)
qed

subsection \<open>Witnesses\<close>

definition sampleImports :: "ImportSpec list" where
  "sampleImports = [\<lparr>is_Name = None, is_PathValue = [CHR 0x22] @ ''k8s.io/klog'' @ [CHR 0x22]\<rparr>,
     \<lparr>is_Name = None, is_PathValue = [CHR 0x22] @ ''fmt'' @ [CHR 0x22]\<rparr>]"


theorem import_checker_exit_witness:
  "checker_main (\<lambda>_. Inr sampleImports) (\<lambda>_. Inr ()) (\<lambda>_. Inr ''package main'') '''' [''import_checker'', ''a.go''] = ([SetPackageName], 1) \<and>
   snd (checker_main (\<lambda>_. Inr sampleImports) (\<lambda>_. Inr ()) (\<lambda>_. Inr ''package main'') '''' [''import_checker'', ''a.go'']) \<noteq> 0"
proof -
  have m: "checker_main (\<lambda>_. Inr sampleImports) (\<lambda>_. Inr ()) (\<lambda>_. Inr ''package main'') '''' [''import_checker'', ''a.go''] = ([SetPackageName], 1)"
    by (simp add: checker_main_def)
  from import_checker_exit [OF _ m] m show ?thesis by simp
qed

end
