(* ===== verification/Worker_Pool.thy ===== *)
theory Worker_Pool
  imports Sync
begin

text \<open>
  The controller as a concurrent system: the informers deliver events to the handlers, the handlers put keys on the
  queue, and the workers of \<^verbatim>\<open>Controller.Run\<close> take them from it, all interleaved freely.

  \<open>worker_step\<close> is one atomic step of \<^verbatim>\<open>runWorker\<close>: taking a key, running the handler, handing the key
  back or forgetting it, and the deferred \<^verbatim>\<open>Done\<close>. The handler reads the caches at one moment between its start and its end; the queue, which is
  third-party code, is a parameter. What is relied on is what its documentation promises, \<open>workqueue_ok\<close>: of a queue in state
  \<open>q\<close> that is not shut down, \<open>owed q\<close> are the keys it will still hand out and \<open>processing q\<close> those handed out and not
  yet done; \<open>tick\<close> is what it does by itself, such as adding a key whose delay is over.
\<close>

subsection \<open>A worker\<close>

datatype worker =
    Idle
  | Working string
  | Returning string "error option"
  | Finishing string
  | Panicking go_panic string
  | Crashed go_panic

fun worker_step ::
  "'q workqueue \<Rightarrow> (string \<Rightarrow> 'w \<Rightarrow> (error option \<times> 'w) go) \<Rightarrow> worker \<Rightarrow> 'q \<times> 'w \<Rightarrow> worker \<times> 'q \<times> 'w" where
  "worker_step wq syncHandler Idle (q, w) =
     (case wq_Get wq q of ((key, quit), q1) \<Rightarrow> (if quit then Idle else Working key, q1, w))"
| "worker_step wq syncHandler (Working key) (q, w) =
     (case syncHandler key w of Inl p \<Rightarrow> (Panicking p key, q, w) | Inr (err, w1) \<Rightarrow> (Returning key err, q, w1))"
| "worker_step wq syncHandler (Returning key err) (q, w) =
     (Finishing key, (case err of Some _ \<Rightarrow> wq_AddRateLimited wq key q | None \<Rightarrow> wq_Forget wq key q), w)"
| "worker_step wq syncHandler (Finishing key) (q, w) = (Idle, wq_Done wq key q, w)"
| "worker_step wq syncHandler (Panicking p key) (q, w) = (Crashed p, wq_Done wq key q, w)"
| "worker_step wq syncHandler (Crashed p) (q, w) = (Crashed p, q, w)"

fun worker_steps ::
  "'q workqueue \<Rightarrow> (string \<Rightarrow> 'w \<Rightarrow> (error option \<times> 'w) go) \<Rightarrow> nat \<Rightarrow> worker \<Rightarrow> 'q \<times> 'w \<Rightarrow> worker \<times> 'q \<times> 'w" where
  "worker_steps wq syncHandler 0 v s = (v, s)"
| "worker_steps wq syncHandler (Suc n) v s =
     (case worker_step wq syncHandler v s of (v1, s1) \<Rightarrow> worker_steps wq syncHandler n v1 s1)"

text \<open>A worker that is not interrupted does in four steps what one iteration of its loop does.\<close>

lemma worker_iteration_steps:
  assumes "wq_Get wq q = ((key, False), q1)"
  shows "worker_steps wq syncHandler 4 Idle (q, w) =
    (case worker_iteration wq syncHandler (q, w) of (None, s) \<Rightarrow> (Idle, s) | (Some p, s) \<Rightarrow> (Crashed p, s))"
  using assms by (auto simp: numeral_eq_Suc worker_iteration_def split: sum.split option.split)

text \<open>The key a worker has taken and not yet reported done.\<close>

fun held :: "worker \<Rightarrow> string option" where
  "held (Working key) = Some key"
| "held (Returning key err) = Some key"
| "held (Finishing key) = Some key"
| "held (Panicking p key) = Some key"
| "held _ = None"

subsection \<open>Events\<close>

datatype informer_event =
    PodAdded event_object
  | PodUpdated event_object event_object
  | PodDeleted event_object
  | TAppAdded event_object
  | TAppUpdated event_object event_object
  | TAppDeleted event_object

primrec deliver :: "informers \<Rightarrow> 'q workqueue \<Rightarrow> informer_event \<Rightarrow> 'q \<Rightarrow> 'q go" where
  "deliver cx wq (PodAdded obj) q = Controller_addPod cx wq obj q"
| "deliver cx wq (PodUpdated old cur) q = Controller_updatePod cx wq old cur q"
| "deliver cx wq (PodDeleted obj) q = Inr (Controller_deletePod cx wq obj q)"
| "deliver cx wq (TAppAdded obj) q = Inr (addTAppFunc cx wq obj q)"
| "deliver cx wq (TAppUpdated old cur) q = updateTAppFunc cx wq old cur q"
| "deliver cx wq (TAppDeleted obj) q = Inr (deleteTAppFunc cx wq obj q)"

text \<open>The keys a handler adds, found by running it on a queue that only collects them.\<close>

definition collecting :: "string set workqueue" where
  "collecting = \<lparr>wq_Get = \<lambda>q. (('''', True), q), wq_Add = insert, wq_AddRateLimited = insert,
     wq_Forget = \<lambda>_ q. q, wq_Done = \<lambda>_ q. q\<rparr>"

definition woken :: "informers \<Rightarrow> informer_event \<Rightarrow> string set" where
  "woken cx e = (case deliver cx collecting e {} of Inl p \<Rightarrow> {} | Inr ks \<Rightarrow> ks)"

text \<open>Handlers on two queues that are related and stay so when a key is added to both.\<close>

lemma deliver_related:
  assumes add: "\<And>k q r. R q r \<Longrightarrow> R (wq_Add wq k q) (wq_Add wq' k r)"
    and "R q r" "deliver cx wq e q = Inr q'"
  shows "\<exists>r'. deliver cx wq' e r = Inr r' \<and> R q' r'"
proof -
  have one: "R (enqueueTApp cx wq obj q) (enqueueTApp cx wq' obj r)" if "R q r" for obj q r
    using that add by (auto simp: enqueueTApp_def split: sum.split)
  then have pod: "R (enqueueForPod cx wq p q) (enqueueForPod cx wq' p r)" if "R q r" for p q r
    using that by (auto simp: enqueueForPod_def split: sum.split)
  have same: "\<exists>r'. deliver cx wq' e r = Inr r'"
    using assms(3) by (cases e) (auto simp: Controller_addPod_def Controller_updatePod_def updateTAppFunc_def Let_def
        split: event_object.splits)
  note handlers = Controller_addPod_def Controller_updatePod_def Controller_deletePod_def addTAppFunc_def updateTAppFunc_def
    deleteTAppFunc_def
  show ?thesis
    using assms(2,3) one [OF assms(2)] pod [OF assms(2)] pod [OF pod [OF assms(2)]]
    by (cases e) (auto simp: handlers Let_def split: event_object.splits if_splits)
qed

subsection \<open>The contract of the queue\<close>

definition workqueue_ok :: "'q workqueue \<Rightarrow> ('q \<Rightarrow> string set) \<Rightarrow> ('q \<Rightarrow> string set) \<Rightarrow> ('q \<Rightarrow> 'q \<Rightarrow> bool) \<Rightarrow> bool" where
  "workqueue_ok wq owed processing tick \<longleftrightarrow>
     (\<forall>q. case wq_Get wq q of ((key, quit), q') \<Rightarrow>
        if quit then processing q' = processing q \<and> owed q \<subseteq> owed q'
        else key \<notin> processing q \<and> processing q' = insert key (processing q) \<and> owed q - {key} \<subseteq> owed q') \<and>
     (\<forall>q key. processing (wq_Add wq key q) = processing q \<and> insert key (owed q) \<subseteq> owed (wq_Add wq key q)) \<and>
     (\<forall>q key. processing (wq_AddRateLimited wq key q) = processing q \<and> insert key (owed q) \<subseteq> owed (wq_AddRateLimited wq key q)) \<and>
     (\<forall>q key. processing (wq_Forget wq key q) = processing q \<and> owed q \<subseteq> owed (wq_Forget wq key q)) \<and>
     (\<forall>q key. processing (wq_Done wq key q) = processing q - {key} \<and> owed q \<subseteq> owed (wq_Done wq key q)) \<and>
     (\<forall>q q'. tick q q' \<longrightarrow> processing q' = processing q \<and> owed q \<subseteq> owed q')"

lemma workqueue_okD:
  assumes "workqueue_ok wq owed processing tick"
  shows "wq_Get wq q = ((key, False), q') \<Longrightarrow>
      key \<notin> processing q \<and> processing q' = insert key (processing q) \<and> owed q - {key} \<subseteq> owed q'"
    and "wq_Get wq q = ((key, True), q') \<Longrightarrow> processing q' = processing q \<and> owed q \<subseteq> owed q'"
    and "processing (wq_Add wq key q) = processing q" "insert key (owed q) \<subseteq> owed (wq_Add wq key q)"
    and "processing (wq_AddRateLimited wq key q) = processing q" "insert key (owed q) \<subseteq> owed (wq_AddRateLimited wq key q)"
    and "processing (wq_Forget wq key q) = processing q" "owed q \<subseteq> owed (wq_Forget wq key q)"
    and "processing (wq_Done wq key q) = processing q - {key}" "owed q \<subseteq> owed (wq_Done wq key q)"
    and "tick q q' \<Longrightarrow> processing q' = processing q \<and> owed q \<subseteq> owed q'"
  using assms spec [of "\<lambda>q. case wq_Get wq q of ((key, quit), q') \<Rightarrow>
        if quit then processing q' = processing q \<and> owed q \<subseteq> owed q'
        else key \<notin> processing q \<and> processing q' = insert key (processing q) \<and> owed q - {key} \<subseteq> owed q'" q]
  unfolding workqueue_ok_def by (elim conjE, simp)+

lemma deliver_owed:
  assumes "workqueue_ok wq owed processing tick" "deliver cx wq e q = Inr q'"
  shows "owed q \<union> woken cx e \<subseteq> owed q'" "processing q' = processing q"
proof -
  let ?R = "\<lambda>q1 S. owed q \<union> S \<subseteq> owed q1 \<and> processing q1 = processing q"
  have "?R (wq_Add wq k q1) (wq_Add collecting k S)" if "?R q1 S" for k q1 S
    using that workqueue_okD(3,4) [OF assms(1)] by (force simp: collecting_def)
  from deliver_related [where R = ?R and r = "{}", OF this _ assms(2)] obtain S
    where "deliver cx collecting e {} = Inr S" "?R q' S" by auto
  then show "owed q \<union> woken cx e \<subseteq> owed q'" "processing q' = processing q" by (simp_all add: woken_def)
qed

subsection \<open>The system\<close>

text \<open>What can be seen of a step: keys woken by an event, a sync started, a sync that ran in a world and how it ended.\<close>

datatype 'w observation = Woken "string set" | Started string | Handled string "error option" 'w | Quiet

fun observe :: "worker \<Rightarrow> worker \<Rightarrow> 'w \<Rightarrow> 'w observation" where
  "observe Idle (Working key) w = Started key"
| "observe (Working key) (Returning key' err) w = Handled key err w"
| "observe _ _ w = Quiet"

fun crashed :: "worker \<Rightarrow> bool" where
  "crashed (Crashed p) = True"
| "crashed _ = False"

text \<open>A state has the workers, the queue and the world. An event changes the world as the informers do (\<open>changes\<close>) before its
  handler runs; the world may also change unseen by the caches. \<^verbatim>\<open>Get\<close> blocks until there is a key (\<open>available\<close>). A panic of
  a worker ends the process, and with it the run.\<close>

inductive pool_step ::
  "'q workqueue \<Rightarrow> (string \<Rightarrow> 'w \<Rightarrow> (error option \<times> 'w) go) \<Rightarrow> ('w \<Rightarrow> informers) \<Rightarrow> ('w \<Rightarrow> informer_event \<Rightarrow> 'w \<Rightarrow> bool) \<Rightarrow>
   ('q \<Rightarrow> bool) \<Rightarrow> ('q \<Rightarrow> 'q \<Rightarrow> bool) \<Rightarrow>
   worker list \<times> 'q \<times> 'w \<Rightarrow> 'w observation \<Rightarrow> worker list \<times> 'q \<times> 'w \<Rightarrow> bool"
  for wq syncHandler caches changes available tick where
  work: "\<lbrakk>\<not> list_ex crashed ws; i < length ws; ws ! i = Idle \<longrightarrow> available q;
      worker_step wq syncHandler (ws ! i) (q, w) = (v, q', w')\<rbrakk>
    \<Longrightarrow> pool_step wq syncHandler caches changes available tick (ws, q, w) (observe (ws ! i) v w) (ws[i := v], q', w')"
| event: "\<lbrakk>\<not> list_ex crashed ws; changes w e w'; deliver (caches w') wq e q = Inr q'\<rbrakk>
    \<Longrightarrow> pool_step wq syncHandler caches changes available tick (ws, q, w) (Woken (woken (caches w') e)) (ws, q', w')"
| outside: "\<lbrakk>\<not> list_ex crashed ws; caches w' = caches w\<rbrakk>
    \<Longrightarrow> pool_step wq syncHandler caches changes available tick (ws, q, w) Quiet (ws, q, w')"
| tick: "\<lbrakk>\<not> list_ex crashed ws; tick q q'\<rbrakk>
    \<Longrightarrow> pool_step wq syncHandler caches changes available tick (ws, q, w) Quiet (ws, q', w)"

inductive pool_run for wq syncHandler caches changes available tick where
  start: "pool_run wq syncHandler caches changes available tick s [] s"
| step: "\<lbrakk>pool_run wq syncHandler caches changes available tick s os t; pool_step wq syncHandler caches changes available tick t ob u\<rbrakk>
    \<Longrightarrow> pool_run wq syncHandler caches changes available tick s (os @ [ob]) u"

subsection \<open>What a key is promised\<close>

text \<open>The specification, for one key: after an event a sync is owed; it is owed still while one is running that had already
  started; a sync that ends well with no event since its start settles the key, any other owes it one more.\<close>

datatype key_state = Settled | Owed | Syncing bool

fun key_next :: "string \<Rightarrow> 'w observation \<Rightarrow> key_state \<Rightarrow> key_state" where
  "key_next k (Woken ks) s = (if k \<in> ks then (case s of Syncing _ \<Rightarrow> Syncing True | _ \<Rightarrow> Owed) else s)"
| "key_next k (Started key) s = (if key = k then Syncing False else s)"
| "key_next k (Handled key err w) s =
     (if key = k then (if err = None \<and> s = Syncing False then Settled else Owed) else s)"
| "key_next k Quiet s = s"

definition key_after :: "string \<Rightarrow> 'w observation list \<Rightarrow> key_state" where
  "key_after k os = fold (key_next k) os Settled"

lemma key_after_simps [simp]:
  "key_after k [] = Settled" "key_after k (os @ [ob]) = key_next k ob (key_after k os)"
  by (simp_all add: key_after_def)

subsection \<open>Who holds a key\<close>

definition exclusive :: "worker list \<Rightarrow> bool" where
  "exclusive ws \<longleftrightarrow>
     (\<forall>i < length ws. \<forall>j < length ws. held (ws ! i) \<noteq> None \<and> held (ws ! i) = held (ws ! j) \<longrightarrow> i = j)"

definition holds :: "worker list \<Rightarrow> string \<Rightarrow> bool" where
  "holds ws k \<longleftrightarrow> Some k \<in> held ` set ws"

lemma holds_nth: "holds ws k \<longleftrightarrow> (\<exists>i < length ws. held (ws ! i) = Some k)"
  unfolding holds_def image_iff by (metis in_set_conv_nth)

lemma exclusive_update:
  assumes "exclusive ws" "i < length ws"
    and "held v = None \<or> held v = held (ws ! i) \<or> (\<exists>k. held v = Some k \<and> \<not> holds ws k)"
  shows "exclusive (ws[i := v])"
proof -
  have "a = b" if "a < length ws" "b < length ws" "held (ws[i := v] ! a) \<noteq> None" "held (ws[i := v] ! a) = held (ws[i := v] ! b)" for a b
    using that assms unfolding exclusive_def holds_nth
    by (cases "a = i"; cases "b = i"; simp) (metis option.distinct(1))+
  then show ?thesis unfolding exclusive_def length_list_update by blast
qed

lemma holds_update:
  assumes "exclusive ws" "i < length ws"
  shows "holds (ws[i := v]) k \<longleftrightarrow> held v = Some k \<or> (holds ws k \<and> held (ws ! i) \<noteq> Some k)"
  using assms unfolding exclusive_def holds_nth by (simp add: nth_list_update) (metis option.distinct(1))

lemma in_set_update: "x \<in> set ws \<Longrightarrow> x \<noteq> ws ! i \<Longrightarrow> x \<in> set (ws[i := v])"
  by (metis in_set_conv_nth length_list_update nth_list_update_neq)

lemma set_update_subset: "x \<in> set (ws[i := v]) \<Longrightarrow> x = v \<or> x \<in> set ws"
  using set_update_subset_insert [of ws i v] by auto

lemma moved_away:
  assumes "exclusive ws" "i < length ws" "held (ws ! i) = Some k" "x \<in> set (ws[i := v])" "held x = Some k"
  shows "x = v"
proof (rule ccontr)
  assume "x \<noteq> v"
  moreover obtain j where j: "j < length ws" "ws[i := v] ! j = x" using assms(4) by (auto simp: in_set_conv_nth)
  ultimately have "j \<noteq> i" "ws ! j = x" using assms(2) by (auto simp: nth_list_update)
  with j(1) assms show False by (metis exclusive_def option.distinct(1))
qed

subsection \<open>The invariant\<close>

definition pool_inv ::
  "('q \<Rightarrow> string set) \<Rightarrow> ('q \<Rightarrow> string set) \<Rightarrow> 'w observation list \<Rightarrow> worker list \<times> 'q \<times> 'w \<Rightarrow> bool" where
  "pool_inv owed processing os st \<longleftrightarrow> (case st of (ws, q, w) \<Rightarrow>
     exclusive ws \<and> (\<forall>k. k \<in> processing q \<longleftrightarrow> holds ws k) \<and>
     (\<forall>k. Working k \<in> set ws \<longrightarrow> (\<exists>d. key_after k os = Syncing d)) \<and>
     (\<forall>k d. key_after k os = Syncing d \<longrightarrow> Working k \<in> set ws \<or> (\<exists>p. Panicking p k \<in> set ws) \<or> list_ex crashed ws) \<and>
     (\<forall>k. key_after k os = Syncing True \<longrightarrow> k \<in> owed q) \<and>
     (\<forall>k. key_after k os = Owed \<longrightarrow> k \<in> owed q \<or> (\<exists>e. Returning k (Some e) \<in> set ws)))"

lemma pool_invI:
  assumes "exclusive ws" "\<And>k. k \<in> processing q \<longleftrightarrow> holds ws k"
    and "\<And>k. Working k \<in> set ws \<Longrightarrow> \<exists>d. key_after k os = Syncing d"
    and "\<And>k d. key_after k os = Syncing d \<Longrightarrow> Working k \<in> set ws \<or> (\<exists>p. Panicking p k \<in> set ws) \<or> list_ex crashed ws"
    and "\<And>k. key_after k os = Syncing True \<Longrightarrow> k \<in> owed q"
    and "\<And>k. key_after k os = Owed \<Longrightarrow> k \<notin> owed q \<Longrightarrow> \<exists>e. Returning k (Some e) \<in> set ws"
  shows "pool_inv owed processing os (ws, q, w)"
  unfolding pool_inv_def prod.case by (intro conjI allI impI) (use assms in blast)+

lemma pool_invD:
  assumes "pool_inv owed processing os (ws, q, w)"
  shows "exclusive ws" "k \<in> processing q \<longleftrightarrow> holds ws k" "Working k \<in> set ws \<Longrightarrow> \<exists>d. key_after k os = Syncing d"
    and "key_after k os = Syncing d \<Longrightarrow> Working k \<in> set ws \<or> (\<exists>p. Panicking p k \<in> set ws) \<or> list_ex crashed ws"
    and "key_after k os = Syncing True \<Longrightarrow> k \<in> owed q"
    and "key_after k os = Owed \<Longrightarrow> k \<notin> owed q \<Longrightarrow> \<exists>e. Returning k (Some e) \<in> set ws"
  using assms by (auto simp: pool_inv_def)

text \<open>Changes of the queue alone, with the keys an event wakes.\<close>

lemma pool_inv_queue:
  assumes "pool_inv owed processing os (ws, q, w)" "processing q' = processing q" "owed q \<union> ks \<subseteq> owed q'"
  shows "pool_inv owed processing (os @ [Woken ks]) (ws, q', w')"
proof (rule pool_invI)
  note inv = pool_invD [OF assms(1)]
  show "exclusive ws" by (rule inv(1))
  show "k \<in> processing q' \<longleftrightarrow> holds ws k" for k using inv(2) assms(2) by simp
  show "\<exists>d. key_after k (os @ [Woken ks]) = Syncing d" if "Working k \<in> set ws" for k
    using inv(3) [OF that] by auto
  show "Working k \<in> set ws \<or> (\<exists>p. Panicking p k \<in> set ws) \<or> list_ex crashed ws"
    if "key_after k (os @ [Woken ks]) = Syncing d" for k d
    using that inv(4) [of k] by (auto split: if_splits key_state.splits)
  show "k \<in> owed q'" if "key_after k (os @ [Woken ks]) = Syncing True" for k
    using that inv(5) [of k] assms(3) by (auto split: if_splits key_state.splits)
  show "\<exists>e. Returning k (Some e) \<in> set ws" if "key_after k (os @ [Woken ks]) = Owed" "k \<notin> owed q'" for k
    using that inv(6) [of k] assms(3) by (auto split: if_splits key_state.splits)
qed

lemma key_after_nothing: "key_after k (os @ [Woken {}]) = key_after k os" "key_after k (os @ [Quiet]) = key_after k os"
  by simp_all

lemma pool_inv_quiet:
  assumes "pool_inv owed processing os (ws, q, w)" "processing q' = processing q" "owed q \<subseteq> owed q'"
  shows "pool_inv owed processing (os @ [Quiet]) (ws, q', w')"
  using pool_inv_queue [of owed processing os ws q w q' "{}" w'] assms by (simp add: pool_inv_def)

text \<open>A worker moves. Every move keeps the first two parts of the invariant for a common reason: it holds the key it held, gives it
  back, or takes one nobody holds.\<close>

lemma move_holders:
  assumes "pool_inv owed processing os (ws, q, w)" "i < length ws"
    and "held v = held (ws ! i) \<and> processing q' = processing q \<or>
      (\<exists>k. held v = Some k \<and> held (ws ! i) = None \<and> k \<notin> processing q \<and> processing q' = insert k (processing q)) \<or>
      (\<exists>k. held v = None \<and> held (ws ! i) = Some k \<and> processing q' = processing q - {k})"
  shows "exclusive (ws[i := v])" "k \<in> processing q' \<longleftrightarrow> holds (ws[i := v]) k"
proof -
  note inv = pool_invD(1,2) [OF assms(1)]
  show "exclusive (ws[i := v])"
    by (rule exclusive_update [OF inv(1) assms(2)]) (use assms(3) inv(2) in auto)
  have "holds ws k" if "held (ws ! i) = Some k" for k using that assms(2) by (auto simp: holds_nth)
  then show "k \<in> processing q' \<longleftrightarrow> holds (ws[i := v]) k"
    unfolding holds_update [OF inv(1) assms(2)] using assms(3) inv(2) [of k] by auto
qed

lemma pool_inv_take:
  assumes "pool_inv owed processing os (ws, q, w)" "i < length ws" "ws ! i = Idle" "\<not> list_ex crashed ws"
    and "key \<notin> processing q" "processing q' = insert key (processing q)" "owed q - {key} \<subseteq> owed q'"
  shows "pool_inv owed processing (os @ [Started key]) (ws[i := Working key], q', w)"
proof (rule pool_invI)
  note inv = pool_invD [OF assms(1)]
  have other: "x \<in> set ws \<Longrightarrow> x \<noteq> Idle \<Longrightarrow> x \<in> set (ws[i := Working key])" for x
    by (rule in_set_update) (simp_all add: assms(3))
  show "exclusive (ws[i := Working key])" "k \<in> processing q' \<longleftrightarrow> holds (ws[i := Working key]) k" for k
    using move_holders [OF assms(1,2), of "Working key" q'] assms(3,5,6) by auto
  show "\<exists>d. key_after k (os @ [Started key]) = Syncing d" if "Working k \<in> set (ws[i := Working key])" for k
    using set_update_subset [OF that] inv(3) by auto
  show "Working k \<in> set (ws[i := Working key]) \<or> (\<exists>p. Panicking p k \<in> set (ws[i := Working key])) \<or>
      list_ex crashed (ws[i := Working key])" if "key_after k (os @ [Started key]) = Syncing d" for k d
  proof (cases "k = key")
    case True
    then show ?thesis using assms(2) by (simp add: set_update_memI)
  next
    case False
    then show ?thesis using that inv(4) [of k d] other assms(4) by auto
  qed
  show "k \<in> owed q'" if "key_after k (os @ [Started key]) = Syncing True" for k
    using that inv(5) [of k] assms(7) by (auto split: if_splits)
  show "\<exists>e. Returning k (Some e) \<in> set (ws[i := Working key])" if "key_after k (os @ [Started key]) = Owed" "k \<notin> owed q'" for k
    using that inv(6) [of k] assms(7) other by (auto split: if_splits)
qed

lemma pool_inv_handled:
  assumes "pool_inv owed processing os (ws, q, w)" "i < length ws" "ws ! i = Working key" "\<not> list_ex crashed ws"
  shows "pool_inv owed processing (os @ [Handled key err w]) (ws[i := Returning key err], q, w')"
proof (rule pool_invI)
  let ?ws = "ws[i := Returning key err]"
  note inv = pool_invD [OF assms(1)]
  have other: "x \<in> set ws \<Longrightarrow> x \<noteq> Working key \<Longrightarrow> x \<in> set ?ws" for x
    by (rule in_set_update) (simp_all add: assms(3))
  have new: "Returning key err \<in> set ?ws" by (rule set_update_memI [OF assms(2)])
  obtain d where d: "key_after key os = Syncing d" using inv(3) assms(2,3) nth_mem by metis
  have "held (Returning key err) = held (ws ! i) \<and> processing q = processing q" by (simp add: assms(3))
  note moved = move_holders [OF assms(1,2) disjI1 [OF this]]
  show "exclusive ?ws" "k \<in> processing q \<longleftrightarrow> holds ?ws k" for k by (fact moved)+
  show "\<exists>d. key_after k (os @ [Handled key err w]) = Syncing d" if "Working k \<in> set ?ws" for k
  proof -
    have "k \<noteq> key" using moved_away [OF inv(1) assms(2), of key "Working key"] assms(3) that by auto
    then show ?thesis using set_update_subset [OF that] inv(3) by auto
  qed
  show "Working k \<in> set ?ws \<or> (\<exists>p. Panicking p k \<in> set ?ws) \<or> list_ex crashed ?ws"
    if "key_after k (os @ [Handled key err w]) = Syncing d" for k d
  proof -
    have "k \<noteq> key" "key_after k os = Syncing d" using that by (auto split: if_splits)
    then show ?thesis using inv(4) [of k d] other assms(4) by auto
  qed
  show "k \<in> owed q" if "key_after k (os @ [Handled key err w]) = Syncing True" for k
    using that inv(5) [of k] by (auto split: if_splits)
  show "\<exists>e. Returning k (Some e) \<in> set ?ws" if "key_after k (os @ [Handled key err w]) = Owed" "k \<notin> owed q" for k
  proof (cases "k = key")
    case True
    then have "err \<noteq> None" using that d inv(5) [of key] by (cases d) (auto split: if_splits)
    then show ?thesis using new True by auto
  next
    case False
    then show ?thesis using that inv(6) [of k] other by auto
  qed
qed

text \<open>The moves after the sync, and a panic: nothing is observed, and the key is owed before a failed sync is forgotten.\<close>

lemma pool_inv_after:
  assumes "pool_inv owed processing os (ws, q, w)" "i < length ws" "\<not> list_ex crashed ws" "owed q \<subseteq> owed q'"
    and "ws ! i = Returning key err \<and> v = Finishing key \<and> processing q' = processing q \<and> (err \<noteq> None \<longrightarrow> key \<in> owed q') \<or>
      ws ! i = Finishing key \<and> v = Idle \<and> processing q' = processing q - {key} \<or>
      ws ! i = Working key \<and> v = Panicking p key \<and> processing q' = processing q \<or>
      ws ! i = Panicking p key \<and> v = Crashed p \<and> processing q' = processing q - {key}"
  shows "pool_inv owed processing (os @ [Quiet]) (ws[i := v], q', w')"
proof (rule pool_invI)
  let ?ws = "ws[i := v]"
  note inv = pool_invD [OF assms(1)]
  have other: "x \<in> set ws \<Longrightarrow> x \<noteq> ws ! i \<Longrightarrow> x \<in> set ?ws" for x by (rule in_set_update)
  have new: "v \<in> set ?ws" by (rule set_update_memI [OF assms(2)])
  then have crash: "list_ex crashed ?ws" if "v = Crashed p" using that unfolding list_ex_iff by (metis crashed.simps(1))
  have "held v = held (ws ! i) \<and> processing q' = processing q \<or>
      (\<exists>k. held v = None \<and> held (ws ! i) = Some k \<and> processing q' = processing q - {k})"
    using assms(5) by (elim disjE conjE) simp_all
  then show "exclusive ?ws" "k \<in> processing q' \<longleftrightarrow> holds ?ws k" for k
    using move_holders [OF assms(1,2), of v q'] by auto
  show "\<exists>d. key_after k (os @ [Quiet]) = Syncing d" if "Working k \<in> set ?ws" for k
    using set_update_subset [OF that] inv(3) assms(5) by auto
  show "Working k \<in> set ?ws \<or> (\<exists>p. Panicking p k \<in> set ?ws) \<or> list_ex crashed ?ws"
    if "key_after k (os @ [Quiet]) = Syncing d" for k d
  proof -
    have "Working k \<in> set ws \<or> (\<exists>p. Panicking p k \<in> set ws)" using that inv(4) [of k d] assms(3) by auto
    then consider "Working k \<in> set ?ws" | p' where "Panicking p' k \<in> set ?ws" | "ws ! i = Working k" | p' where "ws ! i = Panicking p' k"
      using other by metis
    then show ?thesis by cases (use assms(5) new crash in auto)
  qed
  show "k \<in> owed q'" if "key_after k (os @ [Quiet]) = Syncing True" for k
    using that inv(5) [of k] assms(4) by auto
  show "\<exists>e. Returning k (Some e) \<in> set ?ws" if "key_after k (os @ [Quiet]) = Owed" "k \<notin> owed q'" for k
  proof -
    have "key_after k os = Owed" "k \<notin> owed q" using that assms(4) by auto
    then obtain e where "Returning k (Some e) \<in> set ws" using inv(6) by blast
    moreover have "ws ! i \<noteq> Returning k (Some e)" using that(2) assms(5) by (elim disjE conjE) auto
    ultimately have "Returning k (Some e) \<in> set ?ws" using other by simp
    then show ?thesis by blast
  qed
qed

lemma pool_inv_step:
  assumes "workqueue_ok wq owed processing tick" "pool_inv owed processing os t"
    and "pool_step wq syncHandler caches changes available tick t ob u"
  shows "pool_inv owed processing (os @ [ob]) u"
  using assms(3)
proof cases
  case (work ws i q w v q' w')
  note inv = assms(2) [unfolded work(1)]
  note wq = workqueue_okD [OF assms(1)]
  show ?thesis
  proof (cases "ws ! i")
    case Idle
    then obtain key quit where g: "wq_Get wq q = ((key, quit), q')" "v = (if quit then Idle else Working key)" "w' = w"
      using work(7) by (auto split: prod.splits)
    show ?thesis
    proof (cases quit)
      case True
      then show ?thesis
        using pool_inv_quiet [OF inv] wq(2) [of q key q'] Idle g work(2,3) list_update_id [of ws i] by simp
    next
      case False
      then show ?thesis
        using pool_inv_take [OF inv work(5) Idle work(4)] wq(1) [of q key q'] Idle g work(2,3) by simp
    qed
  next
    case (Working key)
    show ?thesis
    proof (cases "syncHandler key w")
      case (Inl p)
      then have "v = Panicking p key" "q' = q" "w' = w" using work(7) Working by simp_all
      then show ?thesis
        using pool_inv_after [OF inv work(5,4), of q key None v p] Working work(2,3) by simp
    next
      case (Inr r)
      obtain err w1 where r: "r = (err, w1)" by fastforce
      then show ?thesis using pool_inv_handled [OF inv work(5) Working work(4)] Inr Working work(2,3,7) by auto
    qed
  next
    case (Returning key err)
    have "owed q \<subseteq> owed q'" "processing q' = processing q" "err \<noteq> None \<longrightarrow> key \<in> owed q'"
      using work(7) Returning wq(5,6,7,8) by (auto split: option.splits) blast+
    then show ?thesis using pool_inv_after [OF inv work(5,4), of q' key err v] Returning work(2,3,7) by simp
  next
    case (Finishing key)
    then show ?thesis
      using pool_inv_after [OF inv work(5,4), of q' key None v] wq(9,10) work(2,3,7) by auto
  next
    case (Panicking p key)
    then show ?thesis
      using pool_inv_after [OF inv work(5,4), of q' key None v p] wq(9,10) work(2,3,7) by auto
  next
    case (Crashed p)
    then have "list_ex crashed ws" using work(5) unfolding list_ex_iff by (metis crashed.simps(1) nth_mem)
    then show ?thesis using work(4) by simp
  qed
next
  case (event ws w e w' q q')
  show ?thesis
    unfolding event(2,3)
    by (rule pool_inv_queue [OF assms(2) [unfolded event(1)] deliver_owed(2,1) [OF assms(1) event(6)]])
next
  case (outside ws w' w q)
  show ?thesis unfolding outside(2,3) by (rule pool_inv_quiet [OF assms(2) [unfolded outside(1)]]) simp_all
next
  case (tick ws q q' w)
  have "processing q' = processing q" "owed q \<subseteq> owed q'" using workqueue_okD(11) [OF assms(1) tick(5)] by simp_all
  then show ?thesis unfolding tick(2,3) by (rule pool_inv_quiet [OF assms(2) [unfolded tick(1)]])
qed

lemma pool_inv_run:
  assumes "workqueue_ok wq owed processing tick" "pool_run wq syncHandler caches changes available tick s os t"
    and "s = (replicate n Idle, q0, w0)" "processing q0 = {}"
  shows "pool_inv owed processing os t"
  using assms(2,3)
proof induction
  case (start s)
  then show ?case by (auto simp: assms(4) exclusive_def holds_def intro: pool_invI)
next
  case (step s os t ob u)
  from pool_inv_step [OF assms(1) step.IH [OF step.prems] step.hyps(2)] show ?case .
qed

subsection \<open>The workers keep the promise\<close>

text \<open>C5. The pool of workers refines the specification of a key under every interleaving: no two workers ever hold the same key, so
  the sync handler never runs twice at once for one TApp; a sync that is owed, because of an event or a failed sync, is in the queue or
  about to be put there, and one that runs is in the hands of a worker; so when all workers are idle and the queue owes nothing, every key is settled: its last
  sync ended well and started after its last event.\<close>

theorem workers_keep_promise:
  assumes "workqueue_ok wq owed processing tick" "processing q0 = {}"
    and "pool_run wq syncHandler caches changes available tick (replicate n Idle, q0, w0) os (ws, q, w)"
  shows "(\<forall>i < length ws. \<forall>j < length ws. held (ws ! i) \<noteq> None \<and> held (ws ! i) = held (ws ! j) \<longrightarrow> i = j) \<and>
    (\<forall>k. key_after k os = Owed \<longrightarrow> k \<in> owed q \<or> (\<exists>e. Returning k (Some e) \<in> set ws)) \<and>
    (\<forall>k d. key_after k os = Syncing d \<longrightarrow> Working k \<in> set ws \<or> (\<exists>p. Panicking p k \<in> set ws) \<or> list_ex crashed ws) \<and>
    (owed q = {} \<and> set ws \<subseteq> {Idle} \<longrightarrow> (\<forall>k. key_after k os = Settled))"
proof -
  note inv = pool_invD [OF pool_inv_run [OF assms(1,3) refl assms(2)]]
  have quiet: "key_after k os = Settled" if "owed q = {}" "set ws \<subseteq> {Idle}" for k
  proof (cases "key_after k os")
    case Owed
    from inv(6) [OF Owed] that show ?thesis by auto
  next
    case (Syncing d)
    from inv(4) [OF Syncing] that show ?thesis by (auto simp: list_ex_iff)
  qed
  show ?thesis using inv(1,4,6) quiet unfolding exclusive_def by blast
qed

text \<open>A queue with a list of pending keys and the set of those handed out; it hands out the first key that is not.\<close>

definition sampleWorkqueue :: "(string list \<times> string set) workqueue" where
  "sampleWorkqueue = \<lparr>
     wq_Get = \<lambda>(p, h). (case List.find (\<lambda>k. k \<notin> h) p of
        None \<Rightarrow> (('''', True), (p, h)) | Some k \<Rightarrow> ((k, False), (filter (\<lambda>j. j \<noteq> k) p, insert k h))),
     wq_Add = \<lambda>k (p, h). (List.insert k p, h), wq_AddRateLimited = \<lambda>k (p, h). (List.insert k p, h),
     wq_Forget = \<lambda>_ q. q, wq_Done = \<lambda>k (p, h). (p, h - {k})\<rparr>"

lemma sampleWorkqueue_ok: "workqueue_ok sampleWorkqueue (\<lambda>(p, h). set p) (\<lambda>(p, h). h) (\<lambda>_ _. False)"
proof -
  have "List.find P p = Some k \<Longrightarrow> P k" for P and p :: "string list" and k by (auto simp: find_Some_iff)
  then show ?thesis by (force simp: workqueue_ok_def sampleWorkqueue_def split: option.split)
qed

subsection \<open>A quiet controller has seen everything\<close>

text \<open>The last sync of a key that ran, and how it ended; the keys an event has woken.\<close>

definition last_sync :: "string \<Rightarrow> 'w observation list \<Rightarrow> (error option \<times> 'w) option" where
  "last_sync k os = fold (\<lambda>ob r. case ob of Handled key err w \<Rightarrow> if key = k then Some (err, w) else r | _ \<Rightarrow> r) os None"

definition was_woken :: "string \<Rightarrow> 'w observation list \<Rightarrow> bool" where
  "was_woken k os \<longleftrightarrow> list_ex (\<lambda>ob. case ob of Woken ks \<Rightarrow> k \<in> ks | _ \<Rightarrow> False) os"

lemma last_sync_simps [simp]:
  "last_sync k [] = None"
  "last_sync k (os @ [Handled key err w]) = (if key = k then Some (err, w) else last_sync k os)"
  "last_sync k (os @ [Woken ks]) = last_sync k os" "last_sync k (os @ [Started key]) = last_sync k os"
  "last_sync k (os @ [Quiet]) = last_sync k os"
  by (simp_all add: last_sync_def)

lemma was_woken_simps [simp]:
  "\<not> was_woken k []" "was_woken k (os @ [Handled key err w]) = was_woken k os"
  "was_woken k (os @ [Woken ks]) \<longleftrightarrow> was_woken k os \<or> k \<in> ks" "was_woken k (os @ [Started key]) = was_woken k os"
  "was_woken k (os @ [Quiet]) = was_woken k os"
  by (simp_all add: was_woken_def)

text \<open>What the workers see of the caches for a key changes only with events that wake it.\<close>

definition events_cover :: "('w \<Rightarrow> informers) \<Rightarrow> ('w \<Rightarrow> informer_event \<Rightarrow> 'w \<Rightarrow> bool) \<Rightarrow> (string \<Rightarrow> informers \<Rightarrow> 'v) \<Rightarrow> bool" where
  "events_cover caches changes view \<longleftrightarrow>
     (\<forall>w e w' k. changes w e w' \<and> view k (caches w') \<noteq> view k (caches w) \<longrightarrow> k \<in> woken (caches w') e)"

definition current :: "(string \<Rightarrow> 'w \<Rightarrow> (error option \<times> 'w) go) \<Rightarrow> ('w \<Rightarrow> informers) \<Rightarrow> (string \<Rightarrow> informers \<Rightarrow> 'v) \<Rightarrow> string \<Rightarrow>
    'w observation list \<Rightarrow> 'w \<Rightarrow> bool" where
  "current syncHandler caches view k os w \<longleftrightarrow>
     (\<exists>w0 w1. last_sync k os = Some (None, w0) \<and> syncHandler k w0 = Inr (None, w1) \<and> view k (caches w0) = view k (caches w))"

lemma work_observations:
  assumes "worker_step wq syncHandler u (q, w) = (v, q', w')"
  shows "observe u v w = Quiet \<and> w' = w \<or> (\<exists>key. observe u v w = Started key) \<and> w' = w \<or>
    (\<exists>key err. observe u v w = Handled key err w \<and> syncHandler key w = Inr (err, w'))"
  using assms by (cases u) (auto split: prod.splits sum.splits if_splits)

lemma current_step:
  assumes "pool_step wq syncHandler caches changes available tick (ws, q, w) ob (ws', q', w')"
    and "events_cover caches changes view" "\<And>key w err w'. syncHandler key w = Inr (err, w') \<Longrightarrow> caches w' = caches w"
    and "key_after k os = Settled \<Longrightarrow> was_woken k os \<Longrightarrow> current syncHandler caches view k os w"
    and "key_after k (os @ [ob]) = Settled" "was_woken k (os @ [ob])"
  shows "current syncHandler caches view k (os @ [ob]) w'"
  using assms(1)
proof cases
  case (work i v)
  from work_observations [OF work(6)] consider
      "ob = Quiet" "w' = w" | key where "ob = Started key" "w' = w"
    | key err where "ob = Handled key err w" "syncHandler key w = Inr (err, w')"
    using work(1) by blast
  then show ?thesis
  proof cases
    case 1
    then show ?thesis using assms(4-6) by (simp add: current_def)
  next
    case 2
    then show ?thesis using assms(4-6) by (auto simp: current_def split: if_splits)
  next
    case 3
    have "caches w' = caches w" by (rule assms(3) [OF 3(2)])
    then show ?thesis using assms(4-6) 3 by (auto simp: current_def split: if_splits)
  qed
next
  case (event e)
  have "k \<notin> woken (caches w') e" "key_after k os = Settled" "was_woken k os"
    using assms(5,6) event(1) by (auto split: if_splits key_state.splits)
  moreover from this(1) have "view k (caches w') = view k (caches w)"
    using assms(2) event(4) unfolding events_cover_def by blast
  ultimately show ?thesis using assms(4) event(1) by (simp add: current_def)
next
  case outside
  then show ?thesis using assms(4-6) by (simp add: current_def)
next
  case tick
  then show ?thesis using assms(4-6) by (simp add: current_def)
qed

lemma current_run:
  assumes "pool_run wq syncHandler caches changes available tick s os t"
    and "events_cover caches changes view" "\<And>key w err w'. syncHandler key w = Inr (err, w') \<Longrightarrow> caches w' = caches w"
    and "key_after k os = Settled" "was_woken k os"
  shows "current syncHandler caches view k os (snd (snd t))"
  using assms(1,4,5)
proof induction
  case (step s os t ob u)
  obtain ws q w ws' q' w' where tu: "t = (ws, q, w)" "u = (ws', q', w')" by (metis prod.collapse)
  show ?case
    using current_step [OF step.hyps(2) [unfolded tu] assms(2,3)] step.IH step.prems by (simp add: tu)
qed simp

text \<open>What one round reads of the caches: the TApp of the key, and its pods.\<close>

definition round_input :: "'w env \<Rightarrow> string \<Rightarrow> informers \<Rightarrow> error + TApp result \<times> Pod list result" where
  "round_input env key cx =
     (case env_splitKey env key of
        Inl err \<Rightarrow> Inl err
      | Inr (ns, name) \<Rightarrow>
          (let t = tAppNamespaceLister_Get cx ns name
           in Inr (t, case t of Inl err \<Rightarrow> Inl err | Inr tapp \<Rightarrow> getPodsForTApp cx tapp)))"

text \<open>A controller whose workers are idle and whose queue owes nothing is up to date for every key an event has woken. Events are assumed
  to cover the view of a round; \<open>Event_Coverage\<close> shows when they do.\<close>

lemma quiet_current:
  assumes "workqueue_ok wq owed processing tick" "processing q0 = {}"
    and "pool_run wq (Sync env ch) (env_caches env) changes available tick (replicate n Idle, q0, w0) os (ws, q, w)"
    and "events_cover (env_caches env) changes (round_input env)"
    and "\<And>key w err w'. Sync env ch key w = Inr (err, w') \<Longrightarrow> env_caches env w' = env_caches env w"
    and "owed q = {}" "set ws \<subseteq> {Idle}" "was_woken k os"
  shows "\<exists>w1 w2. last_sync k os = Some (None, w1) \<and> Sync env ch k w1 = Inr (None, w2) \<and>
    round_input env k (env_caches env w1) = round_input env k (env_caches env w)"
proof -
  note inv = pool_invD [OF pool_inv_run [OF assms(1,3) refl assms(2)]]
  have "key_after k os = Settled"
    using inv(4) [of k] inv(6) [of k] assms(6,7) by (cases "key_after k os") (auto simp: list_ex_iff)
  from current_run [OF assms(3,4,5) this assms(8)] show ?thesis by (simp add: current_def)
qed

text \<open>Caches that hold given objects, and a TApp that is deleted: the world says whether the cache still has it, and the pods are synced only
  afterwards.\<close>

definition storeCaches :: "TApp list \<Rightarrow> Pod list \<Rightarrow> informers" where
  "storeCaches ts ps = (sampleCaches ps)\<lparr>
     inf_visitTApps := \<lambda>ns sel. (filter (\<lambda>t. tapp_Namespace t = ns) ts, None),
     inf_getTAppByKey := \<lambda>k. Inr (List.find (\<lambda>t. GetTAppFullName t = k) ts),
     inf_listPods := \<lambda>ns sel. Inr (filter (\<lambda>p. pod_Namespace p = ns \<and> sel_Matches sel (pod_Labels p)) ps),
     inf_keyOf := \<lambda>obj. case obj of TAppObject t \<Rightarrow> Inr (GetTAppFullName t) | DeletedFinalStateUnknown k _ \<Rightarrow> Inr k | _ \<Rightarrow> Inl NotFound\<rparr>"

definition deletionEnv :: "bool env" where
  "deletionEnv = \<lparr>env_caches = \<lambda>w. storeCaches (if w then [sampleTApp 1] else []) [],
     env_podStoreSynced = \<lambda>w. \<not> w, env_splitKey = \<lambda>k. if k = ''ns/web'' then Inr (''ns'', ''web'') else Inl NotFound,
     env_updateTApp = echo, env_updateStatus = echo, env_updatePodStatus = None, env_podGet = \<lambda>_ _ _. Inl NotFound,
     env_now = \<lambda>_. 0, env_spew = \<lambda>_. '''', env_deletePodAfterAppFinish = True, env_percent = \<lambda>_ _ _. Inr 1,
     env_node = \<lambda>_ _. Inl NotFound,
     env_client = \<lparr>ic_isDying = \<lambda>_. False, ic_Delete = \<lambda>_ _ w. Inr (None, w), ic_Get = \<lambda>_ _. Inr None,
       ic_Create = \<lambda>_ w. Inr (None, w), ic_Update = \<lambda>_ _ w. Inr (None, w)\<rparr>\<rparr>"

definition deletion :: "bool \<Rightarrow> informer_event \<Rightarrow> bool \<Rightarrow> bool" where
  "deletion w e w' \<longleftrightarrow> w \<and> \<not> w' \<and> e = TAppDeleted (TAppObject (sampleTApp 1))"

abbreviation deletion_run :: "worker list \<times> (string list \<times> string set) \<times> bool \<Rightarrow> bool observation list \<Rightarrow>
    worker list \<times> (string list \<times> string set) \<times> bool \<Rightarrow> bool" where
  "deletion_run \<equiv> pool_run sampleWorkqueue (Sync deletionEnv \<lparr>ch_order1 = [], ch_order2 = [], ch_schedule = []\<rparr>) (env_caches deletionEnv)
     deletion (\<lambda>(p, h). set p - h \<noteq> {}) (\<lambda>_ _. False)"

lemma deletion_key: "inf_keyOf (env_caches deletionEnv w) (TAppObject (sampleTApp 1)) = Inr ''ns/web''"
  by (simp add: deletionEnv_def storeCaches_def GetTAppFullName_def sample_defs)

lemma deletion_woken: "woken (env_caches deletionEnv w) (TAppDeleted (TAppObject (sampleTApp 1))) = {''ns/web''}"
  by (simp add: woken_def deleteTAppFunc_def enqueueTApp_def deletion_key collecting_def)

lemma deletion_Sync:
  "Sync deletionEnv ch k w =
     Inr (if w then Some (Errorf ''waiting for pods controller to sync'')
          else if k = ''ns/web'' then None else Some NotFound, w)"
  by (simp add: Sync_def deletionEnv_def storeCaches_def env_listerGet_def tAppNamespaceLister_Get_def IsNotFound_def)

lemma deletion_run_ends:
  "deletion_run ([Idle], ([], {}), True)
     [Woken {''ns/web''}, Started ''ns/web'', Handled ''ns/web'' None False, Quiet, Quiet] ([Idle], ([], {}), False)"
proof -
  let ?k = "''ns/web''" and ?step = "pool_step sampleWorkqueue (Sync deletionEnv \<lparr>ch_order1 = [], ch_order2 = [], ch_schedule = []\<rparr>)
    (env_caches deletionEnv) deletion (\<lambda>(p, h). set p - h \<noteq> {}) (\<lambda>_ _. False)"
  have 1: "?step ([Idle], ([], {}), True) (Woken {?k}) ([Idle], ([?k], {}), False)"
    using pool_step.event [of "[Idle]" deletion True "TAppDeleted (TAppObject (sampleTApp 1))" False "env_caches deletionEnv" sampleWorkqueue "([], {})"]
    by (simp add: deletion_def deletion_woken deleteTAppFunc_def enqueueTApp_def deletion_key sampleWorkqueue_def)
  have move: "?step ([u], q, w) (observe u v w) ([v], q', w')"
    if "\<not> crashed u" "u = Idle \<longrightarrow> (case q of (p, h) \<Rightarrow> set p - h \<noteq> {})"
      "worker_step sampleWorkqueue (Sync deletionEnv \<lparr>ch_order1 = [], ch_order2 = [], ch_schedule = []\<rparr>) u (q, w) = (v, q', w')"
    for u q w v q' w'
  proof -
    have "?step ([u], q, w) (observe ([u] ! 0) v w) ([u][0 := v], q', w')" by (rule pool_step.work) (use that in simp_all)
    then show ?thesis by simp
  qed
  have 2: "?step ([Idle], ([?k], {}), False) (Started ?k) ([Working ?k], ([], {?k}), False)"
    using move [of Idle "([?k], {})" False "Working ?k" "([], {?k})" False] by (simp add: sampleWorkqueue_def)
  have 3: "?step ([Working ?k], ([], {?k}), False) (Handled ?k None False) ([Returning ?k None], ([], {?k}), False)"
    using move [of "Working ?k" "([], {?k})" False "Returning ?k None" "([], {?k})" False] by (simp add: deletion_Sync)
  have 4: "?step ([Returning ?k None], ([], {?k}), False) Quiet ([Finishing ?k], ([], {?k}), False)"
    using move [of "Returning ?k None" "([], {?k})" False "Finishing ?k" "([], {?k})" False] by (simp add: sampleWorkqueue_def)
  have 5: "?step ([Finishing ?k], ([], {?k}), False) Quiet ([Idle], ([], {}), False)"
    using move [of "Finishing ?k" "([], {?k})" False Idle "([], {})" False] by (simp add: sampleWorkqueue_def)
  show ?thesis
    using pool_run.step [OF pool_run.step [OF pool_run.step [OF pool_run.step [OF pool_run.step [OF pool_run.start 1] 2] 3] 4] 5] by simp
qed

theorem workers_keep_promise_witness:
  "\<exists>os. deletion_run ([Idle], ([], {}), True) os ([Idle], ([], {}), False) \<and> length os = 5 \<and> key_after ''ns/web'' os = Settled"
proof -
  have idle: "([Idle], ([], {}), True) = (replicate 1 Idle, ([] :: string list, {} :: string set), True)" by simp
  from workers_keep_promise [OF sampleWorkqueue_ok _ deletion_run_ends [unfolded idle]]
  have "key_after ''ns/web'' [Woken {''ns/web''}, Started ''ns/web'', Handled ''ns/web'' None False, Quiet, Quiet] = Settled" by simp
  with deletion_run_ends show ?thesis
    by (intro exI [of _ "[Woken {''ns/web''}, Started ''ns/web'', Handled ''ns/web'' None False, Quiet, Quiet]"]) simp
qed

subsection \<open>Which events wake which TApps\<close>

text \<open>Every event of a TApp, also a resync and a tombstone, wakes the key of its object.\<close>

lemma tapp_events_wake:
  assumes "inf_keyOf cx obj = Inr key"
  shows "woken cx (TAppAdded obj) = {key}" "woken cx (TAppDeleted obj) = {key}"
    and "obj = TAppObject t \<Longrightarrow> woken cx (TAppUpdated (TAppObject old) obj) = {key}"
  using assms by (simp_all add: woken_def addTAppFunc_def deleteTAppFunc_def updateTAppFunc_def enqueueTApp_def collecting_def)

text \<open>A pod wakes the oldest TApp whose selector matches, which need not be the one that owns it: of two TApps that select the same pods, the
  younger one is not woken by its own pods.\<close>

theorem overlapping_owner_not_woken:
  "let pod = (samplePod ''0'')\<lparr>pod_Meta := (pod_Meta (samplePod ''0''))\<lparr>om_OwnerReferences := [getControllerRef (sampleTApp 1)]\<rparr>\<rparr>
   in getPodsForTApp (sampleCaches [pod]) (sampleTApp 1) = Inr [pod] \<and>
      woken (sampleCaches [pod]) (PodAdded (PodObject pod)) = {GetTAppFullName olderTApp} \<and>
      GetTAppFullName olderTApp \<noteq> GetTAppFullName (sampleTApp 1)"
  by (simp add: Let_def getPodsForTApp_def woken_def Controller_addPod_def enqueueForPod_def enqueueTApp_def collecting_def
      getTAppForPod_def sample_caches_defs sample_defs gm_len_def overlappingTApps_sort_def overlappingTApps_Less_def
      GetTAppFullName_def getControllerRef_def getTAppKind_def)

end
