(* ===== verification/Event_Coverage.thy ===== *)
theory Event_Coverage
  imports Worker_Pool
begin

text \<open>
  Do the event handlers wake the TApps that have to be synced? \<open>Worker_Pool\<close> shows that no wake-up is lost; here the handlers
  of \<^verbatim>\<open>NewController\<close> are shown to wake every TApp for which a round would now read something else, as long as no pod has
  two TApps whose selectors match it. A controller at rest then has synced every TApp in its cache against what the caches hold.

  The caches are client-go's. What is relied on is their documentation: listers return the stored objects (\<open>caches_hold\<close>), and an
  informer changes its store and then calls the handlers with the object before and after (\<open>store_change\<close>).
\<close>

subsection \<open>The stores of the informers\<close>

definition pod_key :: "Pod \<Rightarrow> string \<times> string" where
  "pod_key p = (pod_Namespace p, pod_Name p)"

definition caches_hold :: "informers \<Rightarrow> TApp list \<Rightarrow> Pod list \<Rightarrow> bool" where
  "caches_hold cx ts ps \<longleftrightarrow>
     (\<forall>ns. inf_visitTApps cx ns (inf_everything cx) = (filter (\<lambda>t. tapp_Namespace t = ns) ts, None)) \<and>
     (\<forall>k. inf_getTAppByKey cx k = Inr (List.find (\<lambda>t. GetTAppFullName t = k) ts)) \<and>
     (\<forall>ns sel. inf_listPods cx ns sel = Inr (filter (\<lambda>p. pod_Namespace p = ns \<and> sel_Matches sel (pod_Labels p)) ps)) \<and>
     (\<forall>t. tapp_Namespace t \<noteq> '''' \<longrightarrow> inf_keyOf cx (TAppObject t) = Inr (GetTAppFullName t)) \<and>
     (\<forall>k obj. inf_keyOf cx (DeletedFinalStateUnknown k obj) = Inr k)"

lemma caches_holdD:
  assumes "caches_hold cx ts ps"
  shows "inf_visitTApps cx ns (inf_everything cx) = (filter (\<lambda>t. tapp_Namespace t = ns) ts, None)"
    and "inf_getTAppByKey cx k = Inr (List.find (\<lambda>t. GetTAppFullName t = k) ts)"
    and "inf_listPods cx ns sel = Inr (filter (\<lambda>p. pod_Namespace p = ns \<and> sel_Matches sel (pod_Labels p)) ps)"
    and "tapp_Namespace t \<noteq> '''' \<Longrightarrow> inf_keyOf cx (TAppObject t) = Inr (GetTAppFullName t)"
    and "inf_keyOf cx (DeletedFinalStateUnknown k obj) = Inr k"
  using assms by (auto simp: caches_hold_def)

text \<open>A watch may drop the deletion of an object; the handler then gets a tombstone with the stored object. An update of a pod
  without a new resource version is a resync. The delivered objects are the stored ones.\<close>

inductive store_change :: "TApp list \<times> Pod list \<Rightarrow> informer_event \<Rightarrow> TApp list \<times> Pod list \<Rightarrow> bool" where
  tapp_added: "GetTAppFullName t \<notin> GetTAppFullName ` set ts \<Longrightarrow> store_change (ts, ps) (TAppAdded (TAppObject t)) (ts @ [t], ps)"
| tapp_updated: "\<lbrakk>old \<in> set ts; GetTAppFullName t = GetTAppFullName old\<rbrakk> \<Longrightarrow>
    store_change (ts, ps) (TAppUpdated (TAppObject old) (TAppObject t))
      (map (\<lambda>u. if GetTAppFullName u = GetTAppFullName t then t else u) ts, ps)"
| tapp_deleted: "\<lbrakk>t \<in> set ts; obj = TAppObject t \<or> obj = DeletedFinalStateUnknown (GetTAppFullName t) (TAppObject t)\<rbrakk> \<Longrightarrow>
    store_change (ts, ps) (TAppDeleted obj) (filter (\<lambda>u. GetTAppFullName u \<noteq> GetTAppFullName t) ts, ps)"
| pod_added: "pod_key p \<notin> pod_key ` set ps \<Longrightarrow> store_change (ts, ps) (PodAdded (PodObject p)) (ts, ps @ [p])"
| pod_updated: "\<lbrakk>old \<in> set ps; pod_key p = pod_key old;
      om_ResourceVersion (pod_Meta p) = om_ResourceVersion (pod_Meta old) \<Longrightarrow> p = old\<rbrakk> \<Longrightarrow>
    store_change (ts, ps) (PodUpdated (PodObject old) (PodObject p)) (ts, map (\<lambda>q. if pod_key q = pod_key p then p else q) ps)"
| pod_deleted: "\<lbrakk>p \<in> set ps; obj = PodObject p \<or> obj = DeletedFinalStateUnknown k (PodObject p)\<rbrakk> \<Longrightarrow>
    store_change (ts, ps) (PodDeleted obj) (ts, filter (\<lambda>q. pod_key q \<noteq> pod_key p) ps)"

inductive_cases store_changeE: "store_change (ts, ps) e (ts', ps')"

subsection \<open>Pods and their TApps\<close>

text \<open>The pods a round of a TApp reads.\<close>

definition reads :: "informers \<Rightarrow> TApp \<Rightarrow> Pod \<Rightarrow> bool" where
  "reads cx t p \<longleftrightarrow> pod_Namespace p = tapp_Namespace t \<and>
     (case inf_selectorOf cx (spec_Selector (tapp_Spec t)) of Inl _ \<Rightarrow> False | Inr sel \<Rightarrow> sel_Matches sel (pod_Labels p)) \<and>
     (\<exists>r. inf_controllerOf cx p = Some r \<and> or_UID r = tapp_UID t)"

text \<open>No overlap: the TApps have valid selectors, and when a round of one reads a pod, its selector is the only one that matches the
  pod's labels, of which there are some.\<close>

definition no_overlap :: "informers \<Rightarrow> TApp list \<Rightarrow> Pod list \<Rightarrow> bool" where
  "no_overlap cx ts ps \<longleftrightarrow>
     distinct (map GetTAppFullName ts) \<and> distinct (map pod_key ps) \<and>
     (\<forall>t \<in> set ts. valid_selector cx t \<and> tapp_Namespace t \<noteq> '''' \<and> CHR ''/'' \<notin> set (tapp_Namespace t)) \<and>
     (\<forall>t \<in> set ts. \<forall>p \<in> set ps. reads cx t p \<longrightarrow> gm_len (pod_Labels p) \<noteq> 0 \<and> selects cx (pod_Labels p) t \<and>
        (\<forall>u \<in> set ts. tapp_Namespace u = tapp_Namespace t \<and> selects cx (pod_Labels p) u \<longrightarrow> u = t))"

lemma no_overlapD:
  assumes "no_overlap cx ts ps"
  shows "distinct (map GetTAppFullName ts)" "distinct (map pod_key ps)"
    and "t \<in> set ts \<Longrightarrow> valid_selector cx t" "t \<in> set ts \<Longrightarrow> tapp_Namespace t \<noteq> ''''"
    and "t \<in> set ts \<Longrightarrow> CHR ''/'' \<notin> set (tapp_Namespace t)"
  using assms by (auto simp: no_overlap_def)

lemma getPodsForTApp_stores:
  assumes "caches_hold cx ts ps"
  shows "getPodsForTApp cx t = (case inf_selectorOf cx (spec_Selector (tapp_Spec t)) of
    Inl err \<Rightarrow> Inl err | Inr sel \<Rightarrow> Inr (filter (reads cx t) ps))"
  using caches_holdD(3) [OF assms]
  by (auto simp: getPodsForTApp_def owned_fold reads_def conj_ac split: sum.split intro!: filter_cong)

lemma getTAppForPod_reader:
  assumes "caches_hold cx ts ps'" "no_overlap cx ts ps" "t \<in> set ts" "p \<in> set ps" "reads cx t p"
  shows "getTAppForPod cx p = Inr t"
proof -
  let ?ts = "filter (\<lambda>u. tapp_Namespace u = pod_Namespace p) ts"
  have ns: "pod_Namespace p = tapp_Namespace t" using assms(5) by (simp add: reads_def)
  have own: "gm_len (pod_Labels p) \<noteq> 0" "selects cx (pod_Labels p) t"
    "u \<in> set ts \<Longrightarrow> tapp_Namespace u = tapp_Namespace t \<Longrightarrow> selects cx (pod_Labels p) u \<Longrightarrow> u = t" for u
    using assms(2-5) unfolding no_overlap_def by blast+
  then have only: "set (candidates cx p ?ts) = {t}" using assms(3) ns by auto
  have valid: "\<forall>u \<in> set ?ts. valid_selector cx u" using no_overlapD(3) [OF assms(2)] by simp
  from only have "candidates cx p ?ts \<noteq> []" by (metis empty_set insert_not_empty)
  then obtain us where "getTAppForPod cx p = Inr (hd us)" "set us = set (candidates cx p ?ts)" "us \<noteq> []"
    using getTAppForPod_sorted [OF caches_holdD(1) [OF assms(1)] valid own(1)] by blast
  moreover from this only have "hd us = t" using hd_in_set [of us] by auto
  ultimately show ?thesis by simp
qed

subsection \<open>Whom an event wakes\<close>

lemma woken_for_pod:
  assumes "getTAppForPod cx p = Inr t" "inf_keyOf cx (TAppObject t) = Inr key"
  shows "key \<in> enqueueForPod cx collecting p S" "S \<subseteq> enqueueForPod cx collecting q S"
proof -
  have keys: "\<forall>k S. (\<lambda>S. S) (wq_Add collecting k S) = insert k ((\<lambda>S. S) S)" by (simp add: collecting_def)
  show "key \<in> enqueueForPod cx collecting p S" "S \<subseteq> enqueueForPod cx collecting q S"
    using enqueueForPod_keys [OF keys, of cx p S] enqueueForPod_keys [OF keys, of cx q S] assms by auto
qed

lemma pod_events_wake:
  assumes "getTAppForPod cx p = Inr t" "inf_keyOf cx (TAppObject t) = Inr key"
  shows "key \<in> woken cx (PodAdded (PodObject p))" "key \<in> woken cx (PodDeleted (PodObject p))"
    and "key \<in> woken cx (PodDeleted (DeletedFinalStateUnknown k (PodObject p)))"
    and "om_ResourceVersion (pod_Meta p) \<noteq> om_ResourceVersion (pod_Meta old) \<Longrightarrow> key \<in> woken cx (PodUpdated (PodObject old) (PodObject p))"
  using woken_for_pod [OF assms, of "{}"] woken_for_pod(2) [OF assms, of "enqueueForPod cx collecting p {}" old]
  by (auto simp: woken_def Controller_addPod_def Controller_deletePod_def Controller_updatePod_def Let_def)

text \<open>A pod that changes wakes the TApp it belonged to before, too.\<close>

lemma pod_update_wakes_old:
  assumes "getTAppForPod cx old = Inr t" "inf_keyOf cx (TAppObject t) = Inr key" "selectors_read_maps cx"
    and "pod_Namespace p = pod_Namespace old" "om_ResourceVersion (pod_Meta p) \<noteq> om_ResourceVersion (pod_Meta old)"
  shows "key \<in> woken cx (PodUpdated (PodObject old) (PodObject p))"
proof (cases "gm_DeepEqual (pod_Labels p) (pod_Labels old)")
  case True
  from getTAppForPod_DeepEqual [OF assms(3) True assms(4,1)] show ?thesis by (rule pod_events_wake(4) [OF _ assms(2,5)])
next
  case False
  then show ?thesis
    using woken_for_pod(1) [OF assms(1,2)] assms(5) by (simp add: woken_def Controller_updatePod_def Let_def)
qed

subsection \<open>Events cover what a round reads\<close>

text \<open>Keys as \<^verbatim>\<open>cache.SplitMetaNamespaceKey\<close> splits them; one without a slash has no namespace.\<close>

definition splits_keys :: "'w env \<Rightarrow> bool" where
  "splits_keys env \<longleftrightarrow>
     (\<forall>k ns name. env_splitKey env k = Inr (ns, name) \<longrightarrow> k = ns @ ''/'' @ name \<or> (ns = '''' \<and> k = name))"

definition clean_change :: "('w \<Rightarrow> informers) \<Rightarrow> 'w \<Rightarrow> informer_event \<Rightarrow> 'w \<Rightarrow> bool" where
  "clean_change caches w e w' \<longleftrightarrow>
     (\<exists>ts ps ts' ps'. caches_hold (caches w) ts ps \<and> caches_hold (caches w') ts' ps' \<and> store_change (ts, ps) e (ts', ps') \<and>
        no_overlap (caches w) ts ps \<and> no_overlap (caches w') ts' ps' \<and>
        inf_selectorOf (caches w') = inf_selectorOf (caches w) \<and> inf_controllerOf (caches w') = inf_controllerOf (caches w) \<and>
        selectors_read_maps (caches w'))"

lemma reads_same:
  assumes "inf_selectorOf cx' = inf_selectorOf cx" "inf_controllerOf cx' = inf_controllerOf cx"
  shows "reads cx' = reads cx" "no_overlap cx' = no_overlap cx"
  using assms by (auto simp: fun_eq_iff reads_def no_overlap_def valid_selector_def selects_def)

lemma find_full_name:
  "List.find (\<lambda>t. GetTAppFullName t = k) ts = Some t \<Longrightarrow> t \<in> set ts \<and> GetTAppFullName t = k"
  by (auto simp: find_Some_iff)

text \<open>The key of a TApp that a lister finds is the one it was split from.\<close>

lemma found_key:
  assumes "splits_keys env" "env_splitKey env k = Inr (ns, name)" "GetTAppFullName t = ns @ ''/'' @ name"
    and "tapp_Namespace t \<noteq> ''''" "CHR ''/'' \<notin> set (tapp_Namespace t)"
  shows "k = GetTAppFullName t"
proof -
  have "ns \<noteq> ''''" using assms(3-5) by (cases "tapp_Namespace t") (auto simp: GetTAppFullName_def)
  then show ?thesis using assms(1-3) unfolding splits_keys_def by metis
qed

text \<open>Changes of one TApp do not touch the lookup of another, and changes of one pod do not touch lists it is not in.\<close>

lemma find_other:
  assumes "GetTAppFullName t \<noteq> k"
  shows "List.find (\<lambda>u. GetTAppFullName u = k) (ts @ [t]) = List.find (\<lambda>u. GetTAppFullName u = k) ts"
    and "List.find (\<lambda>u. GetTAppFullName u = k) (map (\<lambda>u. if GetTAppFullName u = GetTAppFullName t then t else u) ts) =
      List.find (\<lambda>u. GetTAppFullName u = k) ts"
    and "List.find (\<lambda>u. GetTAppFullName u = k) (filter (\<lambda>u. GetTAppFullName u \<noteq> GetTAppFullName t) ts) =
      List.find (\<lambda>u. GetTAppFullName u = k) ts"
  using assms by (induction ts) auto

lemma filter_other:
  assumes "distinct (map pod_key ps)" "old \<in> set ps" "pod_key p = pod_key old" "\<not> P old" "\<not> P p"
  shows "filter P (map (\<lambda>q. if pod_key q = pod_key p then p else q) ps) = filter P ps"
    and "filter P (filter (\<lambda>q. pod_key q \<noteq> pod_key p) ps) = filter P ps"
proof -
  have "\<not> P q" if "q \<in> set ps" "pod_key q = pod_key p" for q
    using that assms by (metis distinct_map inj_onD)
  then show "filter P (map (\<lambda>q. if pod_key q = pod_key p then p else q) ps) = filter P ps"
    "filter P (filter (\<lambda>q. pod_key q \<noteq> pod_key p) ps) = filter P ps"
    using assms(5) by (induction ps) auto
qed

text \<open>A pod event that changes the pods a round of \<open>t\<close> reads wakes \<open>t\<close>.\<close>

lemma pod_event_covers:
  assumes "caches_hold cx ts ps'" "store_change (ts, ps) e (ts, ps')" "no_overlap cx ts ps" "no_overlap cx ts ps'"
    and "selectors_read_maps cx" "t \<in> set ts" "filter (reads cx t) ps' \<noteq> filter (reads cx t) ps"
  shows "GetTAppFullName t \<in> woken cx e"
proof -
  have key: "inf_keyOf cx (TAppObject t) = Inr (GetTAppFullName t)"
    by (rule caches_holdD(4) [OF assms(1) no_overlapD(4) [OF assms(3,6)]])
  note owner = getTAppForPod_reader [OF assms(1) _ assms(6)]
  note before = owner [OF assms(3)] and after = owner [OF assms(4)]
  show ?thesis
    using assms(2)
  proof cases
    case (pod_added p)
    then have "reads cx t p" "p \<in> set ps'" using assms(7) by (auto split: if_splits)
    then show ?thesis using pod_events_wake(1) [OF after key] pod_added by simp
  next
    case (pod_updated old p)
    have "p \<noteq> old"
    proof
      assume "p = old"
      then have "ps' = ps" using pod_updated no_overlapD(2) [OF assms(3)] by (auto simp: distinct_map inj_on_def intro!: map_idI)
      then show False using assms(7) by simp
    qed
    then have rv: "om_ResourceVersion (pod_Meta p) \<noteq> om_ResourceVersion (pod_Meta old)" using pod_updated by blast
    have "p \<in> set ps'" using pod_updated by (force simp: image_iff)
    moreover have "reads cx t old \<or> reads cx t p"
      using assms(7) filter_other(1) [OF no_overlapD(2) [OF assms(3)], of old p "reads cx t"] pod_updated by auto
    moreover have "pod_Namespace p = pod_Namespace old" using pod_updated by (simp add: pod_key_def)
    ultimately show ?thesis
      using pod_events_wake(4) [OF after key rv] pod_update_wakes_old [OF before key assms(5) _ rv] pod_updated by auto
  next
    case (pod_deleted p obj k)
    then have "reads cx t p" using assms(7) filter_other(2) [OF no_overlapD(2) [OF assms(3)], of p p "reads cx t"] by auto
    then show ?thesis using pod_events_wake(2,3) [OF before key] pod_deleted by auto
  qed (use assms(7) in auto)
qed

text \<open>A TApp event that changes what a lister finds under a key is about the TApp of that key, and wakes it.\<close>

lemma tapp_event_covers:
  assumes "caches_hold cx ts' ps'" "store_change (ts, ps) e (ts', ps')" "no_overlap cx ts ps" "no_overlap cx ts' ps'"
    and "List.find (\<lambda>t. GetTAppFullName t = k) ts' \<noteq> List.find (\<lambda>t. GetTAppFullName t = k) ts"
  shows "k \<in> woken cx e" "\<exists>t \<in> set ts \<union> set ts'. GetTAppFullName t = k"
proof -
  have key: "inf_keyOf cx (TAppObject t) = Inr (GetTAppFullName t)" if "t \<in> set ts \<union> set ts'" for t
    by (rule caches_holdD(4) [OF assms(1)]) (use that no_overlapD(4) assms(3,4) in blast)
  have "k \<in> woken cx e \<and> (\<exists>t \<in> set ts \<union> set ts'. GetTAppFullName t = k)"
    using assms(2)
  proof cases
    case (tapp_added t)
    have "GetTAppFullName t = k" by (rule ccontr) (use find_other(1) [of t k ts] assms(5) tapp_added(2) in simp)
    then show ?thesis using tapp_events_wake(1) [OF key, of t] tapp_added by auto
  next
    case (tapp_updated old t)
    have "GetTAppFullName t = k" by (rule ccontr) (use find_other(2) [of t k ts] assms(5) tapp_updated(2) in simp)
    moreover have t: "t \<in> set ts'" using tapp_updated(2,4,5) by (force simp: image_iff)
    moreover have "woken cx e = {GetTAppFullName t}"
      unfolding tapp_updated(1) by (rule tapp_events_wake(3) [OF key refl]) (use t in simp)
    ultimately show ?thesis by auto
  next
    case (tapp_deleted t obj)
    have "GetTAppFullName t = k" by (rule ccontr) (use find_other(3) [of t k ts] assms(5) tapp_deleted(2) in simp)
    moreover have "inf_keyOf cx obj = Inr (GetTAppFullName t)"
      using tapp_deleted key caches_holdD(5) [OF assms(1)] by auto
    ultimately show ?thesis using tapp_events_wake(2) [of cx obj] tapp_deleted by auto
  qed (use assms(5) in simp_all)
  then show "k \<in> woken cx e" "\<exists>t \<in> set ts \<union> set ts'. GetTAppFullName t = k" by simp_all
qed

lemma round_input_stores:
  assumes "caches_hold cx ts ps" "env_splitKey env k = Inr (ns, name)"
  shows "round_input env k cx = (case List.find (\<lambda>t. GetTAppFullName t = ns @ ''/'' @ name) ts of
    None \<Rightarrow> Inr (Inl NotFound, Inl NotFound)
  | Some t \<Rightarrow> Inr (Inr t, case inf_selectorOf cx (spec_Selector (tapp_Spec t)) of
      Inl err \<Rightarrow> Inl err | Inr sel \<Rightarrow> Inr (filter (reads cx t) ps)))"
  using getPodsForTApp_stores [OF assms(1)] caches_holdD(2) [OF assms(1)] assms(2)
  by (simp add: round_input_def tAppNamespaceLister_Get_def Let_def split: option.split sum.split)

lemma clean_change_covers:
  assumes "splits_keys env" "clean_change (env_caches env) w e w'"
    and "round_input env k (env_caches env w') \<noteq> round_input env k (env_caches env w)"
  shows "k \<in> woken (env_caches env w') e"
proof -
  let ?c = "env_caches env w" and ?c' = "env_caches env w'"
  obtain ts ps ts' ps' where ch: "caches_hold ?c ts ps" "caches_hold ?c' ts' ps'" "store_change (ts, ps) e (ts', ps')"
    "no_overlap ?c ts ps" "no_overlap ?c' ts' ps'" and static: "inf_selectorOf ?c' = inf_selectorOf ?c"
    "inf_controllerOf ?c' = inf_controllerOf ?c" and maps: "selectors_read_maps ?c'"
    using assms(2) unfolding clean_change_def by blast
  have same: "reads ?c' = reads ?c" "no_overlap ?c' ts ps" using reads_same [OF static] ch(4) by simp_all
  obtain ns name where k: "env_splitKey env k = Inr (ns, name)"
    using assms(3) by (cases "env_splitKey env k") (auto simp: round_input_def)
  let ?find = "List.find (\<lambda>t. GetTAppFullName t = ns @ ''/'' @ name)"
  have owner: "k = ns @ ''/'' @ name" if "t \<in> set ts \<union> set ts'" "GetTAppFullName t = ns @ ''/'' @ name" for t
  proof -
    have "tapp_Namespace t \<noteq> ''''" "CHR ''/'' \<notin> set (tapp_Namespace t)"
      using that(1) no_overlapD(4,5) ch(4,5) by (metis Un_iff)+
    from found_key [OF assms(1) k that(2) this] show ?thesis using that(2) by simp
  qed
  show ?thesis
  proof (cases "?find ts' = ?find ts")
    case False
    from tapp_event_covers [OF ch(2,3) same(2) ch(5) False] owner show ?thesis by auto
  next
    case True
    then obtain t where t: "?find ts = Some t" and diff: "filter (reads ?c' t) ps' \<noteq> filter (reads ?c' t) ps"
      using assms(3) round_input_stores [OF ch(1) k] round_input_stores [OF ch(2) k] static(1) same(1)
      by (cases "?find ts") (auto split: sum.splits)
    have "ts' = ts" using ch(3) diff by cases simp_all
    note full = find_full_name [OF t]
    have "GetTAppFullName t \<in> woken ?c' e"
      using pod_event_covers [of ?c' ts ps' ps e t] ch(2,3,5) same(2) maps full diff \<open>ts' = ts\<close> by blast
    then show ?thesis using owner [of t] full by auto
  qed
qed

subsection \<open>A controller at rest is up to date\<close>

lemma clean_changes_cover:
  assumes "splits_keys env" "\<And>w e w'. changes w e w' \<Longrightarrow> clean_change (env_caches env) w e w'"
  shows "events_cover (env_caches env) changes (round_input env)"
  unfolding events_cover_def using clean_change_covers [OF assms(1) assms(2)] by blast

text \<open>What a key's round reads differs from the start only if an event has woken the key.\<close>

lemma change_was_woken:
  assumes "pool_run wq syncHandler caches changes available tick s os t"
    and "events_cover caches changes view" "\<And>key w err w'. syncHandler key w = Inr (err, w') \<Longrightarrow> caches w' = caches w"
    and "view k (caches (snd (snd t))) \<noteq> view k (caches (snd (snd s)))"
  shows "was_woken k os"
  using assms(1,4)
proof induction
  case (step s os t ob u)
  show ?case
    using step.hyps(2)
  proof cases
    case (work ws i q w v q' w')
    have "caches w' = caches w" using work_observations [OF work(7)] assms(3) by metis
    then show ?thesis using step.IH step.prems work by (auto simp: was_woken_def)
  next
    case (event ws w e w' q q')
    have "k \<in> woken (caches w') e \<or> view k (caches w') = view k (caches w)"
      using assms(2) event(5) unfolding events_cover_def by blast
    then show ?thesis using step.IH step.prems event(1-3) by auto
  next
    case outside
    then show ?thesis using step.IH step.prems by simp
  next
    case tick
    then show ?thesis using step.IH step.prems by simp
  qed
qed simp


text \<open>The deletion of a TApp, as a change of the caches without overlap.\<close>

lemma storeCaches_hold: "caches_hold (storeCaches ts ps) ts ps"
  by (simp add: caches_hold_def storeCaches_def)

lemma deletion_clean:
  assumes "deletion w e w'"
  shows "clean_change (env_caches deletionEnv) w e w'"
proof -
  let ?t = "sampleTApp 1" and ?c = "\<lambda>ts. storeCaches ts []"
  have w: "env_caches deletionEnv w = ?c [?t]" "env_caches deletionEnv w' = ?c []" "e = TAppDeleted (TAppObject ?t)"
    using assms by (simp_all add: deletion_def deletionEnv_def)
  have "store_change ([?t], []) e (filter (\<lambda>u. GetTAppFullName u \<noteq> GetTAppFullName ?t) [?t], [])"
    unfolding w(3) by (rule tapp_deleted) simp_all
  then have "store_change ([?t], []) e ([], [])" by simp
  moreover have "no_overlap (?c [?t]) [?t] []" "no_overlap (?c []) [] []" "selectors_read_maps (?c [])"
    by (simp_all add: no_overlap_def valid_selector_def storeCaches_def sample_caches_defs selectors_read_maps_def)
      (simp add: sampleTApp_def sampleMeta_def)
  moreover have "inf_selectorOf (?c []) = inf_selectorOf (?c [?t])" "inf_controllerOf (?c []) = inf_controllerOf (?c [?t])"
    by (simp_all add: storeCaches_def)
  ultimately show ?thesis unfolding clean_change_def w using storeCaches_hold by blast
qed


end
