(* ===== verification/Shared_Caches.thy ===== *)
theory Shared_Caches
  imports Conditions
begin

text \<open>
  What the retry loops of \<^verbatim>\<open>updateTAppStatus\<close> and \<^verbatim>\<open>setInPlaceUpdateCondition\<close> do to the caches of the informers. A
  lister returns a pointer into its cache. Both loops go on with the object they read after a failed request and write to it without
  copying it, so the cache changes too. \<open>Status\<close> and \<open>Conditions\<close> treat every object as a value; here the
  loops have one more parameter, \<open>put\<close>, the effect on the world of writing through the pointer the lister
  returned. With a \<open>put\<close> that does nothing the loops are the ones of those theories.
\<close>

subsection \<open>The status of a TApp\<close>

text \<open>The object of the first iteration is the caller's own copy, that of every later one is shared with the cache.\<close>

function sharedStatusLoop ::
  "'w tapp_request \<Rightarrow> 'w tapp_getter \<Rightarrow> (TApp \<Rightarrow> 'w \<Rightarrow> 'w) \<Rightarrow> string \<Rightarrow> Pod list \<Rightarrow> nat \<Rightarrow> TApp \<Rightarrow> 'w \<Rightarrow> error option \<times> 'w" where
  "sharedStatusLoop updateStatus listerGet put ns pods i app w =
     (let app1 = refreshStatus pods app;
          w0 = (if i = 0 then w else put app1 w);
          (r, w1) = updateStatus app1 w0
      in case r of
           Inr _ \<Rightarrow> (None, w1)
         | Inl updateErr \<Rightarrow>
             if i \<ge> statusUpdateRetries then (Some updateErr, w1)
             else (case listerGet ns (tapp_Name app1) w1 of
                     Inl getErr \<Rightarrow> (Some getErr, w1)
                   | Inr app2 \<Rightarrow> sharedStatusLoop updateStatus listerGet put ns pods (Suc i) app2 w1))"
  by pat_completeness auto
termination
  by (relation "measure (\<lambda>(_, _, _, _, _, i, _, _). Suc statusUpdateRetries - i)") auto

declare sharedStatusLoop.simps [simp del]

definition sharedUpdateTAppStatus ::
  "'w tapp_request \<Rightarrow> 'w tapp_getter \<Rightarrow> (TApp \<Rightarrow> 'w \<Rightarrow> 'w) \<Rightarrow> TApp \<Rightarrow> Pod list \<Rightarrow> 'w \<Rightarrow> error option \<times> 'w" where
  "sharedUpdateTAppStatus updateStatus listerGet put tapp pods w =
     (if \<not> shouldUpdateTAppStatus tapp pods then (None, w)
      else sharedStatusLoop updateStatus listerGet put (tapp_Namespace tapp) pods 0 tapp w)"

lemma sharedStatusLoop_values:
  "sharedStatusLoop updateStatus listerGet (\<lambda>_ w. w) ns pods i app w = updateStatusLoop updateStatus listerGet ns pods i app w"
proof (induction "Suc statusUpdateRetries - i" arbitrary: i app w rule: less_induct)
  case less
  have ih: "\<not> statusUpdateRetries \<le> i \<Longrightarrow> sharedStatusLoop updateStatus listerGet (\<lambda>_ w. w) ns pods (Suc i) app2 w1 =
      updateStatusLoop updateStatus listerGet ns pods (Suc i) app2 w1" for app2 w1
    by (rule less) simp
  show ?case
    by (subst sharedStatusLoop.simps, subst updateStatusLoop.simps) (simp add: ih Let_def split: prod.split sum.split)
qed

lemma sharedUpdateTAppStatus_values:
  "sharedUpdateTAppStatus updateStatus listerGet (\<lambda>_ w. w) = updateTAppStatus updateStatus listerGet"
  by (intro ext) (simp add: sharedUpdateTAppStatus_def updateTAppStatus_def sharedStatusLoop_values)

text \<open>A cache entry: what is written through its pointer is what the lister returns next, and requests to the server do not change it
  (events of the informer do, later).\<close>

definition tapp_cached :: "'w tapp_request \<Rightarrow> 'w tapp_getter \<Rightarrow> (TApp \<Rightarrow> 'w \<Rightarrow> 'w) \<Rightarrow> string \<Rightarrow> string \<Rightarrow> bool" where
  "tapp_cached updateStatus listerGet put ns name \<longleftrightarrow>
     (\<forall>t w. tapp_Name t = name \<longrightarrow> listerGet ns name (put t w) = Inr t) \<and>
     (\<forall>t w r w'. updateStatus t w = (r, w') \<longrightarrow> listerGet ns name w' = listerGet ns name w)"

lemma tapp_cachedD:
  assumes "tapp_cached updateStatus listerGet put ns name"
  shows "tapp_Name t = name \<Longrightarrow> listerGet ns name (put t w) = Inr t"
    and "updateStatus t w = (r, w') \<Longrightarrow> listerGet ns name w' = listerGet ns name w"
  using assms unfolding tapp_cached_def by blast+

text \<open>Iterations whose requests fail: the first leaves the cache alone, a later one leaves its own status in it.\<close>

lemma sharedStatusLoop_retry:
  assumes "tapp_cached updateStatus listerGet put ns name" "\<And>t w. \<exists>e w'. updateStatus t w = (Inl e, w')"
    and "tapp_Name app = name" "listerGet ns name (if i = 0 then w else put (refreshStatus pods app) w) = Inr app2"
    and "i < statusUpdateRetries"
  obtains w1 where "listerGet ns name w1 = Inr app2"
    and "sharedStatusLoop updateStatus listerGet put ns pods i app w = sharedStatusLoop updateStatus listerGet put ns pods (Suc i) app2 w1"
proof -
  let ?w0 = "if i = 0 then w else put (refreshStatus pods app) w"
  obtain e w1 where u: "updateStatus (refreshStatus pods app) ?w0 = (Inl e, w1)" using assms(2) by blast
  have "listerGet ns name w1 = Inr app2" using tapp_cachedD(2) [OF assms(1) u] assms(4) by simp
  moreover from this have "sharedStatusLoop updateStatus listerGet put ns pods i app w =
      sharedStatusLoop updateStatus listerGet put ns pods (Suc i) app2 w1"
    using u assms(3,5) by (subst sharedStatusLoop.simps) (simp add: Let_def)
  ultimately show thesis by (rule that)
qed

lemma sharedStatusLoop_last:
  assumes "tapp_cached updateStatus listerGet put ns name" "\<And>t w. \<exists>e w'. updateStatus t w = (Inl e, w')" "tapp_Name app = name"
  shows "\<exists>e w'. sharedStatusLoop updateStatus listerGet put ns pods statusUpdateRetries app w = (Some e, w') \<and>
    listerGet ns name w' = Inr (refreshStatus pods app)"
proof -
  obtain e w1 where u: "updateStatus (refreshStatus pods app) (put (refreshStatus pods app) w) = (Inl e, w1)" using assms(2) by blast
  have "listerGet ns name w1 = Inr (refreshStatus pods app)"
    using tapp_cachedD(2) [OF assms(1) u] tapp_cachedD(1) [OF assms(1), of "refreshStatus pods app"] assms(3) by simp
  moreover have "statusUpdateRetries \<noteq> 0" by (simp add: statusUpdateRetries_def)
  ultimately show ?thesis using u by (subst sharedStatusLoop.simps) (simp add: Let_def)
qed

text \<open>C21. A status that was never written looks as if it had been. When all requests of a status update fail, the update
  returns the error and the key is put on the queue again. But the retries have written the new status into the TApp in the informer's
  cache: the next round reads it there, finds nothing to update and succeeds without sending anything, until the server happens
  to send the TApp anew.\<close>

theorem failed_status_looks_written:
  assumes "\<And>t w. \<exists>e w'. updateStatus t w = (Inl e, w')"
    and "tapp_cached updateStatus listerGet put (tapp_Namespace tapp) (tapp_Name tapp)"
    and "listerGet (tapp_Namespace tapp) (tapp_Name tapp) w = Inr cached" "tapp_Name cached = tapp_Name tapp"
    and "\<And>p q i. p \<in> set pods \<Longrightarrow> q \<in> set pods \<Longrightarrow> getPodIndex p = Inr i \<Longrightarrow> getPodIndex q = Inr i \<Longrightarrow> p = q"
    and "noDyingFinished cached pods" "shouldUpdateTAppStatus tapp pods"
  shows "\<exists>e w' t. sharedUpdateTAppStatus updateStatus listerGet put tapp pods w = (Some e, w') \<and>
    listerGet (tapp_Namespace tapp) (tapp_Name tapp) w' = Inr t \<and>
    st_Statuses (tapp_Status t) = Some (getInstanceStatus (refreshStatus pods cached) pods) \<and>
    sharedUpdateTAppStatus updateStatus listerGet put t pods w' = (None, w')"
proof -
  let ?ns = "tapp_Namespace tapp" and ?name = "tapp_Name tapp" and ?c = "refreshStatus pods cached"
  let ?loop = "sharedStatusLoop updateStatus listerGet put ?ns pods"
  obtain w1 where w1: "listerGet ?ns ?name w1 = Inr cached" "?loop 0 tapp w = ?loop (Suc 0) cached w1"
    by (rule sharedStatusLoop_retry [OF assms(2,1), of tapp 0 w pods cached]) (simp_all add: assms(3) statusUpdateRetries_def)
  have "listerGet ?ns ?name (if Suc 0 = 0 then w1 else put ?c w1) = Inr ?c"
    using tapp_cachedD(1) [OF assms(2), of ?c] assms(4) by simp
  then obtain w2 where w2: "listerGet ?ns ?name w2 = Inr ?c" "?loop (Suc 0) cached w1 = ?loop (Suc (Suc 0)) ?c w2"
    by (rule sharedStatusLoop_retry [OF assms(2,1,4)]) (simp add: statusUpdateRetries_def)
  have name: "tapp_Name ?c = ?name" by (simp add: assms(4))
  obtain e w' where last: "?loop statusUpdateRetries ?c w2 = (Some e, w')" "listerGet ?ns ?name w' = Inr (refreshStatus pods ?c)"
    using sharedStatusLoop_last [OF assms(2,1) name] by blast
  have "\<not> shouldUpdateTAppStatus (refreshStatus pods ?c) pods"
    by (rule refreshStatus_settled [OF assms(5) noDyingFinished_refresh [OF assms(6,5)]])
  moreover have "st_Statuses (tapp_Status (refreshStatus pods ?c)) = Some (getInstanceStatus ?c pods)" by simp
  moreover have "sharedUpdateTAppStatus updateStatus listerGet put tapp pods w = (Some e, w')"
    using w1(2) w2(2) last(1) assms(7) by (simp add: sharedUpdateTAppStatus_def statusUpdateRetries_def numeral_2_eq_2)
  ultimately show ?thesis using last(2) by (auto simp: sharedUpdateTAppStatus_def)
qed

text \<open>A server that refuses every request, and a cache of one TApp.\<close>

theorem failed_status_looks_written_witness:
  "\<exists>e t. sharedUpdateTAppStatus (\<lambda>_ w. (Inl Conflict, w)) (\<lambda>_ _ w. Inr w) (\<lambda>t _. t) (sampleTApp 2) [samplePod ''0''] (sampleTApp 2) = (Some e, t) \<and>
     sharedUpdateTAppStatus (\<lambda>_ w. (Inl Conflict, w)) (\<lambda>_ _ w. Inr w) (\<lambda>t _. t) t [samplePod ''0''] t = (None, t)"
proof -
  have "noDyingFinished (sampleTApp 2) [samplePod ''0'']"
    by (simp add: noDyingFinished_def isPodDying_def sample_defs split: sum.split)
  moreover have "shouldUpdateTAppStatus (sampleTApp 2) [samplePod ''0'']"
    by (simp add: shouldUpdateTAppStatus_def gm_DeepEqual_def sample_defs)
  moreover have "tapp_cached (\<lambda>_ w. (Inl Conflict, w)) (\<lambda>_ _ w. Inr w) (\<lambda>t _. t) ns name" for ns name
    by (simp add: tapp_cached_def)
  ultimately show ?thesis
    using failed_status_looks_written [of "\<lambda>_ w. (Inl Conflict, w)" "\<lambda>_ _ w. Inr w" "\<lambda>t _. t" "sampleTApp 2" "sampleTApp 2" "sampleTApp 2"
        "[samplePod ''0'']"] by auto
qed

subsection \<open>The readiness gate of a pod\<close>

text \<open>After a conflict the loop goes on with the cache's own pod (\<open>shared\<close>), if the lister has it.\<close>

fun sharedConditionLoop ::
  "'w pod_request \<Rightarrow> 'w pod_getter \<Rightarrow> (Pod \<Rightarrow> 'w \<Rightarrow> 'w) \<Rightarrow> ('w \<Rightarrow> int) \<Rightarrow> ConditionStatus \<Rightarrow> bool \<Rightarrow> nat \<Rightarrow> Pod \<Rightarrow> 'w \<Rightarrow> 'w" where
  "sharedConditionLoop updatePodStatus podGet put now status shared 0 pod w = w"
| "sharedConditionLoop updatePodStatus podGet put now status shared (Suc r) pod w =
     (let (pod1, needUpdate) = applyCondition status (now w) pod
      in if \<not> needUpdate then w
         else case updatePodStatus pod1 (if shared then put pod1 w else w) of
                (Inr _, w1) \<Rightarrow> w1
              | (Inl err, w1) \<Rightarrow>
                  if IsConflict err
                  then (case podGet (pod_Namespace pod1) (pod_Name pod1) w1 of
                          Inl _ \<Rightarrow> sharedConditionLoop updatePodStatus podGet put now status shared r pod1 w1
                        | Inr newPod \<Rightarrow> sharedConditionLoop updatePodStatus podGet put now status True r newPod w1)
                  else w1)"

lemma sharedConditionLoop_values:
  "sharedConditionLoop us get (\<lambda>_ w. w) now status shared r pod w = conditionLoop us get now status r pod w"
  by (induction r arbitrary: shared pod w) (simp_all add: Let_def split: prod.split sum.split)

definition pod_cached :: "'w pod_request \<Rightarrow> 'w pod_getter \<Rightarrow> (Pod \<Rightarrow> 'w \<Rightarrow> 'w) \<Rightarrow> string \<Rightarrow> string \<Rightarrow> bool" where
  "pod_cached updatePodStatus podGet put ns name \<longleftrightarrow>
     (\<forall>p w. pod_Name p = name \<longrightarrow> podGet ns name (put p w) = Inr p) \<and>
     (\<forall>p w r w'. updatePodStatus p w = (r, w') \<longrightarrow> podGet ns name w' = podGet ns name w)"

text \<open>The same for a pod: when every request ends in a conflict, the pod in the cache carries the gate the server
  never got, so the next round has nothing to send for it.\<close>

theorem refused_gate_looks_written:
  assumes "\<And>p w. \<exists>w'. us p w = (Inl Conflict, w')" "pod_cached us get put (pod_Namespace pod) (pod_Name pod)"
    and "get (pod_Namespace pod) (pod_Name pod) w = Inr cached" "pod_Name cached = pod_Name pod"
    and "snd (applyCondition status (now w) pod)" "\<And>t. snd (applyCondition status t cached)"
    and "w' = sharedConditionLoop us get put now status False statusUpdateRetries pod w"
  shows "\<exists>p. get (pod_Namespace pod) (pod_Name pod) w' = Inr p \<and>
    sharedConditionLoop us get put now status False statusUpdateRetries p w' = w'"
proof -
  let ?ns = "pod_Namespace pod" and ?name = "pod_Name pod"
  have put: "pod_Name p = ?name \<Longrightarrow> get ?ns ?name (put p v) = Inr p"
    and keep: "us p v = (r, v') \<Longrightarrow> get ?ns ?name v' = get ?ns ?name v" for p r v v'
    using assms(2) unfolding pod_cached_def by blast+
  obtain pod1 where a: "applyCondition status (now w) pod = (pod1, True)" using assms(5) by (metis prod.collapse)
  have meta: "pod_Meta pod1 = pod_Meta pod" using applyCondition_frame(1) [of status "now w" pod] by (simp add: a)
  obtain w1 where w1: "us pod1 w = (Inl Conflict, w1)" using assms(1) by blast
  have got: "get ?ns ?name w1 = Inr cached" using keep [OF w1] assms(3) by simp
  define p where "p = fst (applyCondition status (now w1) cached)"
  have b: "applyCondition status (now w1) cached = (p, True)"
    using assms(6) [of "now w1"] by (simp add: p_def) (metis prod.collapse)
  have name: "pod_Name p = ?name" using assms(4) by (simp add: p_def)
  obtain w2 where w2: "us p (put p w1) = (Inl Conflict, w2)" using assms(1) by blast
  have last: "get ?ns ?name w2 = Inr p" using keep [OF w2] put [OF name] by simp
  have "w' = w2"
    using assms(7) a b w1 w2 got meta by (simp add: statusUpdateRetries_def numeral_2_eq_2 IsConflict_def split: sum.split)
  moreover have "\<not> snd (applyCondition status t p)" for t
    unfolding applyCondition_needUpdate p_def using applyCondition_gate [of status "now w1" cached] by auto
  then have "sharedConditionLoop us get put now status False (Suc r) p v = v" for r v
    by (simp add: Let_def case_prod_beta)
  ultimately show ?thesis using last by (auto simp: statusUpdateRetries_def numeral_2_eq_2)
qed

theorem refused_gate_looks_written_witness:
  "\<exists>p. sharedConditionLoop (\<lambda>_ w. (Inl Conflict, w)) (\<lambda>_ _ w. Inr w) (\<lambda>p _. p) (\<lambda>_. 7) ConditionFalse False statusUpdateRetries
     (samplePod ''0'') (samplePod ''0'') = p \<and>
   sharedConditionLoop (\<lambda>_ w. (Inl Conflict, w)) (\<lambda>_ _ w. Inr w) (\<lambda>p _. p) (\<lambda>_. 7) ConditionFalse False statusUpdateRetries p p = p"
proof -
  have "snd (applyCondition ConditionFalse t (samplePod ''0''))" for t
    by (simp add: applyCondition_needUpdate sample_defs gate_not_Ready)
  moreover have "pod_cached (\<lambda>_ w. (Inl Conflict, w)) (\<lambda>_ _ w. Inr w) (\<lambda>p _. p) ns name" for ns name
    by (simp add: pod_cached_def)
  ultimately show ?thesis
    using refused_gate_looks_written [of "\<lambda>_ w. (Inl Conflict, w)" "\<lambda>_ _ w. Inr w" "\<lambda>p _. p" "samplePod ''0''" "samplePod ''0''"
        "samplePod ''0''" ConditionFalse "\<lambda>_. 7", OF _ _ _ _ _ _ refl] by auto
qed

end
