(* ===== verification/Spec2Isabelle.thy ===== *)
theory Spec2Isabelle
  imports Admitted_Rollout Api_Client Wellformed Next_Action_Spec TApp_Edits Deep_Copy Force_Deletion
    Lost_Updates Controller_Setup Startup Import_Checker Event_Coverage Shared_Caches
begin

text \<open>
  A verification library for the TApp controller, a Kubernetes controller for the custom resource TApp: a
  set of numbered pods (instances), each of which may follow a template of its own, be updated in place,
  killed and restarted by number.

  \<^bold>\<open>The program.\<close> Informers feed pod and TApp events to handlers (\<^verbatim>\<open>pkg/tapp/controller.go\<close>) that put the key of
  the TApp concerned on a queue. A worker takes a key and runs one round, \<^verbatim>\<open>Sync\<close>: read the TApp, complete it
  (\<^verbatim>\<open>preprocessTApp\<close>), read its pods, and \<^verbatim>\<open>syncTApp\<close>: refresh the hash labels of the templates, compute the desired instances and
  the next action of each, turn the actions into a plan within the unavailability budgets
  (\<^verbatim>\<open>instanceToSync\<close>), take the pods to be changed out of service, carry the plan out in goroutines (\<^verbatim>\<open>InstanceSyncer\<close>,
  \<^verbatim>\<open>pkg/tapp/instance.go\<close>), and write the status. An admission webhook (\<^verbatim>\<open>pkg/admission\<close>) validates
  TApps; \<^verbatim>\<open>main.go\<close> registers the resource and the webhook and starts everything. The rest of
  \<^verbatim>\<open>pkg/\<close> are API types, generated clients, informers and copies, the hash, and helpers.

  \<^bold>\<open>Theories, in the order of their imports, with the sources under\<close> \<^verbatim>\<open>src/\<close>\<^bold>\<open>.\<close>

  \<^item> \<open>Go_Prelude\<close>: panics as values (\<open>go\<close>), maps as association lists under an option (nil), strconv at 64 bits,
    sets, loops that may panic and their invariant rules; the collections \<open>go_simps\<close> and \<open>model_defs\<close>.
  \<^item> \<open>Kube_Types\<close>: the Kubernetes objects as far as the code reads or writes them; the rest of an object
    is an opaque field. \<open>TApp_Types\<close>: \<^verbatim>\<open>pkg/apis/tappcontroller/v1/types.go\<close>, with \<open>int32\<close> and \<open>int64\<close> as words.
    \<open>Sample_Objects\<close>: concrete objects for the witnesses.
  \<^item> \<open>Tapp_Hash\<close>: \<^verbatim>\<open>pkg/hash/hash.go\<close>; the Go interface is the locale \<open>tapp_hash_interface\<close>. \<open>TApp_Utils\<close>:
    \<^verbatim>\<open>pkg/tapp/tapp_utils.go\<close> and \<^verbatim>\<open>pkg/util/utils.go\<close>. \<open>Identity_Mappers\<close>: \<^verbatim>\<open>pkg/tapp/identity_mappers.go\<close>, also a locale.
  \<^item> \<open>TApp_Instance\<close>: instances, pods made from templates, claims and in-place merges of \<^verbatim>\<open>instance.go\<close>.
  \<^item> \<open>Pod_Actions\<close>: desired instances, availability and next actions of \<^verbatim>\<open>controller.go\<close>. \<open>Rollout\<close>: plans. \<open>Rollout_Props\<close>
    and \<open>Rollout_Theorems\<close>: what a plan may contain, for every action table (locale \<open>action_table\<close>) and then for
    the tables the controller computes (interpretation \<open>planned\<close>). \<open>Next_Action_Spec\<close>: the decision for one instance as one
    table, what a new template leads to, and identities.
  \<^item> \<open>Status\<close>, \<open>Conditions\<close>, \<open>Preprocess\<close>, \<open>Events\<close>, \<open>Sync\<close>: the parts of \<^verbatim>\<open>controller.go\<close> of those names, with their
    requests on an abstract world; \<open>Wellformed\<close>: the type invariant of the maps. \<open>Shared_Caches\<close>: the two retry loops again,
    with what they write into the caches of the listers.
  \<^item> \<open>Worker_Pool\<close>: the workers of \<^verbatim>\<open>Controller.Run\<close>, the queue and the events of the informers as a step
    relation, with a small specification of what each key is promised. \<open>Event_Coverage\<close>: the event handlers over
    caches that hold stored objects, and when they wake every TApp whose round would read something else.
  \<^item> \<open>Instance_Client\<close>: the syncer over any client, goroutines as an inductive step relation; the contract of a
    client that keeps a map is the locale \<open>instance_store\<close>. \<open>Fakes\<close>: the in-memory client of
    \<^verbatim>\<open>pkg/tapp/fakes.go\<close>, on which it is interpreted (\<open>fake\<close>). \<open>Api_Client\<close>: the client of the API server.
  \<^item> \<open>Convergence\<close>: plan, syncer, client and next plan composed. \<open>Rollout_Liveness\<close>: sequences of such rounds.
    \<open>Force_Deletion\<close>: which dying pods a plan removes by force. \<open>Lost_Updates\<close>: what an in-place update leaves behind.
  \<^item> \<open>Admission\<close>: \<^verbatim>\<open>pkg/admission\<close>. \<open>Admitted_Rollout\<close>: its server (\<^verbatim>\<open>server.go\<close>), and admission, registration and rollout
    composed. \<open>Registration\<close>: \<^verbatim>\<open>pkg/tapp/crd.go\<close> and the webhook configuration. \<open>Startup\<close>: \<^verbatim>\<open>main.go\<close> and
    \<^verbatim>\<open>Controller.Run\<close>. \<open>Controller_Setup\<close>: \<^verbatim>\<open>NewController\<close> and the caches it makes. \<open>Version_Flag\<close>: \<^verbatim>\<open>pkg/version\<close>. \<open>TApp_Edits\<close>: \<^verbatim>\<open>pkg/testutil/utils.go\<close>.
  \<^item> \<open>Deep_Copy\<close>: \<^verbatim>\<open>zz_generated.deepcopy.go\<close> on an explicit store, so that sharing can be stated. \<open>Typed_Client\<close> and
    \<open>Informer_Factory\<close>: the generated client, its fake, and the informer factory as a step relation.
    \<open>Client_Sets\<close>: how the generated clients, their fakes, schemes and listers are put together.
  \<^item> \<open>Import_Checker\<close>: \<^verbatim>\<open>hack/import_checker.go\<close>, the build-time check of the order of imports.

  \<^bold>\<open>What is shown.\<close>

  \<^item> Plans: the unavailability budgets are respected for all map visiting orders, the rolling update
    picks exactly the lowest-numbered pods the budget allows, each instance is touched at most once, exactly the right
    ones are created and removed, only owned pods are touched, and computing a plan does not panic.
  \<^item> Decisions: the passes over the pods equal one decision table; a change of images alone never recreates a pod.
  \<^item> Convergence and concurrency: from no pods one round creates what is desired under every interleaving of the
    goroutines and the next plan is empty; interleavings refine one update of a map; a settled TApp causes no request.
  \<^item> Liveness: with positive budgets every sequence of rounds, each plan carried out and its pods started, ends with all
    instances up to date; two rounds for each outdated pod and one more are always enough. The same is proved of every TApp the webhook accepts.
  \<^item> Status, conditions, preprocessing: functional correctness, idempotence, bounded numbers of requests
    against any server, counters within 32 bits, round trips of the readiness gate.
  \<^item> Events: which TApp a pod wakes, and which pods a TApp owns.
  \<^item> Workers: under every interleaving no two workers hold one key, no event and no failed sync is lost; without
    overlapping selectors every change of what a round reads wakes its TApp, and a controller at rest has synced every TApp against
    what its caches hold.
  \<^item> Admission: exactly which TApps are accepted, that every well-formed review is answered at the path
    that is registered.
  \<^item> Start: order of the start sequence, registration that settles, informers shared and run once, the handlers and listers a
    controller is made with; copies that share no containers; client requests that can be read back; the advice of the import checker is
    accepted by it.

  Some theorems state what the code does where it differs from its intent: the force update that waits for
  availability it does not need, panics on a failing lister and on malformed reviews, a retry that does not
  take place, a status written on every round, a resource version left in a global, shared budget pointers,
  changes that never reach the pods, a node cache nobody waits for, workers that go on after shut-down, retries that write a
  status or a gate into a cache although the server refused it, and an owner its pods do not wake.

  \<^bold>\<open>Conventions.\<close> A \<^verbatim>\<open>range\<close> over a map takes the visiting order as a list argument where the order matters; theorems
  quantify over it. Third-party code is a parameter: the object printer of the hash, \<^verbatim>\<open>intstr\<close> and field
  validation, selectors, listers, the API server as functions on a world \<open>'w\<close>, informers, the queue, leader election. What is
  relied on is a named hypothesis, with a concrete instance in the witness. Loops are structural or bounded: the retry
  loops of status, conditions and in-place updates run at most \<^verbatim>\<open>statusUpdateRetries + 1\<close> and
  \<^verbatim>\<open>updateRetries + 1\<close> times as in the code and are proved to end; the endless worker loop is a
  function of the number of iterations, which bounds what is observed of it and nothing else.

  \<^bold>\<open>Not modelled.\<close> Logging and metrics, which no decision reads. Generated interface declarations, which have no behaviour. What
  belongs to libraries is a parameter: REST clients, schemes, the TLS listener, the JSON codec, the parser of the import checker, timing
  and rate limits. Races of goroutines with the informer caches are covered as far as the atomic calls of a client and arbitrary results of
  listers go, and in \<open>Worker_Pool\<close> a whole sync is one step between its start and its end; the kubelet appears only in \<open>Rollout_Liveness\<close>, as pods that start between two rounds. Tests are not modelled.
\<close>

end
